(* ===== verification/Py_Prelude.thy ===== *)
theory Py_Prelude
  imports Complex_Main "HOL-Library.AList" "HOL-Library.Char_ord"
    "HOL-Library.List_Lexorder" "HOL-Library.Product_Lexorder"
begin

text \<open>
  The part of Python that the modelled code uses, shared by every component.

  \<^item> \<open>exn\<close> and \<open>'a res\<close>: a raised exception is \<open>Inl\<close>, a returned value \<open>Inr\<close>.
  \<^item> \<open>pyval\<close>: the values that \<open>json.load\<close> produces. An object is an association list in
    insertion order, a float is an exact rational, and \<open>NaN\<close> and the infinities are left out.
  \<^item> Strings are \<open>string\<close>; every character is one code point below 256; the case functions follow
    Python on ASCII, the space and line-end tests on all of them.
  \<^item> \<open>sorted(xs, key=k)\<close> is \<open>sort_key k xs\<close>, which is stable as Python's sort is; strings are
    ordered by code point and tuples lexicographically.
\<close>

named_theorems py_defs \<open>definitions that a component proof unfolds\<close>
named_theorems py_keep \<open>preservation facts: an operation keeps an invariant or a field\<close>

section \<open>Exceptions and results\<close>

datatype exn =
    ValueError string
  | TypeError string
  | KeyError string
  | IndexError string
  | AttributeError string
  | RuntimeError string
  | NotImplementedError string
  | OtherError string

type_synonym 'a res = "exn + 'a"

text \<open>\<open>str(exc)\<close>; the text of a \<open>KeyError\<close> is the quoted key.\<close>

fun exn_text :: "exn \<Rightarrow> string" where
  "exn_text (ValueError s) = s"
| "exn_text (TypeError s) = s"
| "exn_text (KeyError s) = CHR 0x27 # s @ [CHR 0x27]"
| "exn_text (IndexError s) = s"
| "exn_text (AttributeError s) = s"
| "exn_text (RuntimeError s) = s"
| "exn_text (NotImplementedError s) = s"
| "exn_text (OtherError s) = s"

text \<open>Sequencing: an exception skips the rest.\<close>

fun res_bind :: "'e + 'a \<Rightarrow> ('a \<Rightarrow> 'e + 'b) \<Rightarrow> 'e + 'b" where
  "res_bind (Inl e) f = Inl e"
| "res_bind (Inr x) f = f x"

lemma res_bind_weak_cong [cong]: "m = m' \<Longrightarrow> res_bind m f = res_bind m' f"
  by simp

lemma res_bind_Inr_iff: "res_bind m f = Inr y \<longleftrightarrow> (\<exists>x. m = Inr x \<and> f x = Inr y)"
  by (cases m) auto

lemma res_bind_Inl_iff: "res_bind m f = Inl e \<longleftrightarrow> m = Inl e \<or> (\<exists>x. m = Inr x \<and> f x = Inl e)"
  by (cases m) auto

lemma res_bind_cong [fundef_cong]:
  "m = m' \<Longrightarrow> (\<And>x. m' = Inr x \<Longrightarrow> f x = g x) \<Longrightarrow> res_bind m f = res_bind m' g"
  by (cases m') auto

text \<open>A loop whose body may raise: the first exception ends it.\<close>

fun res_map :: "('a \<Rightarrow> 'e + 'b) \<Rightarrow> 'a list \<Rightarrow> 'e + 'b list" where
  "res_map f [] = Inr []"
| "res_map f (x # xs) =
     (case f x of
        Inl e \<Rightarrow> Inl e
      | Inr y \<Rightarrow> (case res_map f xs of Inl e \<Rightarrow> Inl e | Inr ys \<Rightarrow> Inr (y # ys)))"

fun res_fold :: "('s \<Rightarrow> 'a \<Rightarrow> 'e + 's) \<Rightarrow> 's \<Rightarrow> 'a list \<Rightarrow> 'e + 's" where
  "res_fold f s [] = Inr s"
| "res_fold f s (x # xs) = (case f s x of Inl e \<Rightarrow> Inl e | Inr s' \<Rightarrow> res_fold f s' xs)"

fun res_all :: "('a \<Rightarrow> 'e + unit) \<Rightarrow> 'a list \<Rightarrow> 'e + unit" where
  "res_all f [] = Inr ()"
| "res_all f (x # xs) = (case f x of Inl e \<Rightarrow> Inl e | Inr _ \<Rightarrow> res_all f xs)"

lemma res_map_Inr_all2: "res_map f xs = Inr ys \<Longrightarrow> list_all2 (\<lambda>x y. f x = Inr y) xs ys"
  by (induction xs arbitrary: ys) (auto split: sum.splits)

lemma res_map_Inr_length: "res_map f xs = Inr ys \<Longrightarrow> length ys = length xs"
  by (metis res_map_Inr_all2 list_all2_lengthD)

lemma res_map_Inr_set:
  "res_map f xs = Inr ys \<Longrightarrow> y \<in> set ys \<Longrightarrow> \<exists>x\<in>set xs. f x = Inr y"
  by (induction xs arbitrary: ys) (auto split: sum.splits)

lemma res_map_Inl_ex:
  "res_map f xs = Inl e \<Longrightarrow> \<exists>x\<in>set xs. f x = Inl e"
  by (induction xs) (auto split: sum.splits)

lemma res_map_total: "(\<And>x. x \<in> set xs \<Longrightarrow> f x = Inr (g x)) \<Longrightarrow> res_map f xs = Inr (map g xs)"
  by (induction xs) auto

lemma res_all_Inr_iff: "res_all f xs = Inr u \<longleftrightarrow> (\<forall>x\<in>set xs. f x = Inr ())"
  by (induction xs) (auto split: sum.splits)

lemma res_all_Inl_ex: "res_all f xs = Inl e \<Longrightarrow> \<exists>x\<in>set xs. f x = Inl e"
  by (induction xs) (auto split: sum.splits)

lemma res_fold_append:
  "res_fold f s (xs @ ys) = (case res_fold f s xs of Inl e \<Rightarrow> Inl e | Inr s' \<Rightarrow> res_fold f s' ys)"
  by (induction xs arbitrary: s) (auto split: sum.splits)

lemma res_fold_invariant:
  assumes "res_fold f s xs = Inr s'" and "I s"
    and "\<And>s x t. I s \<Longrightarrow> x \<in> set xs \<Longrightarrow> f s x = Inr t \<Longrightarrow> I t"
  shows "I s'"
  using assms
proof (induction xs arbitrary: s)
  case Nil
  then show ?case by simp
next
  case (Cons x xs)
  from Cons.prems(1) obtain t where t: "f s x = Inr t" and rest: "res_fold f t xs = Inr s'"
    by (auto split: sum.splits)
  have "I t" using Cons.prems(2,3) t by auto
  then show ?case
    by (rule Cons.IH [OF rest]) (auto intro: Cons.prems(3))
qed

section \<open>Dictionaries\<close>

text \<open>
  \<open>d[k] = v\<close> keeps the position of an existing key and appends a new one, which is
  \<open>AList.update\<close>; \<open>d.pop(k, None)\<close> is \<open>AList.delete\<close>; \<open>d.get(k)\<close> is \<open>map_of d k\<close>.
\<close>

type_synonym ('k, 'v) dict = "('k \<times> 'v) list"

definition dict_keys :: "('k, 'v) dict \<Rightarrow> 'k list" where
  "dict_keys d = map fst d"

definition dict_vals :: "('k, 'v) dict \<Rightarrow> 'v list" where
  "dict_vals d = map snd d"

definition dict_get :: "('k, 'v) dict \<Rightarrow> 'k \<Rightarrow> 'v \<Rightarrow> 'v" where
  "dict_get d k v0 = (case map_of d k of None \<Rightarrow> v0 | Some v \<Rightarrow> v)"

definition dict_has :: "('k, 'v) dict \<Rightarrow> 'k \<Rightarrow> bool" where
  "dict_has d k \<longleftrightarrow> k \<in> set (map fst d)"

definition dict_wf :: "('k, 'v) dict \<Rightarrow> bool" where
  "dict_wf d \<longleftrightarrow> distinct (map fst d)"

lemma dict_has_iff: "dict_has d k \<longleftrightarrow> map_of d k \<noteq> None"
  by (simp add: dict_has_def map_of_eq_None_iff)

lemma map_of_dict_update: "map_of (AList.update k v d) = (map_of d)(k \<mapsto> v)"
  by (rule update_conv')

lemma dict_wf_update: "dict_wf d \<Longrightarrow> dict_wf (AList.update k v d)"
  by (simp add: dict_wf_def distinct_update)

lemma dict_wf_delete: "dict_wf d \<Longrightarrow> dict_wf (AList.delete k d)"
  by (simp add: dict_wf_def distinct_delete)

lemma map_of_dict_delete: "map_of (AList.delete k d) = (map_of d)(k := None)"
  by (simp add: delete_conv')

lemma dict_wf_Nil [simp]: "dict_wf []"
  by (simp add: dict_wf_def)

section \<open>JSON values\<close>

datatype pyval =
    PNone
  | PBool bool
  | PInt int
  | PFloat rat
  | PStr string
  | PList "pyval list"
  | PDict "(string \<times> pyval) list"

type_synonym jobj = "(string, pyval) dict"

text \<open>\<open>bool(v)\<close>.\<close>

fun truthy :: "pyval \<Rightarrow> bool" where
  "truthy PNone = False"
| "truthy (PBool b) = b"
| "truthy (PInt i) = (i \<noteq> 0)"
| "truthy (PFloat q) = (q \<noteq> 0)"
| "truthy (PStr s) = (s \<noteq> [])"
| "truthy (PList xs) = (xs \<noteq> [])"
| "truthy (PDict d) = (d \<noteq> [])"

text \<open>\<open>d.get(k)\<close> and \<open>d.get(k, default)\<close> on an object.\<close>

definition jget :: "jobj \<Rightarrow> string \<Rightarrow> pyval" where
  "jget d k = dict_get d k PNone"

definition jget_or :: "jobj \<Rightarrow> string \<Rightarrow> pyval \<Rightarrow> pyval" where
  "jget_or d k v = dict_get d k v"

text \<open>\<open>d[k]\<close>.\<close>

definition jitem :: "jobj \<Rightarrow> string \<Rightarrow> pyval res" where
  "jitem d k = (case map_of d k of None \<Rightarrow> Inl (KeyError k) | Some v \<Rightarrow> Inr v)"

text \<open>\<open>a == b\<close>: booleans are the integers 0 and 1, integers and floats compare by value,
  objects compare without regard to the order of their keys.\<close>

definition py_num :: "pyval \<Rightarrow> rat option" where
  "py_num v = (case v of PBool b \<Rightarrow> Some (if b then 1 else 0) | PInt i \<Rightarrow> Some (of_int i)
     | PFloat q \<Rightarrow> Some q | _ \<Rightarrow> None)"

fun py_eq :: "pyval \<Rightarrow> pyval \<Rightarrow> bool" and py_eqs :: "pyval list \<Rightarrow> pyval list \<Rightarrow> bool"
  and py_sub :: "(string \<times> pyval) list \<Rightarrow> (string \<times> pyval) list \<Rightarrow> bool" where
  "py_eq (PDict d) w =
     (case w of PDict e \<Rightarrow> length d = length e \<and> py_sub d e | _ \<Rightarrow> False)"
| "py_eq (PList xs) w = (case w of PList ys \<Rightarrow> py_eqs xs ys | _ \<Rightarrow> False)"
| "py_eq (PStr s) w = (w = PStr s)"
| "py_eq PNone w = (w = PNone)"
| "py_eq (PBool b) w = (py_num w = Some (if b then 1 else 0))"
| "py_eq (PInt i) w = (py_num w = Some (of_int i))"
| "py_eq (PFloat q) w = (py_num w = Some q)"
| "py_eqs [] ys = (ys = [])"
| "py_eqs (x # xs) ys = (case ys of [] \<Rightarrow> False | y # ys' \<Rightarrow> py_eq x y \<and> py_eqs xs ys')"
| "py_sub [] e = True"
| "py_sub ((k, v) # d) e =
     ((case map_of e k of None \<Rightarrow> False | Some w \<Rightarrow> py_eq v w) \<and> py_sub d e)"

lemma py_eq_Str [simp]: "py_eq v (PStr s) \<longleftrightarrow> v = PStr s"
  by (cases v) (auto simp: py_num_def)

lemma py_eq_None [simp]: "py_eq v PNone \<longleftrightarrow> v = PNone"
  by (cases v) (auto simp: py_num_def)

text \<open>\<open>{**d, **e}\<close>; iteration over a value; and \<open>v + w\<close> on numbers.\<close>

definition dict_merge :: "('k, 'v) dict \<Rightarrow> ('k, 'v) dict \<Rightarrow> ('k, 'v) dict" where
  "dict_merge d e = fold (\<lambda>(k, v). AList.update k v) e d"

definition py_iter :: "pyval \<Rightarrow> pyval list res" where
  "py_iter v =
     (case v of
        PList xs \<Rightarrow> Inr xs
      | PStr s \<Rightarrow> Inr (map (\<lambda>c. PStr [c]) s)
      | PDict d \<Rightarrow> Inr (map (\<lambda>(k, _). PStr k) d)
      | _ \<Rightarrow> Inl (TypeError ''object is not iterable''))"

definition as_int :: "pyval \<Rightarrow> int option" where
  "as_int v = (case v of PInt i \<Rightarrow> Some i | PBool b \<Rightarrow> Some (if b then 1 else 0) | _ \<Rightarrow> None)"

definition py_add :: "pyval \<Rightarrow> pyval \<Rightarrow> pyval res" where
  "py_add v w =
     (case (as_int v, as_int w) of
        (Some i, Some j) \<Rightarrow> Inr (PInt (i + j))
      | _ \<Rightarrow> (case (py_num v, py_num w) of
                 (Some p, Some q) \<Rightarrow> Inr (PFloat (p + q))
               | _ \<Rightarrow> Inl (TypeError ''unsupported operand type(s) for +'')))"

definition py_sum :: "pyval list \<Rightarrow> pyval res" where
  "py_sum vs = res_fold py_add (PInt 0) vs"

lemma map_of_dict_merge:
  "map_of (dict_merge d e) k = (case map_of (rev e) k of Some v \<Rightarrow> Some v | None \<Rightarrow> map_of d k)"
proof (induction e arbitrary: d)
  case (Cons p e)
  then show ?case
    by (cases p) (auto simp: dict_merge_def map_of_dict_update map_of_append map_add_def split: option.splits)
qed (simp add: dict_merge_def)

lemma dict_merge_absent: "k \<notin> fst ` set e \<Longrightarrow> map_of (dict_merge d e) k = map_of d k"
  by (simp add: map_of_dict_merge map_of_eq_None_iff [THEN iffD2])

lemma dict_wf_merge: "dict_wf d \<Longrightarrow> dict_wf (dict_merge d e)"
  unfolding dict_merge_def by (induction e arbitrary: d) (auto simp: dict_wf_update)

text \<open>\<open>isinstance\<close> tests; \<open>bool\<close> is a subclass of \<open>int\<close>.\<close>

fun is_str :: "pyval \<Rightarrow> bool" where "is_str (PStr _) = True" | "is_str _ = False"
fun is_list :: "pyval \<Rightarrow> bool" where "is_list (PList _) = True" | "is_list _ = False"
fun is_dict :: "pyval \<Rightarrow> bool" where "is_dict (PDict _) = True" | "is_dict _ = False"
fun is_bool :: "pyval \<Rightarrow> bool" where "is_bool (PBool _) = True" | "is_bool _ = False"
fun is_int :: "pyval \<Rightarrow> bool" where
  "is_int (PInt _) = True" | "is_int (PBool _) = True" | "is_int _ = False"
fun is_number :: "pyval \<Rightarrow> bool" where
  "is_number (PInt _) = True" | "is_number (PBool _) = True" | "is_number (PFloat _) = True"
| "is_number _ = False"

section \<open>Strings\<close>

definition ch_code :: "char \<Rightarrow> nat" where
  "ch_code c = of_char c"

definition py_isspace :: "char \<Rightarrow> bool" where
  "py_isspace c \<longleftrightarrow> (let n = ch_code c in (9 \<le> n \<and> n \<le> 13) \<or> (28 \<le> n \<and> n \<le> 32) \<or> n = 133 \<or> n = 160)"

definition ch_digit :: "char \<Rightarrow> bool" where
  "ch_digit c \<longleftrightarrow> (let n = ch_code c in 48 \<le> n \<and> n \<le> 57)"

definition ch_upper :: "char \<Rightarrow> bool" where
  "ch_upper c \<longleftrightarrow> (let n = ch_code c in 65 \<le> n \<and> n \<le> 90)"

definition ch_lower :: "char \<Rightarrow> bool" where
  "ch_lower c \<longleftrightarrow> (let n = ch_code c in 97 \<le> n \<and> n \<le> 122)"

definition ch_alpha :: "char \<Rightarrow> bool" where
  "ch_alpha c \<longleftrightarrow> ch_upper c \<or> ch_lower c"

definition ch_alnum :: "char \<Rightarrow> bool" where
  "ch_alnum c \<longleftrightarrow> ch_alpha c \<or> ch_digit c"

definition lower_ch :: "char \<Rightarrow> char" where
  "lower_ch c = (if ch_upper c then char_of (ch_code c + 32) else c)"

definition upper_ch :: "char \<Rightarrow> char" where
  "upper_ch c = (if ch_lower c then char_of (ch_code c - 32) else c)"

definition str_lower :: "string \<Rightarrow> string" where "str_lower s = map lower_ch s"
definition str_upper :: "string \<Rightarrow> string" where "str_upper s = map upper_ch s"

definition lstrip_by :: "(char \<Rightarrow> bool) \<Rightarrow> string \<Rightarrow> string" where
  "lstrip_by p s = dropWhile p s"

definition rstrip_by :: "(char \<Rightarrow> bool) \<Rightarrow> string \<Rightarrow> string" where
  "rstrip_by p s = rev (dropWhile p (rev s))"

definition strip_by :: "(char \<Rightarrow> bool) \<Rightarrow> string \<Rightarrow> string" where
  "strip_by p s = rstrip_by p (lstrip_by p s)"

definition str_strip :: "string \<Rightarrow> string" where "str_strip s = strip_by py_isspace s"
definition str_rstrip :: "string \<Rightarrow> string" where "str_rstrip s = rstrip_by py_isspace s"

definition starts_with :: "string \<Rightarrow> string \<Rightarrow> bool" where
  "starts_with p s \<longleftrightarrow> take (length p) s = p"

definition ends_with :: "string \<Rightarrow> string \<Rightarrow> bool" where
  "ends_with p s \<longleftrightarrow> length p \<le> length s \<and> drop (length s - length p) s = p"

text \<open>\<open>sub in s\<close>.\<close>

fun str_contains :: "string \<Rightarrow> string \<Rightarrow> bool" where
  "str_contains p [] = (p = [])"
| "str_contains p (c # s) = (starts_with p (c # s) \<or> str_contains p s)"

text \<open>\<open>s.find(p)\<close> and \<open>s.rfind(p)\<close>, \<open>None\<close> for -1.\<close>

fun str_find :: "string \<Rightarrow> string \<Rightarrow> nat option" where
  "str_find p [] = (if p = [] then Some 0 else None)"
| "str_find p (c # s) =
     (if starts_with p (c # s) then Some 0 else map_option Suc (str_find p s))"

fun str_rfind :: "string \<Rightarrow> string \<Rightarrow> nat option" where
  "str_rfind p [] = (if p = [] then Some 0 else None)"
| "str_rfind p (c # s) =
     (case str_rfind p s of
        Some i \<Rightarrow> Some (Suc i)
      | None \<Rightarrow> if starts_with p (c # s) then Some 0 else None)"

text \<open>\<open>s.split(c)\<close> for a one-character separator: at least one piece.\<close>

fun split_on :: "char \<Rightarrow> string \<Rightarrow> string list" where
  "split_on d [] = [[]]"
| "split_on d (c # s) =
     (if c = d then [] # split_on d s
      else case split_on d s of [] \<Rightarrow> [[c]] | w # ws \<Rightarrow> (c # w) # ws)"

text \<open>\<open>s.split()\<close>: the maximal runs of non-space characters.\<close>

fun words_acc :: "string \<Rightarrow> string \<Rightarrow> string list" where
  "words_acc w [] = (if w = [] then [] else [rev w])"
| "words_acc w (c # s) =
     (if py_isspace c then (if w = [] then words_acc [] s else rev w # words_acc [] s)
      else words_acc (c # w) s)"

definition str_words :: "string \<Rightarrow> string list" where
  "str_words s = words_acc [] s"

definition newline :: char where "newline = CHR 0x0A"

text \<open>\<open>s.splitlines()\<close>: line boundaries are LF, CR, CRLF, VT, FF, the ASCII separators and NEL;
  no empty last line.\<close>

definition line_end :: "char \<Rightarrow> bool" where
  "line_end c \<longleftrightarrow> (let n = ch_code c in (10 \<le> n \<and> n \<le> 13) \<or> (28 \<le> n \<and> n \<le> 30) \<or> n = 133)"

fun lines_acc :: "string \<Rightarrow> string \<Rightarrow> string list" where
  "lines_acc w [] = (if w = [] then [] else [rev w])"
| "lines_acc w (c # s) =
     (if c = CHR 0x0D
      then (case s of
              [] \<Rightarrow> [rev w]
            | c' # s' \<Rightarrow> if c' = CHR 0x0A then rev w # lines_acc [] s'
                        else rev w # lines_acc [] (c' # s'))
      else if line_end c then rev w # lines_acc [] s
      else lines_acc (c # w) s)"

definition splitlines :: "string \<Rightarrow> string list" where
  "splitlines s = lines_acc [] s"

definition str_replace_ch :: "char \<Rightarrow> string \<Rightarrow> string \<Rightarrow> string" where
  "str_replace_ch c r s = concat (map (\<lambda>x. if x = c then r else [x]) s)"

fun str_join :: "string \<Rightarrow> string list \<Rightarrow> string" where
  "str_join sep [] = []"
| "str_join sep [x] = x"
| "str_join sep (x # y # xs) = x @ sep @ str_join sep (y # xs)"

section \<open>Integers and text\<close>

definition digit_char :: "nat \<Rightarrow> char" where
  "digit_char d = char_of (48 + d)"

definition digit_val :: "char \<Rightarrow> nat" where
  "digit_val c = ch_code c - 48"

fun show_nat :: "nat \<Rightarrow> string" where
  "show_nat n = (if n < 10 then [digit_char n] else show_nat (n div 10) @ [digit_char (n mod 10)])"

declare show_nat.simps [simp del]

lemma digit_char_facts:
  assumes "d < 10"
  shows "ch_digit (digit_char d)" and "digit_val (digit_char d) = d"
  using assms by (simp_all add: ch_digit_def digit_char_def digit_val_def ch_code_def Let_def)

lemma show_nat_digits: "list_all ch_digit (show_nat n) \<and> show_nat n \<noteq> []"
proof (induction n rule: show_nat.induct)
  case (1 n)
  then show ?case
    by (cases "n < 10") (simp_all add: show_nat.simps [of n] digit_char_facts)
qed

definition show_int :: "int \<Rightarrow> string" where
  "show_int i = (if i < 0 then CHR ''-'' # show_nat (nat (- i)) else show_nat (nat i))"

text \<open>The value of a string of digits, most significant first.\<close>

definition digits_val :: "string \<Rightarrow> nat" where
  "digits_val s = foldl (\<lambda>n c. 10 * n + digit_val c) 0 s"

definition all_digits :: "string \<Rightarrow> bool" where
  "all_digits s \<longleftrightarrow> s \<noteq> [] \<and> list_all ch_digit s"

lemma digits_val_snoc: "digits_val (s @ [c]) = 10 * digits_val s + digit_val c"
  by (simp add: digits_val_def)

lemma digits_val_show_nat [simp]: "digits_val (show_nat n) = n"
proof (induction n rule: show_nat.induct)
  case (1 n)
  show ?case
  proof (cases "n < 10")
    case True
    then show ?thesis
      by (simp add: show_nat.simps [of n] digits_val_def digit_char_facts)
  next
    case False
    then show ?thesis
      using 1 by (simp add: show_nat.simps [of n] digits_val_snoc digit_char_facts)
  qed
qed

lemma all_digits_show_nat [simp]: "all_digits (show_nat n)"
  by (simp add: all_digits_def show_nat_digits)

lemma show_nat_hd: "10 \<le> n \<Longrightarrow> hd (show_nat n) \<noteq> CHR ''0''"
proof (induction n rule: show_nat.induct)
  case (1 n)
  have eq: "show_nat n = show_nat (n div 10) @ [digit_char (n mod 10)]"
    using "1.prems" by (simp add: show_nat.simps [of n])
  have ne: "show_nat (n div 10) \<noteq> []" using show_nat_digits by blast
  show ?case
  proof (cases "n div 10 < 10")
    case True
    have pos: "0 < n div 10" using "1.prems" by simp
    have z: "digit_val (CHR ''0'') = 0" by (simp add: digit_val_def ch_code_def)
    have "digit_char (n div 10) \<noteq> CHR ''0''"
    proof
      assume "digit_char (n div 10) = CHR ''0''"
      then have "n div 10 = 0" using digit_char_facts(2) [OF True] z by simp
      with pos show False by simp
    qed
    with eq True show ?thesis by (simp add: show_nat.simps [of "n div 10"])
  next
    case False
    then have "hd (show_nat (n div 10)) \<noteq> CHR ''0''" using "1.prems" "1.IH" by fastforce
    with eq ne show ?thesis by (simp add: hd_append)
  qed
qed

text \<open>\<open>int(s)\<close>: surrounding space, one sign, digits with single underscores between them.\<close>

definition int_body :: "string \<Rightarrow> nat option" where
  "int_body s =
     (if list_all all_digits (split_on (CHR ''_'') s)
      then Some (digits_val (concat (split_on (CHR ''_'') s))) else None)"

definition parse_int :: "string \<Rightarrow> int option" where
  "parse_int s =
     (case str_strip s of
        [] \<Rightarrow> None
      | c # r \<Rightarrow>
          if c = CHR ''-'' then map_option (\<lambda>n. - int n) (int_body r)
          else if c = CHR ''+'' then map_option int (int_body r)
          else map_option int (int_body (c # r)))"

text \<open>\<open>int(v)\<close> on a JSON value.\<close>

definition py_int :: "pyval \<Rightarrow> int res" where
  "py_int v =
     (case v of
        PInt i \<Rightarrow> Inr i
      | PBool b \<Rightarrow> Inr (if b then 1 else 0)
      | PFloat q \<Rightarrow> Inr (if 0 \<le> q then \<lfloor>q\<rfloor> else \<lceil>q\<rceil>)
      | PStr s \<Rightarrow> (case parse_int s of None \<Rightarrow> Inl (ValueError ''invalid literal for int()'')
                   | Some i \<Rightarrow> Inr i)
      | _ \<Rightarrow> Inl (TypeError ''int() argument''))"

section \<open>Rounding\<close>

text \<open>\<open>round(x, n)\<close> on an exact rational: to the nearest multiple of \<open>10\<^sup>-\<^sup>n\<close>, ties to even.\<close>

definition round_half_even :: "rat \<Rightarrow> int" where
  "round_half_even x =
     (let f = \<lfloor>x\<rfloor>; d = x - of_int f in
      if d < 1 / 2 then f else if 1 / 2 < d then f + 1 else if even f then f else f + 1)"

definition py_round :: "nat \<Rightarrow> rat \<Rightarrow> rat" where
  "py_round n x = of_int (round_half_even (x * 10 ^ n)) / 10 ^ n"

lemma round_half_even_mono:
  assumes "x \<le> y"
  shows "round_half_even x \<le> round_half_even y"
proof -
  have fl: "\<lfloor>x\<rfloor> \<le> \<lfloor>y\<rfloor>" using assms by (rule floor_mono)
  have up: "round_half_even z \<le> \<lfloor>z\<rfloor> + 1" "\<lfloor>z\<rfloor> \<le> round_half_even z" for z
    by (auto simp: round_half_even_def Let_def)
  show ?thesis
  proof (cases "\<lfloor>x\<rfloor> = \<lfloor>y\<rfloor>")
    case True
    then show ?thesis using assms by (simp add: round_half_even_def Let_def)
  next
    case False
    then have "\<lfloor>x\<rfloor> + 1 \<le> \<lfloor>y\<rfloor>" using fl by simp
    then show ?thesis using up(1) [of x] up(2) [of y] by linarith
  qed
qed

lemma round_half_even_of_int [simp]: "round_half_even (of_int i) = i"
  by (simp add: round_half_even_def)

lemma py_round_mono: "x \<le> y \<Longrightarrow> py_round n x \<le> py_round n y"
  by (simp add: py_round_def divide_right_mono round_half_even_mono)

lemma py_round_of_int [simp]: "py_round n (of_int i) = of_int i"
proof -
  have "(of_int i * 10 ^ n :: rat) = of_int (i * 10 ^ n)" by simp
  then have "round_half_even (of_int i * 10 ^ n) = i * 10 ^ n" by (simp only: round_half_even_of_int)
  then show ?thesis by (simp add: py_round_def)
qed

lemma py_round_bounds: "of_int a \<le> x \<Longrightarrow> x \<le> of_int b \<Longrightarrow> of_int a \<le> py_round n x \<and> py_round n x \<le> of_int b"
  using py_round_mono [of "of_int a" x n] py_round_mono [of x "of_int b" n] by simp

text \<open>\<open>round(v, n)\<close> on a JSON number: an integer stays as it is.\<close>

definition py_round_val :: "nat \<Rightarrow> pyval \<Rightarrow> pyval res" where
  "py_round_val n v =
     (case v of
        PInt i \<Rightarrow> Inr (PInt i)
      | PBool b \<Rightarrow> Inr (PInt (if b then 1 else 0))
      | PFloat q \<Rightarrow> Inr (PFloat (py_round n q))
      | _ \<Rightarrow> Inl (TypeError ''type does not define __round__ method''))"

text \<open>\<open>v or d\<close>.\<close>

definition py_or :: "pyval \<Rightarrow> pyval \<Rightarrow> pyval" where
  "py_or v w = (if truthy v then v else w)"

text \<open>\<open>f"{s:>n}"\<close>.\<close>

definition rjust :: "nat \<Rightarrow> string \<Rightarrow> string" where
  "rjust n s = replicate (n - length s) (CHR '' '') @ s"

end
