(* ===== verification/Py_Regex.thy ===== *)
theory Py_Regex
  imports Py_Prelude
begin

text \<open>
  Python's \<open>re\<close> as the modelled code uses it: a backtracking matcher. A state is the consumed
  text (reversed), the rest, and the captured groups, the latest first; \<open>rx_run r s\<close> lists
  every way \<open>r\<close> can match at \<open>s\<close> in the order in which the backtracking engine tries them, so
  the first element is the match that Python reports. A repetition stops when an iteration
  consumes nothing, so the length of the rest bounds its number of iterations.
\<close>

section \<open>Patterns and matching\<close>

datatype rx =
    Eps
  | Cls "char \<Rightarrow> bool"
  | Cat rx rx
  | Alt rx rx
  | Star rx
  | LazyStar rx
  | Grp nat rx
  | Bos
  | Bol
  | Eol
  | Eos
  | WordB
  | NotAhead rx

type_synonym rstate = "string \<times> string \<times> (nat \<times> string) list"

definition word_ch :: "char \<Rightarrow> bool" where
  "word_ch c \<longleftrightarrow> ch_alnum c \<or> c = CHR ''_''"

definition at_word :: "string \<Rightarrow> bool" where
  "at_word s \<longleftrightarrow> (case s of [] \<Rightarrow> False | c # _ \<Rightarrow> word_ch c)"

definition at_bol :: "string \<Rightarrow> bool" where
  "at_bol pre \<longleftrightarrow> (case pre of [] \<Rightarrow> True | c # _ \<Rightarrow> c = newline)"

definition rx_rest :: "rstate \<Rightarrow> string" where
  "rx_rest s = fst (snd s)"

primrec star_run :: "nat \<Rightarrow> (rstate \<Rightarrow> rstate list) \<Rightarrow> rstate \<Rightarrow> rstate list" where
  "star_run 0 f s = [s]"
| "star_run (Suc n) f s =
     concat (map (\<lambda>t. if length (rx_rest t) < length (rx_rest s) then star_run n f t else [])
       (f s)) @ [s]"

primrec lazy_run :: "nat \<Rightarrow> (rstate \<Rightarrow> rstate list) \<Rightarrow> rstate \<Rightarrow> rstate list" where
  "lazy_run 0 f s = [s]"
| "lazy_run (Suc n) f s =
     s # concat (map (\<lambda>t. if length (rx_rest t) < length (rx_rest s) then lazy_run n f t else [])
       (f s))"

fun cls_step :: "(char \<Rightarrow> bool) \<Rightarrow> rstate \<Rightarrow> rstate list" where
  "cls_step p (pre, [], caps) = []"
| "cls_step p (pre, c # cs, caps) = (if p c then [(c # pre, cs, caps)] else [])"

primrec rx_run :: "rx \<Rightarrow> rstate \<Rightarrow> rstate list" where
  "rx_run Eps s = [s]"
| "rx_run (Cls p) s = cls_step p s"
| "rx_run (Cat a b) s = concat (map (rx_run b) (rx_run a s))"
| "rx_run (Alt a b) s = rx_run a s @ rx_run b s"
| "rx_run (Star r) s = star_run (length (rx_rest s)) (rx_run r) s"
| "rx_run (LazyStar r) s = lazy_run (length (rx_rest s)) (rx_run r) s"
| "rx_run (Grp n r) s =
     (case s of (pre, post, caps) \<Rightarrow>
        map (\<lambda>(pre', post', caps').
               (pre', post', (n, rev (take (length pre' - length pre) pre')) # caps'))
          (rx_run r s))"
| "rx_run Bos s = (if fst s = [] then [s] else [])"
| "rx_run Bol s = (if at_bol (fst s) then [s] else [])"
| "rx_run Eol s = (if rx_rest s = [] \<or> hd (rx_rest s) = newline then [s] else [])"
| "rx_run Eos s = (if rx_rest s = [] \<or> rx_rest s = [newline] then [s] else [])"
| "rx_run WordB s = (if at_word (fst s) \<noteq> at_word (rx_rest s) then [s] else [])"
| "rx_run (NotAhead r) s = (if rx_run r s = [] then [s] else [])"

section \<open>Abbreviated patterns\<close>

definition rx_chr :: "char \<Rightarrow> rx" where "rx_chr c = Cls (\<lambda>x. x = c)"
definition rx_chr_i :: "char \<Rightarrow> rx" where "rx_chr_i c = Cls (\<lambda>x. lower_ch x = lower_ch c)"
definition rx_any :: rx where "rx_any = Cls (\<lambda>c. c \<noteq> newline)"
definition rx_space :: rx where "rx_space = Cls py_isspace"
definition rx_digit :: rx where "rx_digit = Cls ch_digit"
definition rx_word :: rx where "rx_word = Cls word_ch"
definition rx_one_of :: "string \<Rightarrow> rx" where "rx_one_of cs = Cls (\<lambda>c. c \<in> set cs)"
definition rx_none_of :: "string \<Rightarrow> rx" where "rx_none_of cs = Cls (\<lambda>c. c \<notin> set cs)"

primrec rx_lit :: "string \<Rightarrow> rx" where
  "rx_lit [] = Eps"
| "rx_lit (c # s) = Cat (rx_chr c) (rx_lit s)"

primrec rx_lit_i :: "string \<Rightarrow> rx" where
  "rx_lit_i [] = Eps"
| "rx_lit_i (c # s) = Cat (rx_chr_i c) (rx_lit_i s)"

primrec rx_seq :: "rx list \<Rightarrow> rx" where
  "rx_seq [] = Eps"
| "rx_seq (r # rs) = Cat r (rx_seq rs)"

fun rx_alts :: "rx list \<Rightarrow> rx" where
  "rx_alts [] = Cls (\<lambda>_. False)"
| "rx_alts [r] = r"
| "rx_alts (r # s # rs) = Alt r (rx_alts (s # rs))"

definition rx_plus :: "rx \<Rightarrow> rx" where "rx_plus r = Cat r (Star r)"
definition rx_lazy_plus :: "rx \<Rightarrow> rx" where "rx_lazy_plus r = Cat r (LazyStar r)"
definition rx_opt :: "rx \<Rightarrow> rx" where "rx_opt r = Alt r Eps"

section \<open>The functions of the module\<close>

record rmatch =
  m_start :: nat
  m_text :: string
  m_before :: string
  m_after :: string
  m_caps :: "(nat \<times> string) list"

definition mk_match :: "string \<Rightarrow> rstate \<Rightarrow> rmatch" where
  "mk_match pre t =
     (case t of (pre', post', caps) \<Rightarrow>
        \<lparr>m_start = length pre, m_text = rev (take (length pre' - length pre) pre'),
         m_before = rev pre, m_after = post', m_caps = caps\<rparr>)"

definition m_group :: "rmatch \<Rightarrow> nat \<Rightarrow> string" where
  "m_group m n = (case map_of (m_caps m) n of None \<Rightarrow> [] | Some s \<Rightarrow> s)"

definition re_match :: "rx \<Rightarrow> string \<Rightarrow> rmatch option" where
  "re_match r s =
     (case rx_run r ([], s, []) of [] \<Rightarrow> None | t # _ \<Rightarrow> Some (mk_match [] t))"

definition re_fullmatch :: "rx \<Rightarrow> string \<Rightarrow> bool" where
  "re_fullmatch r s = list_ex (\<lambda>t. rx_rest t = []) (rx_run r ([], s, []))"

fun search_from :: "rx \<Rightarrow> string \<Rightarrow> string \<Rightarrow> rmatch option" where
  "search_from r pre [] =
     (case rx_run r (pre, [], []) of [] \<Rightarrow> None | t # _ \<Rightarrow> Some (mk_match pre t))"
| "search_from r pre (c # cs) =
     (case rx_run r (pre, c # cs, []) of
        [] \<Rightarrow> search_from r (c # pre) cs
      | t # _ \<Rightarrow> Some (mk_match pre t))"

definition re_search :: "rx \<Rightarrow> string \<Rightarrow> rmatch option" where
  "re_search r s = search_from r [] s"

text \<open>\<open>finditer\<close>: after a match the scan goes on at its end. The patterns of the modelled code
  never match the empty string; after an empty match the scan moves on by one character.\<close>

primrec find_from :: "nat \<Rightarrow> rx \<Rightarrow> string \<Rightarrow> string \<Rightarrow> rmatch list" where
  "find_from 0 r pre post = []"
| "find_from (Suc n) r pre post =
     (case rx_run r (pre, post, []) of
        [] \<Rightarrow> (case post of [] \<Rightarrow> [] | c # cs \<Rightarrow> find_from n r (c # pre) cs)
      | t # _ \<Rightarrow>
          mk_match pre t #
          (if length (rx_rest t) < length post then find_from n r (fst t) (rx_rest t)
           else (case post of [] \<Rightarrow> [] | c # cs \<Rightarrow> find_from n r (c # pre) cs)))"

definition re_finditer :: "rx \<Rightarrow> string \<Rightarrow> rmatch list" where
  "re_finditer r s = find_from (Suc (length s)) r [] s"

definition re_findall :: "rx \<Rightarrow> string \<Rightarrow> string list" where
  "re_findall r s = map m_text (re_finditer r s)"

text \<open>\<open>re.sub\<close> with a constant replacement, and \<open>re.split\<close> without groups.\<close>

primrec pieces_from :: "string \<Rightarrow> nat \<Rightarrow> rmatch list \<Rightarrow> string list" where
  "pieces_from s k [] = [drop k s]"
| "pieces_from s k (m # ms) =
     take (m_start m - k) (drop k s) # pieces_from s (m_start m + length (m_text m)) ms"

definition re_split :: "rx \<Rightarrow> string \<Rightarrow> string list" where
  "re_split r s = pieces_from s 0 (re_finditer r s)"

definition re_sub :: "rx \<Rightarrow> string \<Rightarrow> string \<Rightarrow> string" where
  "re_sub r repl s = str_join repl (re_split r s)"

section \<open>Facts about matching\<close>

text \<open>A match never changes the text: it only moves characters from the rest to the front.\<close>

definition rx_whole :: "rstate \<Rightarrow> string" where
  "rx_whole s = rev (fst s) @ rx_rest s"

lemma star_run_whole:
  assumes "\<And>s t. t \<in> set (f s) \<Longrightarrow> rx_whole t = rx_whole s"
  shows "t \<in> set (star_run n f s) \<Longrightarrow> rx_whole t = rx_whole s"
  by (induction n arbitrary: s) (auto split: if_splits dest: assms)

lemma lazy_run_whole:
  assumes "\<And>s t. t \<in> set (f s) \<Longrightarrow> rx_whole t = rx_whole s"
  shows "t \<in> set (lazy_run n f s) \<Longrightarrow> rx_whole t = rx_whole s"
  by (induction n arbitrary: s) (auto split: if_splits dest: assms)

lemma rx_run_whole: "t \<in> set (rx_run r s) \<Longrightarrow> rx_whole t = rx_whole s"
proof (induction r arbitrary: s t)
  case (Cls p)
  then show ?case by (cases "(p, s)" rule: cls_step.cases) (auto simp: rx_whole_def rx_rest_def split: if_splits)
next
  case (Star r)
  have "t \<in> set (star_run (length (rx_rest s)) (rx_run r) s)" using Star.prems by simp
  then show ?case by (rule star_run_whole [rotated]) (rule Star.IH)
next
  case (LazyStar r)
  have "t \<in> set (lazy_run (length (rx_rest s)) (rx_run r) s)" using LazyStar.prems by simp
  then show ?case by (rule lazy_run_whole [rotated]) (rule LazyStar.IH)
next
  case (Cat a b)
  from Cat.prems obtain u where "u \<in> set (rx_run a s)" and "t \<in> set (rx_run b u)"
    by auto
  then show ?case using Cat.IH(1) [of u s] Cat.IH(2) [of t u] by simp
next
  case (Grp n r)
  from Grp.prems obtain u where "u \<in> set (rx_run r s)" and "fst t = fst u" and "rx_rest t = rx_rest u"
    by (cases s) (auto simp: rx_rest_def)
  then show ?case using Grp.IH [of u s] by (simp add: rx_whole_def)
qed (auto simp: rx_whole_def rx_rest_def split: list.splits if_splits prod.splits)

text \<open>Consuming a literal.\<close>

lemma rx_run_lit [simp]:
  "rx_run (rx_lit w) (pre, post, caps) =
     (if starts_with w post then [(rev w @ pre, drop (length w) post, caps)] else [])"
proof (induction w arbitrary: pre post)
  case Nil
  then show ?case by (simp add: starts_with_def)
next
  case (Cons c w)
  then show ?case by (cases post) (auto simp: starts_with_def rx_chr_def)
qed

text \<open>A greedy repetition of a class takes the longest run first and then gives back one
  character at a time; a lazy one starts with the empty run.\<close>

lemma star_run_cls_fst:
  assumes "length post \<le> n"
  shows "\<exists>rest. star_run n (cls_step p) (pre, post, caps) =
     (rev (takeWhile p post) @ pre, dropWhile p post, caps) # rest"
  using assms
proof (induction n arbitrary: pre post)
  case 0
  then show ?case by simp
next
  case (Suc n)
  show ?case
  proof (cases post)
    case Nil
    then show ?thesis by simp
  next
    case (Cons c cs)
    with Suc.prems obtain rest where
      "star_run n (cls_step p) (c # pre, cs, caps) =
         (rev (takeWhile p cs) @ c # pre, dropWhile p cs, caps) # rest"
      using Suc.IH [of cs "c # pre"] by auto
    with Cons show ?thesis by (auto simp: rx_rest_def)
  qed
qed

section \<open>Substituting and splitting at character classes\<close>

text \<open>\<open>re.split\<close> at every maximal run, and at every single character, of a class.\<close>

function split_runs :: "(char \<Rightarrow> bool) \<Rightarrow> string \<Rightarrow> string list" where
  "split_runs p [] = [[]]"
| "split_runs p (c # cs) =
     (if p c then [] # split_runs p (dropWhile p cs)
      else (c # hd (split_runs p cs)) # tl (split_runs p cs))"
  by pat_completeness auto
termination
  by (relation "measure (\<lambda>(p, s). length s)") (auto simp: length_dropWhile_le less_Suc_eq_le)

fun split_each :: "(char \<Rightarrow> bool) \<Rightarrow> string \<Rightarrow> string list" where
  "split_each p [] = [[]]"
| "split_each p (c # cs) =
     (if p c then [] # split_each p cs
      else (c # hd (split_each p cs)) # tl (split_each p cs))"

lemma split_nonempty: "split_runs p s \<noteq> []" "split_each p s \<noteq> []"
  by (cases s; simp)+

lemma rx_run_Cls: "rx_run (Cls p) = cls_step p"
  by (rule ext) simp

lemma rx_plus_cls_fst:
  "p c \<Longrightarrow> \<exists>rest. rx_run (rx_plus (Cls p)) (pre, c # cs, caps) =
     (rev (takeWhile p cs) @ c # pre, dropWhile p cs, caps) # rest"
  using star_run_cls_fst [of cs "length cs" p "c # pre" caps]
  by (simp add: rx_plus_def rx_rest_def rx_run_Cls del: rx_run.simps(2))

lemma rx_run_plus_cls_none: "\<not> p c \<Longrightarrow> rx_run (rx_plus (Cls p)) (pre, c # cs, caps) = []"
  "rx_run (rx_plus (Cls p)) (pre, [], caps) = []"
  by (simp_all add: rx_plus_def)

lemma pieces_runs:
  assumes "length post < n"
  shows "pieces_from (rev pre0 @ w @ post) (length pre0) (find_from n (rx_plus (Cls p)) (rev w @ pre0) post)
     = (w @ hd (split_runs p post)) # tl (split_runs p post)"
  using assms
proof (induction n arbitrary: pre0 w post)
  case (Suc n)
  show ?case
  proof (cases post)
    case Nil
    then show ?thesis by (simp add: rx_run_plus_cls_none)
  next
    case (Cons c cs)
    show ?thesis
    proof (cases "p c")
      case False
      with Suc.IH [of cs pre0 "w @ [c]"] Suc.prems Cons show ?thesis
        by (simp add: rx_run_plus_cls_none)
    next
      case True
      define t where "t = rev (takeWhile p cs) @ c # rev w @ pre0"
      have len: "length (dropWhile p cs) < n"
        using Suc.prems Cons length_dropWhile_le [of p cs] by simp
      obtain rest where run: "rx_run (rx_plus (Cls p)) (rev w @ pre0, c # cs, []) = (t, dropWhile p cs, []) # rest"
        using rx_plus_cls_fst [of p c "rev w @ pre0" cs "[]"] True by (auto simp: t_def)
      have "pieces_from (rev t @ dropWhile p cs) (length t) (find_from n (rx_plus (Cls p)) t (dropWhile p cs))
          = split_runs p (dropWhile p cs)"
        using Suc.IH [of "dropWhile p cs" t "[]"] len split_nonempty(1) [of p "dropWhile p cs"] by simp
      moreover have "rev t @ dropWhile p cs = rev pre0 @ w @ c # cs" by (simp add: t_def)
      moreover have "length (dropWhile p cs) < Suc (length cs)" using length_dropWhile_le [of p cs] by simp
      moreover have "length w + (length pre0 + (length t - (length w + length pre0))) = length t"
        by (simp add: t_def)
      ultimately show ?thesis using Cons True run
        by (simp add: mk_match_def rx_rest_def add.assoc)
    qed
  qed
qed simp

lemma re_split_runs: "re_split (rx_plus (Cls p)) s = split_runs p s"
  using pieces_runs [of s "Suc (length s)" "[]" "[]" p] split_nonempty(1) [of p s]
  by (simp add: re_split_def re_finditer_def)

lemma pieces_each:
  assumes "length post < n"
  shows "pieces_from (rev pre0 @ w @ post) (length pre0) (find_from n (Cls p) (rev w @ pre0) post)
     = (w @ hd (split_each p post)) # tl (split_each p post)"
  using assms
proof (induction n arbitrary: pre0 w post)
  case (Suc n)
  show ?case
  proof (cases post)
    case (Cons c cs)
    show ?thesis
    proof (cases "p c")
      case False
      with Suc.IH [of cs pre0 "w @ [c]"] Suc.prems Cons show ?thesis by simp
    next
      case True
      have "pieces_from (rev pre0 @ w @ c # cs) (Suc (length w + length pre0))
              (find_from n (Cls p) (c # rev w @ pre0) cs) = split_each p cs"
        using Suc.IH [of cs "c # rev w @ pre0" "[]"] Suc.prems Cons split_nonempty(2) [of p cs] by simp
      then show ?thesis using Cons True by (simp add: mk_match_def rx_rest_def)
    qed
  qed simp
qed simp

lemma re_split_each: "re_split (Cls p) s = split_each p s"
  using pieces_each [of s "Suc (length s)" "[]" "[]" p] split_nonempty(2) [of p s]
  by (simp add: re_split_def re_finditer_def)

lemma str_join_hd: "ws \<noteq> [] \<Longrightarrow> str_join sep ((c # hd ws) # tl ws) = c # str_join sep ws"
  by (cases ws; cases "tl ws") auto

lemma re_sub_each_empty: "re_sub (Cls p) [] s = filter (\<lambda>c. \<not> p c) s"
proof -
  have "str_join [] (split_each p s) = filter (\<lambda>c. \<not> p c) s"
  proof (induction s)
    case (Cons c s)
    have "str_join [] ([] # split_each p s) = str_join [] (split_each p s)"
      using split_nonempty(2) [of p s] by (cases "split_each p s") auto
    with Cons show ?case using str_join_hd [OF split_nonempty(2) [of p s]] by simp
  qed simp
  then show ?thesis by (simp add: re_sub_def re_split_each)
qed

lemma str_join_set: "c \<in> set (str_join sep ws) \<Longrightarrow> c \<in> set sep \<or> (\<exists>w\<in>set ws. c \<in> set w)"
  by (induction sep ws rule: str_join.induct) auto

lemma split_runs_set: "w \<in> set (split_runs p s) \<Longrightarrow> c \<in> set w \<Longrightarrow> \<not> p c \<and> c \<in> set s"
proof (induction p s arbitrary: w rule: split_runs.induct)
  case (2 p d cs)
  show ?case
  proof (cases "p d")
    case True
    then show ?thesis using 2 by (auto dest: set_dropWhileD)
  next
    case False
    have "w = d # hd (split_runs p cs) \<or> w \<in> set (split_runs p cs)"
      using 2 False split_nonempty(1) [of p cs] by (auto dest: list.set_sel(2))
    moreover have "hd (split_runs p cs) \<in> set (split_runs p cs)"
      using split_nonempty(1) by (rule hd_in_set)
    ultimately have "c = d \<or> (\<exists>u\<in>set (split_runs p cs). c \<in> set u)" using 2 by auto
    then show ?thesis using "2.IH"(2) False by auto
  qed
qed simp

lemma re_sub_runs_set:
  "c \<in> set (re_sub (rx_plus (Cls p)) repl s) \<Longrightarrow> c \<in> set repl \<or> (\<not> p c \<and> c \<in> set s)"
  unfolding re_sub_def re_split_runs using str_join_set split_runs_set by blast

section \<open>The first match of composed patterns\<close>

definition rx_hd :: "rx \<Rightarrow> rstate \<Rightarrow> rstate \<Rightarrow> bool" where
  "rx_hd r s t \<longleftrightarrow> (\<exists>rest. rx_run r s = t # rest)"

lemma rx_hd_Cat: "rx_hd a s t \<Longrightarrow> rx_hd b t u \<Longrightarrow> rx_hd (Cat a b) s u"
  by (auto simp: rx_hd_def)

lemma rx_hd_Eps: "rx_hd Eps s s"
  by (simp add: rx_hd_def)

lemma rx_hd_lit: "rx_hd (rx_lit w) (pre, w @ post, caps) (rev w @ pre, post, caps)"
  by (simp add: rx_hd_def starts_with_def)

lemma rx_hd_Bol: "at_bol pre \<Longrightarrow> rx_hd Bol (pre, post, caps) (pre, post, caps)"
  by (simp add: rx_hd_def)

lemma rx_hd_star:
  "list_all p w \<Longrightarrow> post = [] \<or> \<not> p (hd post) \<Longrightarrow>
   rx_hd (Star (Cls p)) (pre, w @ post, caps) (rev w @ pre, post, caps)"
proof -
  assume "list_all p w" "post = [] \<or> \<not> p (hd post)"
  then have "takeWhile p (w @ post) = w" "dropWhile p (w @ post) = post"
    by (cases post; auto simp: list_all_iff takeWhile_append dropWhile_append)+
  then show ?thesis
    using star_run_cls_fst [of "w @ post" "length (w @ post)" p pre caps]
    by (simp add: rx_hd_def rx_rest_def rx_run_Cls del: rx_run.simps(2))
qed

lemma rx_hd_plus:
  "list_all p w \<Longrightarrow> w \<noteq> [] \<Longrightarrow> post = [] \<or> \<not> p (hd post) \<Longrightarrow>
   rx_hd (rx_plus (Cls p)) (pre, w @ post, caps) (rev w @ pre, post, caps)"
proof -
  assume w: "list_all p w" "w \<noteq> []" "post = [] \<or> \<not> p (hd post)"
  then obtain c v where cv: "w = c # v" by (cases w) auto
  have "rx_hd (Cls p) (pre, w @ post, caps) (c # pre, v @ post, caps)" using w cv by (simp add: rx_hd_def)
  moreover have "rx_hd (Star (Cls p)) (c # pre, v @ post, caps) (rev v @ c # pre, post, caps)"
    using w cv by (intro rx_hd_star) simp_all
  ultimately show ?thesis unfolding rx_plus_def using cv by (simp add: rx_hd_Cat)
qed

lemma rx_hd_Grp:
  "rx_hd r (pre, w @ post, caps) (rev w @ pre, post, caps) \<Longrightarrow>
   rx_hd (Grp n r) (pre, w @ post, caps) (rev w @ pre, post, (n, w) # caps)"
  by (auto simp: rx_hd_def)

lemma rx_hd_Alt1: "rx_hd a s t \<Longrightarrow> rx_hd (Alt a b) s t"
  by (auto simp: rx_hd_def)

lemma rx_hd_Alt2: "rx_run a s = [] \<Longrightarrow> rx_hd b s t \<Longrightarrow> rx_hd (Alt a b) s t"
  by (auto simp: rx_hd_def)

lemma rx_none_Cat: "rx_run a s = [] \<Longrightarrow> rx_run (Cat a b) s = []"
  by simp

lemma rx_none_lit: "\<not> starts_with w post \<Longrightarrow> rx_run (rx_lit w) (pre, post, caps) = []"
  by simp

text \<open>Every result of a greedy class repetition takes a prefix of the run.\<close>

lemma star_run_cls_all:
  "t \<in> set (star_run n (cls_step p) (pre, post, caps)) \<Longrightarrow>
   \<exists>k\<le>length (takeWhile p post). t = (rev (take k post) @ pre, drop k post, caps)"
proof (induction n arbitrary: pre post)
  case (Suc n)
  show ?case
  proof (cases "t = (pre, post, caps)")
    case False
    then obtain c cs where c: "post = c # cs" "p c" and t: "t \<in> set (star_run n (cls_step p) (c # pre, cs, caps))"
      using Suc.prems by (cases post) (auto split: if_splits)
    from Suc.IH [OF t] obtain k where "k \<le> length (takeWhile p cs)"
      "t = (rev (take k cs) @ c # pre, drop k cs, caps)" by blast
    then show ?thesis using c by (intro exI [of _ "Suc k"]) simp
  qed (intro exI [of _ 0], simp)
qed (intro exI [of _ 0], simp)

text \<open>\<open>(.+?)[ \t]*$\<close> on a line that does not end in a blank takes the whole line.\<close>

definition blank_ch :: "char \<Rightarrow> bool" where
  "blank_ch c \<longleftrightarrow> c = CHR 0x20 \<or> c = CHR 0x09"

definition tail_rx :: rx where
  "tail_rx = Cat (Star (Cls blank_ch)) Eol"

lemma tail_none:
  assumes "w \<noteq> []" and "\<not> blank_ch (last w)" and "newline \<notin> set w"
  shows "rx_run tail_rx (pre, w @ newline # rest, caps) = []"
proof -
  have "\<not> (rx_rest t = [] \<or> hd (rx_rest t) = newline)"
    if "t \<in> set (star_run (length (w @ newline # rest)) (cls_step blank_ch) (pre, w @ newline # rest, caps))" for t
  proof -
    let ?post = "w @ newline # rest"
    from star_run_cls_all [OF that] obtain k where k: "k \<le> length (takeWhile blank_ch ?post)"
      and t: "t = (rev (take k ?post) @ pre, drop k ?post, caps)" by blast
    have "length (takeWhile blank_ch ?post) < length w"
    proof (rule ccontr)
      assume "\<not> ?thesis"
      then have i: "length w - 1 < length (takeWhile blank_ch ?post)" using assms(1) by (cases w) auto
      have "?post ! (length w - 1) = last w" using assms(1) by (simp add: nth_append last_conv_nth)
      then show False using assms(2) takeWhile_nth [OF i] nth_mem [OF i] by (auto dest: set_takeWhileD)
    qed
    then have "k < length w" using k by simp
    then have "drop k ?post = w ! k # drop (Suc k) w @ newline # rest" by (simp add: Cons_nth_drop_Suc)
    moreover have "w ! k \<noteq> newline" using \<open>k < length w\<close> assms(3) nth_mem by metis
    ultimately show ?thesis using t by (simp add: rx_rest_def)
  qed
  then show ?thesis
    by (simp add: tail_rx_def rx_rest_def rx_run_Cls del: rx_run.simps(2)) (metis rx_rest_def fst_conv snd_conv)
qed

lemma tail_hd: "rx_hd tail_rx (pre, newline # rest, caps) (pre, newline # rest, caps)"
proof -
  have "rx_hd (Star (Cls blank_ch)) (pre, [] @ newline # rest, caps) (rev [] @ pre, newline # rest, caps)"
    by (rule rx_hd_star) (simp_all add: blank_ch_def newline_def)
  moreover have "rx_hd Eol (pre, newline # rest, caps) (pre, newline # rest, caps)"
    by (simp add: rx_hd_def rx_rest_def)
  ultimately show ?thesis unfolding tail_rx_def by (simp add: rx_hd_Cat)
qed

definition any_ch :: "char \<Rightarrow> bool" where
  "any_ch c \<longleftrightarrow> c \<noteq> newline"

text \<open>A lazy repetition followed by \<open>b\<close> takes the shortest run after which \<open>b\<close> matches.\<close>

lemma lazy_until:
  assumes "newline \<notin> set w" and "length w \<le> n"
    and "\<And>v u. w = v @ u \<Longrightarrow> u \<noteq> [] \<Longrightarrow> g (rev v @ pre, u @ newline # rest, caps) = []"
    and "g (rev w @ pre, newline # rest, caps) = x # xs"
  shows "\<exists>ys. concat (map g (lazy_run n (cls_step any_ch) (pre, w @ newline # rest, caps))) = x # ys"
  using assms
proof (induction w arbitrary: n pre)
  case Nil
  then show ?case by (cases n) auto
next
  case (Cons c w)
  then obtain m where m: "n = Suc m" by (cases n) auto
  have c: "any_ch c" using Cons.prems(1) by (auto simp: any_ch_def)
  have "g (pre, c # w @ newline # rest, caps) = []" using Cons.prems(3) [of "[]" "c # w"] by simp
  moreover have "\<exists>ys. concat (map g (lazy_run m (cls_step any_ch) (c # pre, w @ newline # rest, caps))) = x # ys"
  proof (rule Cons.IH)
    show "g (rev v @ c # pre, u @ newline # rest, caps) = []" if "w = v @ u" "u \<noteq> []" for v u
      using Cons.prems(3) [of "c # v" u] that by simp
  qed (use Cons.prems m in simp_all)
  ultimately show ?case using m c by (simp add: rx_rest_def)
qed

lemma rx_hd_lazy_line:
  assumes "w \<noteq> []" and "newline \<notin> set w" and "\<not> blank_ch (last w)"
  shows "rx_hd (Cat (Grp n (rx_lazy_plus (Cls any_ch))) tail_rx) (pre, w @ newline # rest, caps)
     (rev w @ pre, newline # rest, (n, w) # caps)"
proof -
  obtain c v where w: "w = c # v" using assms(1) by (cases w) auto
  define h where "h = (\<lambda>(pre' :: string, post' :: string, caps' :: (nat \<times> string) list).
      (pre', post', (n, rev (take (length pre' - length pre) pre')) # caps'))"
  define g where "g s = rx_run tail_rx (h s)" for s
  have run: "rx_run (Cat (Grp n (rx_lazy_plus (Cls any_ch))) tail_rx) (pre, w @ newline # rest, caps)
      = concat (map g (lazy_run (length (v @ newline # rest)) (cls_step any_ch) (c # pre, v @ newline # rest, caps)))"
  proof -
    have "any_ch c" using assms(2) w by (auto simp: any_ch_def)
    then show ?thesis using w
      by (simp add: rx_lazy_plus_def g_def [abs_def] h_def o_def rx_rest_def rx_run_Cls case_prod_beta'
          del: rx_run.simps(2))
  qed
  have "\<exists>ys. concat (map g (lazy_run (length (v @ newline # rest)) (cls_step any_ch) (c # pre, v @ newline # rest, caps)))
      = (rev w @ pre, newline # rest, (n, w) # caps) # ys"
  proof -
    obtain xs where hd: "g (rev v @ c # pre, newline # rest, caps) = (rev w @ pre, newline # rest, (n, w) # caps) # xs"
      using tail_hd [of "rev w @ pre" rest "(n, w) # caps"] w by (auto simp: g_def h_def rx_hd_def)
    show ?thesis
    proof (rule lazy_until)
      show "g (rev v @ c # pre, newline # rest, caps) = (rev w @ pre, newline # rest, (n, w) # caps) # xs"
        by (rule hd)
      show "g (rev v' @ c # pre, u @ newline # rest, caps) = []" if "v = v' @ u" "u \<noteq> []" for v' u
        using assms w that by (simp add: g_def h_def tail_none)
    qed (use assms w in simp_all)
  qed
  then show ?thesis using run by (simp add: rx_hd_def)
qed

section \<open>Scanning a text line by line\<close>

definition finds :: "rx \<Rightarrow> string \<Rightarrow> string \<Rightarrow> rmatch list" where
  "finds r pre post = find_from (Suc (length post)) r pre post"

lemma find_from_fuel: "length post < n \<Longrightarrow> find_from n r pre post = finds r pre post"
proof (induction "length post" arbitrary: post n pre rule: less_induct)
  case less
  then obtain m where n: "n = Suc m" by (cases n) auto
  have fuel: "find_from m r p q = find_from (length post) r p q" if "length q < length post" for p q
    using less(1) [of q m p] less(1) [of q "length post" p] that less.prems n by simp
  show ?case unfolding finds_def n
    by (auto simp: fuel split: list.split)
qed

lemma finds_none: "rx_run r (pre, c # cs, []) = [] \<Longrightarrow> finds r pre (c # cs) = finds r (c # pre) cs"
  by (simp add: finds_def)

lemma finds_hd:
  "rx_hd r (pre, u @ v, []) (rev u @ pre, v, caps) \<Longrightarrow> u \<noteq> [] \<Longrightarrow>
   finds r pre (u @ v) = mk_match pre (rev u @ pre, v, caps) # finds r (rev u @ pre) v"
  using find_from_fuel [of v "length (u @ v)" r "rev u @ pre"]
  by (auto simp: finds_def [of r pre] rx_hd_def rx_rest_def)

lemma finds_inside_line:
  assumes "\<not> at_bol pre" and "newline \<notin> set w"
  shows "finds (Cat Bol r) pre (w @ newline # rest) = finds (Cat Bol r) (newline # rev w @ pre) rest"
  using assms
proof (induction w arbitrary: pre)
  case Nil
  then show ?case by (simp add: finds_none)
next
  case (Cons c w)
  have "\<not> at_bol (c # pre)" using Cons.prems(2) by (auto simp: at_bol_def)
  then show ?case using Cons.IH [of "c # pre"] Cons.prems by (simp add: finds_none)
qed

definition unlines :: "string list \<Rightarrow> string" where
  "unlines ls = concat (map (\<lambda>l. l @ [newline]) ls)"

text \<open>A pattern anchored at line starts is described on a line by what it captures there.\<close>

definition line_rule :: "rx \<Rightarrow> (string \<Rightarrow> (nat \<times> string) list option) \<Rightarrow> string \<Rightarrow> bool" where
  "line_rule r g l \<longleftrightarrow> newline \<notin> set l \<and>
     (\<forall>pre rest. at_bol pre \<longrightarrow>
        (case g l of
           None \<Rightarrow> rx_run (Cat Bol r) (pre, l @ newline # rest, []) = []
         | Some caps \<Rightarrow> (\<exists>u v. l = u @ v \<and> u \<noteq> [] \<and>
              rx_hd (Cat Bol r) (pre, u @ v @ newline # rest, []) (rev u @ pre, v @ newline # rest, caps))))"

lemma line_rule_Some:
  "line_rule r g l \<Longrightarrow> g l = Some caps \<Longrightarrow> at_bol pre \<Longrightarrow>
   \<exists>u v. l = u @ v \<and> u \<noteq> [] \<and>
     rx_hd (Cat Bol r) (pre, u @ v @ newline # rest, []) (rev u @ pre, v @ newline # rest, caps)"
  by (simp add: line_rule_def)

lemma finds_unlines:
  assumes "list_all (line_rule r g) ls" and "at_bol pre" and e: "\<And>pre. rx_run r (pre, [], []) = []"
  shows "map m_caps (finds (Cat Bol r) pre (unlines ls)) = List.map_filter g ls"
  using assms(1,2)
proof (induction ls arbitrary: pre)
  case Nil
  then show ?case by (simp add: unlines_def finds_def map_filter_simps e)
next
  case (Cons l ls)
  then have nl: "newline \<notin> set l" by (simp add: line_rule_def)
  have IH: "map m_caps (finds (Cat Bol r) (newline # p) (unlines ls)) = List.map_filter g ls" for p
    using Cons by (simp add: at_bol_def)
  have un: "unlines (l # ls) = l @ newline # unlines ls" by (simp add: unlines_def)
  show ?case
  proof (cases "g l")
    case None
    then have none: "rx_run (Cat Bol r) (pre, l @ newline # unlines ls, []) = []"
      using Cons.prems by (simp add: line_rule_def)
    have "finds (Cat Bol r) pre (l @ newline # unlines ls) = finds (Cat Bol r) (newline # rev l @ pre) (unlines ls)"
    proof (cases l)
      case Nil
      then show ?thesis using none by (simp add: finds_none del: rx_run.simps)
    next
      case (Cons c w)
      then have "finds (Cat Bol r) pre (l @ newline # unlines ls) = finds (Cat Bol r) (c # pre) (w @ newline # unlines ls)"
        using none by (simp add: finds_none del: rx_run.simps)
      moreover have "\<not> at_bol (c # pre)" using nl Cons by (auto simp: at_bol_def)
      ultimately show ?thesis using finds_inside_line [of "c # pre" w r "unlines ls"] nl Cons by simp
    qed
    then show ?thesis using IH None un by (simp add: map_filter_simps)
  next
    case (Some caps)
    have "line_rule r g l" using Cons.prems(1) by simp
    from line_rule_Some [OF this Some Cons.prems(2), of "unlines ls"] obtain u v where l: "l = u @ v" "u \<noteq> []"
      and hd: "rx_hd (Cat Bol r) (pre, u @ v @ newline # unlines ls, []) (rev u @ pre, v @ newline # unlines ls, caps)"
      by (elim exE conjE) rule
    have "\<not> at_bol (rev u @ pre)" using l nl by (cases u rule: rev_cases) (auto simp: at_bol_def)
    then have "finds (Cat Bol r) pre (l @ newline # unlines ls)
        = mk_match pre (rev u @ pre, v @ newline # unlines ls, caps) # finds (Cat Bol r) (newline # rev v @ rev u @ pre) (unlines ls)"
      using finds_hd [OF hd l(2)] finds_inside_line [of "rev u @ pre" v r "unlines ls"] l nl by simp
    then show ?thesis using IH Some un by (simp add: map_filter_simps mk_match_def)
  qed
qed

end
