(* ===== verification/Grade_Diff.thy ===== *)
theory Grade_Diff
  imports Grade_Meta
begin

text \<open>
  What the round 4 grader reads off a working copy (\<open>rounds/round4/v4_grade.py\<close>): the file
  walk with its exclusions, the diff against the shipped repository, the lines that a submission
  added, the files that are protected, and the self-report block.

  A repository is a dictionary from relative paths to files; a file is its bytes and whether they
  decode as text. \<open>udiff\<close> stands for \<open>difflib.unified_diff\<close>, and no result depends on what it
  returns. Read errors of the operating system are not modelled.
\<close>

section \<open>Walking a repository\<close>

record repo_file =
  f_raw :: string
  f_text :: bool

type_synonym repo = "(string, repo_file) dict"

definition SKIP_DIRS :: "string list" where
  "SKIP_DIRS = [''__pycache__'', ''.git'', ''.pytest_cache'', ''.mypy_cache'']"

definition skip_suffix :: "string \<Rightarrow> bool" where
  "skip_suffix name \<longleftrightarrow> ends_with ''.pyc'' name \<or> ends_with ''.pyo'' name"

definition path_parts :: "string \<Rightarrow> string list" where
  "path_parts p = split_on (CHR ''/'') p"

text \<open>Why a path is left out of the scored diff, if it is.\<close>

definition skip_reason :: "string \<Rightarrow> string option" where
  "skip_reason p =
     (let parts = path_parts p; name = last parts in
      case find (\<lambda>d. d \<in> set SKIP_DIRS) (butlast parts) of
        Some d \<Rightarrow> Some (''skip_dir:'' @ d)
      | None \<Rightarrow> if skip_suffix name then Some ''skip_suffix''
                else if name = ''.DS_Store'' then Some ''ds_store'' else None)"

definition walk_files :: "repo \<Rightarrow> string list \<times> (string \<times> string) list" where
  "walk_files r =
     (filter (\<lambda>p. skip_reason p = None) (dict_keys r),
      List.map_filter (\<lambda>p. map_option (\<lambda>why. (p, why)) (skip_reason p)) (dict_keys r))"

section \<open>The diff\<close>

text \<open>\<open>s.splitlines(keepends=True)\<close>.\<close>

fun keep_acc :: "string \<Rightarrow> string \<Rightarrow> string list" where
  "keep_acc w [] = (if w = [] then [] else [rev w])"
| "keep_acc w (c # s) =
     (if c = CHR 0x0D
      then (case s of
              [] \<Rightarrow> [rev (c # w)]
            | c' # s' \<Rightarrow> if c' = CHR 0x0A then rev (c' # c # w) # keep_acc [] s'
                        else rev (c # w) # keep_acc [] (c' # s'))
      else if line_end c then rev (c # w) # keep_acc [] s
      else keep_acc (c # w) s)"

definition read_text :: "repo_file \<Rightarrow> string list option" where
  "read_text f = (if f_text f then Some (keep_acc [] (f_raw f)) else None)"

record fdiff =
  fd_changed :: nat
  fd_binary :: bool
  fd_added :: bool
  fd_deleted :: bool
  fd_diff :: string

record repo_diff =
  df_added :: "string list"
  df_deleted :: "string list"
  df_modified :: "string list"
  df_changed_lines :: nat
  df_per_file :: "(string, fdiff) dict"
  df_unified :: string
  df_truncated :: bool
  df_touched :: "string list"
  df_excluded_paths :: "(string \<times> string) list"
  df_excluded_touched :: "string list"

definition count_changes :: "string list \<Rightarrow> nat" where
  "count_changes d =
     length (filter (\<lambda>x. (starts_with ''+'' x \<and> \<not> starts_with ''+++'' x)
                        \<or> (starts_with ''-'' x \<and> \<not> starts_with ''---'' x)) d)"

definition file_of :: "repo \<Rightarrow> string \<Rightarrow> repo_file" where
  "file_of r p = dict_get r p \<lparr>f_raw = [], f_text = True\<rparr>"

definition common_diff ::
  "(string list \<Rightarrow> string list \<Rightarrow> string \<Rightarrow> string list) \<Rightarrow> repo \<Rightarrow> repo \<Rightarrow> string \<Rightarrow> (fdiff \<times> string) option" where
  "common_diff udiff old new rel =
     (case (read_text (file_of old rel), read_text (file_of new rel)) of
        (Some a, Some b) \<Rightarrow>
          if a = b then None
          else (let d = udiff a b rel in
                Some (\<lparr>fd_changed = count_changes d, fd_binary = False, fd_added = False,
                       fd_deleted = False, fd_diff = concat d\<rparr>, concat d))
      | _ \<Rightarrow>
          if f_raw (file_of old rel) = f_raw (file_of new rel) then None
          else Some (\<lparr>fd_changed = 1, fd_binary = True, fd_added = False, fd_deleted = False,
                      fd_diff = []\<rparr>, []))"

definition added_diff :: "repo \<Rightarrow> string \<Rightarrow> fdiff \<times> string" where
  "added_diff new rel =
     (case read_text (file_of new rel) of
        Some a \<Rightarrow> (\<lparr>fd_changed = length a, fd_binary = False, fd_added = True, fd_deleted = False, fd_diff = []\<rparr>,
                  ''--- /dev/null'' @ newline # ''+++ b/'' @ rel @ newline # concat (map (\<lambda>x. CHR ''+'' # x) a))
      | None \<Rightarrow> (\<lparr>fd_changed = 1, fd_binary = True, fd_added = True, fd_deleted = False, fd_diff = []\<rparr>, []))"

definition deleted_diff :: "repo \<Rightarrow> string \<Rightarrow> fdiff \<times> string" where
  "deleted_diff old rel =
     (let head = ''--- a/'' @ rel @ newline # ''+++ /dev/null'' @ [newline] in
      case read_text (file_of old rel) of
        Some a \<Rightarrow> (\<lparr>fd_changed = length a, fd_binary = False, fd_added = False, fd_deleted = True, fd_diff = []\<rparr>,
                  head @ concat (map (\<lambda>x. CHR ''-'' # x) a))
      | None \<Rightarrow> (\<lparr>fd_changed = 1, fd_binary = True, fd_added = False, fd_deleted = True, fd_diff = []\<rparr>, head))"

definition minus_sorted :: "string list \<Rightarrow> string list \<Rightarrow> string list" where
  "minus_sorted xs ys = sort (remdups (filter (\<lambda>x. x \<notin> set ys) xs))"

definition both_sorted :: "string list \<Rightarrow> string list \<Rightarrow> string list" where
  "both_sorted xs ys = sort (remdups (filter (\<lambda>x. x \<in> set ys) xs))"

definition diff_repos ::
  "(string list \<Rightarrow> string list \<Rightarrow> string \<Rightarrow> string list) \<Rightarrow> nat \<Rightarrow> repo \<Rightarrow> repo \<Rightarrow> repo_diff" where
  "diff_repos udiff max_chars old new =
     (let (old_files, excl_old) = walk_files old;
          (new_files, excl_new) = walk_files new;
          added = minus_sorted new_files old_files;
          deleted = minus_sorted old_files new_files;
          common = both_sorted old_files new_files;
          ex_added = minus_sorted (map fst excl_new) (map fst excl_old);
          ex_removed = minus_sorted (map fst excl_old) (map fst excl_new);
          ex_changed = filter (\<lambda>rel. f_raw (file_of old rel) \<noteq> f_raw (file_of new rel))
                         (both_sorted (map fst excl_old) (map fst excl_new));
          ex_touched = sort (remdups (ex_added @ ex_changed));
          ex_paths = map (\<lambda>rel. (rel, case map_of excl_new rel of Some why \<Rightarrow> why
                                       | None \<Rightarrow> dict_get excl_old rel []))
                       (sort (remdups (ex_added @ ex_removed @ ex_changed)));
          changed = List.map_filter (\<lambda>rel. map_option (\<lambda>d. (rel, d)) (common_diff udiff old new rel)) common;
          modified = map fst changed;
          entries = changed @ map (\<lambda>rel. (rel, added_diff new rel)) added
                      @ map (\<lambda>rel. (rel, deleted_diff old rel)) deleted;
          unified = concat (map (\<lambda>(_, _, chunk). chunk) entries)
      in \<lparr>df_added = added, df_deleted = deleted, df_modified = modified,
          df_changed_lines = sum_list (map (\<lambda>(_, d, _). fd_changed d) entries),
          df_per_file = map (\<lambda>(rel, d, _). (rel, d)) entries,
          df_unified = take max_chars unified, df_truncated = (max_chars < length unified),
          df_touched = sort (remdups (added @ deleted @ modified)),
          df_excluded_paths = ex_paths, df_excluded_touched = ex_touched\<rparr>)"

text \<open>\<open>_added_lines\<close>: every line that the submission added, with its file.\<close>

definition added_lines :: "repo \<Rightarrow> repo_diff \<Rightarrow> (string \<times> string) list" where
  "added_lines new diff =
     concat (map (\<lambda>(rel, info).
         if fd_binary info then
           (if fd_deleted info then [] else map (Pair rel) (splitlines (f_raw (file_of new rel))))
         else if fd_added info then map (Pair rel) (splitlines (f_raw (file_of new rel)))
         else map (\<lambda>x. (rel, tl x))
                (filter (\<lambda>x. starts_with ''+'' x \<and> \<not> starts_with ''+++'' x) (splitlines (fd_diff info))))
       (sort_key fst (df_per_file diff)))
     @ concat (map (\<lambda>rel. map (Pair rel) (splitlines (f_raw (file_of new rel)))) (df_excluded_touched diff))"

section \<open>Protected files\<close>

definition is_test_path :: "string \<Rightarrow> bool" where
  "is_test_path rel \<longleftrightarrow> rel = ''run_tests.py'' \<or> starts_with ''tests/'' rel"

definition protected_test_files :: "task_meta \<Rightarrow> repo \<Rightarrow> string list" where
  "protected_test_files meta pristine =
     sort (remdups (filter (\<lambda>rel. rel \<notin> set (tm_editable_tests meta))
       (tm_protected_tests meta @ filter is_test_path (fst (walk_files pristine)))))"

datatype token_kind = TokComment | TokString | TokLayout | TokCode

text \<open>\<open>_documentation_lines\<close>: the tokens (kind, first and last line) come from \<open>tokenize\<close>;
  \<open>None\<close> when the file does not tokenize.\<close>

definition documentation_lines :: "(token_kind \<times> nat \<times> nat) list option \<Rightarrow> nat set" where
  "documentation_lines toks =
     (case toks of
        None \<Rightarrow> {}
      | Some ts \<Rightarrow>
          (\<Union>(k, a, b) \<in> set ts. if k = TokComment \<or> k = TokString then {a..b} else {})
          - (\<Union>(k, a, b) \<in> set ts. if k = TokCode then {a..b} else {}))"

definition hunk_rx :: rx where
  "hunk_rx = rx_seq [rx_lit ''@@ -'', Grp 1 (rx_plus rx_digit)]"

fun removed_lines :: "nat option \<Rightarrow> string list \<Rightarrow> (nat \<times> string) list" where
  "removed_lines n [] = []"
| "removed_lines n (raw # rest) =
     (case re_match hunk_rx raw of
        Some m \<Rightarrow> removed_lines (Some (digits_val (m_group m 1))) rest
      | None \<Rightarrow>
          (case n of
             None \<Rightarrow> removed_lines None rest
           | Some k \<Rightarrow>
               if starts_with ''---'' raw then removed_lines n rest
               else if starts_with ''-'' raw then (k, raw) # removed_lines (Some (k + 1)) rest
               else if starts_with ''+'' raw then removed_lines n rest
               else removed_lines (Some (k + 1)) rest))"

definition removed_line_numbers :: "string \<Rightarrow> (nat \<times> string) list" where
  "removed_line_numbers body = removed_lines None (splitlines body)"

section \<open>The self-report block\<close>

definition REPORT_FIELDS :: "string list" where
  "REPORT_FIELDS = [''ROOT_CAUSE_FILE'', ''ROOT_CAUSE_FUNCTION'', ''FILES_CHANGED'',
     ''PUBLIC_TESTS_AFTER_FIX'', ''CONFIDENCE'', ''REMAINING_RISKS'']"

record report =
  rp_present :: bool
  rp_fields :: "(string, string) dict"
  rp_missing :: "string list"
  rp_raw :: string

definition no_report :: report where
  "no_report = \<lparr>rp_present = False, rp_fields = [], rp_missing = [], rp_raw = []\<rparr>"

definition report_rx :: rx where
  "report_rx = rx_seq [Star rx_space, Grp 1 (rx_seq [Cls ch_upper, rx_plus (Cls (\<lambda>c. ch_upper c \<or> ch_digit c \<or> c = CHR ''_''))]),
     Star rx_space, rx_lit '':'', Star rx_space, Grp 2 (Star rx_any), Eos]"

definition prose_line :: "string \<Rightarrow> bool" where
  "prose_line line =
     (let w = str_strip line in w = [] \<or> starts_with ''#'' w \<or> starts_with ''`'' w \<or> starts_with ''-'' w)"

fun report_lines :: "(string, string) dict \<Rightarrow> string list \<Rightarrow> (string, string) dict" where
  "report_lines flds [] = flds"
| "report_lines flds (line # rest) =
     (case re_match report_rx line of
        None \<Rightarrow>
          if prose_line line then report_lines flds rest
          else if flds \<noteq> [] then flds
          else report_lines flds rest
      | Some m \<Rightarrow>
          if m_group m 1 \<in> set REPORT_FIELDS \<or> length flds < length REPORT_FIELDS
          then report_lines (AList.update (m_group m 1) (str_strip (m_group m 2)) flds) rest
          else report_lines flds rest)"

definition placeholder_rx :: rx where
  "placeholder_rx = rx_seq [rx_lit ''<'', Star (rx_none_of ''<>''), rx_lit ''>'']"

definition is_template :: "(string, string) dict \<Rightarrow> bool" where
  "is_template flds \<longleftrightarrow> flds = [] \<or>
     length flds \<le> 2 * length (filter (\<lambda>kv. re_fullmatch placeholder_rx (snd kv)) flds)"

definition report_mark :: string where
  "report_mark = ''=== REPORT ===''"

lemma str_rfind_less: "str_rfind p s = Some i \<Longrightarrow> p \<noteq> [] \<Longrightarrow> i < length s"
  by (induction s arbitrary: i) (auto split: option.splits if_splits)

text \<open>The markers are tried from the last one backwards: \<open>rfind(mark, 0, idx)\<close> is the last
  occurrence that ends at or before \<open>idx\<close>.\<close>

function find_report :: "string \<Rightarrow> nat \<Rightarrow> report" where
  "find_report transcript idx =
     (case str_rfind report_mark (take idx transcript) of
        None \<Rightarrow> no_report
      | Some i \<Rightarrow>
          let seg = drop i transcript; flds = report_lines [] (tl (splitlines seg)) in
            if is_template flds then find_report transcript i
            else \<lparr>rp_present = True, rp_fields = flds,
                  rp_missing = filter (\<lambda>f. dict_get flds f [] = []) REPORT_FIELDS,
                  rp_raw = take 2000 seg\<rparr>)"
  by pat_completeness auto
termination
proof (relation "measure snd")
  fix transcript :: string and idx i seg flds
  assume "str_rfind report_mark (take idx transcript) = Some i"
  then have "i < length (take idx transcript)" by (rule str_rfind_less) (auto simp: report_mark_def)
  then show "((transcript, i), (transcript, idx)) \<in> measure snd" by simp
qed simp

declare find_report.simps [simp del]

definition parse_report :: "string \<Rightarrow> report" where
  "parse_report transcript = (if transcript = [] then no_report else find_report transcript (length transcript))"

definition ratio_rx :: rx where
  "ratio_rx = rx_seq [Grp 1 (rx_plus rx_digit), Star rx_space, rx_lit ''/'', Star rx_space, Grp 2 (rx_plus rx_digit)]"

definition parse_ratio :: "string \<Rightarrow> (nat \<times> nat) option" where
  "parse_ratio text =
     (if text = [] then None
      else map_option (\<lambda>m. (digits_val (m_group m 1), digits_val (m_group m 2))) (re_search ratio_rx text))"

section \<open>What the diff sees\<close>

lemma concat_keep_acc: "concat (keep_acc w s) = rev w @ s"
proof (induction w s rule: keep_acc.induct)
  case (2 w c s)
  show ?case
  proof (cases "c = CHR 0x0D")
    case True
    with 2(1,2) show ?thesis by (cases s) simp_all
  next
    case False
    with 2(3,4) show ?thesis by simp
  qed
qed simp

lemma keep_acc_inject: "keep_acc [] a = keep_acc [] b \<longleftrightarrow> a = b"
  by (metis append_Nil concat_keep_acc rev.simps(1))

lemma set_minus_sorted [simp]: "set (minus_sorted xs ys) = set xs - set ys"
  by (auto simp: minus_sorted_def)

lemma set_both_sorted [simp]: "set (both_sorted xs ys) = set xs \<inter> set ys"
  by (auto simp: both_sorted_def)

lemma walk_kept: "rel \<in> set (fst (walk_files r)) \<longleftrightarrow> dict_has r rel \<and> skip_reason rel = None"
  by (auto simp: walk_files_def dict_keys_def dict_has_def)

lemma walk_excluded: "rel \<in> set (map fst (snd (walk_files r))) \<longleftrightarrow> dict_has r rel \<and> skip_reason rel \<noteq> None"
  by (force simp: walk_files_def dict_keys_def dict_has_def List.map_filter_def)

lemma common_diff_None: "common_diff udiff old new rel = None \<longleftrightarrow> f_raw (file_of old rel) = f_raw (file_of new rel)"
  by (auto simp: common_diff_def read_text_def keep_acc_inject Let_def split: option.splits)

text \<open>The fields of a diff, one at a time.\<close>

definition changed_common ::
  "(string list \<Rightarrow> string list \<Rightarrow> string \<Rightarrow> string list) \<Rightarrow> repo \<Rightarrow> repo \<Rightarrow> (string \<times> fdiff \<times> string) list" where
  "changed_common udiff old new =
     List.map_filter (\<lambda>rel. map_option (\<lambda>d. (rel, d)) (common_diff udiff old new rel))
       (both_sorted (fst (walk_files old)) (fst (walk_files new)))"

definition diff_entries ::
  "(string list \<Rightarrow> string list \<Rightarrow> string \<Rightarrow> string list) \<Rightarrow> repo \<Rightarrow> repo \<Rightarrow> (string \<times> fdiff \<times> string) list" where
  "diff_entries udiff old new =
     changed_common udiff old new
     @ map (\<lambda>rel. (rel, added_diff new rel)) (minus_sorted (fst (walk_files new)) (fst (walk_files old)))
     @ map (\<lambda>rel. (rel, deleted_diff old rel)) (minus_sorted (fst (walk_files old)) (fst (walk_files new)))"

lemma diff_repos_sel:
  "df_added (diff_repos udiff m old new) = minus_sorted (fst (walk_files new)) (fst (walk_files old))"
  "df_deleted (diff_repos udiff m old new) = minus_sorted (fst (walk_files old)) (fst (walk_files new))"
  "df_modified (diff_repos udiff m old new) = map fst (changed_common udiff old new)"
  "df_per_file (diff_repos udiff m old new) = map (\<lambda>(rel, d, _). (rel, d)) (diff_entries udiff old new)"
  "df_changed_lines (diff_repos udiff m old new) = sum_list (map (\<lambda>(_, d, _). fd_changed d) (diff_entries udiff old new))"
  "df_touched (diff_repos udiff m old new) = sort (remdups (df_added (diff_repos udiff m old new)
     @ df_deleted (diff_repos udiff m old new) @ df_modified (diff_repos udiff m old new)))"
  "set (df_excluded_touched (diff_repos udiff m old new)) =
     (set (map fst (snd (walk_files new))) - set (map fst (snd (walk_files old)))) \<union>
     {rel \<in> set (map fst (snd (walk_files old))) \<inter> set (map fst (snd (walk_files new))).
        f_raw (file_of old rel) \<noteq> f_raw (file_of new rel)}"
  by (auto simp: diff_repos_def Let_def case_prod_beta changed_common_def diff_entries_def)

lemma modified_iff:
  "rel \<in> set (df_modified (diff_repos udiff m old new)) \<longleftrightarrow>
   skip_reason rel = None \<and> dict_has old rel \<and> dict_has new rel
   \<and> f_raw (file_of old rel) \<noteq> f_raw (file_of new rel)"
proof -
  have "rel \<in> set (df_modified (diff_repos udiff m old new)) \<longleftrightarrow>
      rel \<in> set (fst (walk_files old)) \<and> rel \<in> set (fst (walk_files new)) \<and> common_diff udiff old new rel \<noteq> None"
    by (force simp: diff_repos_sel changed_common_def List.map_filter_def)
  then show ?thesis by (auto simp: walk_kept common_diff_None)
qed


lemma per_file_mem:
  "(rel, d) \<in> set (diff_entries udiff old new) \<Longrightarrow> (rel, fst d) \<in> set (df_per_file (diff_repos udiff m old new))"
  unfolding diff_repos_sel set_map by (rule image_eqI [of _ _ "(rel, d)"]) (simp_all add: case_prod_beta)

lemma per_file_scanned:
  assumes "(rel, info) \<in> set (df_per_file diff)" and "fd_binary info \<and> \<not> fd_deleted info \<or> \<not> fd_binary info \<and> fd_added info"
    and "line \<in> set (splitlines (f_raw (file_of new rel)))"
  shows "(rel, line) \<in> set (added_lines new diff)"
proof -
  have "(rel, info) \<in> set (sort_key fst (df_per_file diff))" using assms(1) by simp
  then show ?thesis using assms(2,3) unfolding added_lines_def set_append set_concat set_map
    by (intro UnI1 UN_I [of "(rel, info)"]) auto
qed

lemma excluded_scanned:
  "rel \<in> set (df_excluded_touched diff) \<Longrightarrow> line \<in> set (splitlines (f_raw (file_of new rel))) \<Longrightarrow>
   (rel, line) \<in> set (added_lines new diff)"
  by (auto simp: added_lines_def)

text \<open>C8. No path is a blind spot for the scan of added lines: every line of a file that is new,
  or that changed and is excluded from the score or is not text on either side, is scanned.\<close>

theorem added_lines_no_blind_spot:
  assumes "dict_has new rel"
    and "\<not> dict_has old rel \<or> f_raw (file_of old rel) \<noteq> f_raw (file_of new rel)
           \<and> (skip_reason rel \<noteq> None \<or> \<not> f_text (file_of old rel) \<or> \<not> f_text (file_of new rel))"
    and "line \<in> set (splitlines (f_raw (file_of new rel)))"
  shows "(rel, line) \<in> set (added_lines new (diff_repos udiff m old new))"
proof (cases "skip_reason rel")
  case (Some why)
  then have "rel \<in> set (df_excluded_touched (diff_repos udiff m old new))"
    using assms(1,2) unfolding diff_repos_sel Un_iff Diff_iff walk_excluded by (auto simp: walk_excluded [simplified])
  then show ?thesis using assms(3) by (rule excluded_scanned)
next
  case None
  show ?thesis
  proof (cases "dict_has old rel")
    case False
    then have "rel \<in> set (minus_sorted (fst (walk_files new)) (fst (walk_files old)))"
      using assms(1) None by (simp add: walk_kept)
    then have "(rel, added_diff new rel) \<in> set (diff_entries udiff old new)"
      unfolding diff_entries_def set_append set_map by blast
    then have "(rel, fst (added_diff new rel)) \<in> set (df_per_file (diff_repos udiff m old new))"
      by (rule per_file_mem)
    then show ?thesis using assms(3)
      by (intro per_file_scanned) (auto simp: added_diff_def split: option.splits)
  next
    case True
    then have nt: "\<not> (f_text (file_of old rel) \<and> f_text (file_of new rel))"
      and ch: "f_raw (file_of old rel) \<noteq> f_raw (file_of new rel)" using assms(2) None by auto
    obtain d where d: "common_diff udiff old new rel = Some d" "fd_binary (fst d)" "\<not> fd_deleted (fst d)"
      using nt ch by (cases "f_text (file_of old rel)"; cases "f_text (file_of new rel)")
        (simp_all add: common_diff_def read_text_def)
    have "rel \<in> set (both_sorted (fst (walk_files old)) (fst (walk_files new)))"
      using assms(1) True None by (simp add: walk_kept)
    then have "(rel, d) \<in> set (changed_common udiff old new)"
      using d(1) by (force simp: changed_common_def List.map_filter_def)
    then have "(rel, fst d) \<in> set (df_per_file (diff_repos udiff m old new))"
      by (intro per_file_mem) (simp add: diff_entries_def)
    then show ?thesis using d assms(3) by (intro per_file_scanned) auto
  qed
qed

theorem added_lines_no_blind_spot_witness:
  "(''__pycache__/x.pyc'', ''V4RESULT'') \<in> set (added_lines [(''__pycache__/x.pyc'', \<lparr>f_raw = ''V4RESULT'', f_text = False\<rparr>)]
     (diff_repos (\<lambda>_ _ _. []) 200000 [] [(''__pycache__/x.pyc'', \<lparr>f_raw = ''V4RESULT'', f_text = False\<rparr>)]))"
proof (rule added_lines_no_blind_spot)
  have "splitlines ''V4RESULT'' = [''V4RESULT'']" by code_simp
  then show "''V4RESULT'' \<in> set (splitlines (f_raw (file_of [(''__pycache__/x.pyc'',
      \<lparr>f_raw = ''V4RESULT'', f_text = False\<rparr>)] ''__pycache__/x.pyc'')))"
    by (simp add: file_of_def dict_get_def)
qed (simp_all add: dict_has_def)

section \<open>What the self-report parser returns\<close>

lemma str_rfind_match: "str_rfind p s = Some i \<Longrightarrow> starts_with p (drop i s)"
proof (induction s arbitrary: i)
  case (Cons c s)
  show ?case
  proof (cases "str_rfind p s")
    case None
    then show ?thesis using Cons.prems by (auto split: if_splits)
  next
    case (Some j)
    then show ?thesis using Cons by auto
  qed
qed (simp add: starts_with_def split: if_splits)

lemma starts_with_take: "starts_with p (take k s) \<Longrightarrow> starts_with p s"
  by (metis (no_types, lifting) length_take linorder_not_less min_def starts_with_def take_all_iff take_take nle_le)

definition block_fields :: "string \<Rightarrow> nat \<Rightarrow> (string, string) dict" where
  "block_fields transcript i = report_lines [] (tl (splitlines (drop i transcript)))"

lemma find_report_sound:
  "rp_present (find_report t idx) \<Longrightarrow>
   \<exists>i. starts_with report_mark (drop i t) \<and> \<not> is_template (block_fields t i)
     \<and> rp_fields (find_report t idx) = block_fields t i \<and> rp_raw (find_report t idx) = take 2000 (drop i t)"
proof (induction t idx rule: find_report.induct)
  case (1 t idx)
  obtain i where i: "str_rfind report_mark (take idx t) = Some i"
    using "1.prems" by (cases "str_rfind report_mark (take idx t)") (simp_all add: no_report_def find_report.simps [of t idx])
  have m: "starts_with report_mark (drop i t)"
    using starts_with_take [OF str_rfind_match [OF i, unfolded drop_take]] .
  show ?case
  proof (cases "is_template (block_fields t i)")
    case True
    then have eq: "find_report t idx = find_report t i" using i by (subst find_report.simps) (simp add: block_fields_def)
    then show ?thesis using "1.IH" [OF i refl refl] True "1.prems" by (simp add: block_fields_def)
  next
    case False
    then show ?thesis using i m
      by (intro exI [of _ i]) (simp add: find_report.simps [of t idx] block_fields_def Let_def)
  qed
qed

text \<open>C9. The self-report is read from a real block: what \<open>parse_report\<close> returns as present is
  the block of some report marker and is not the prompt's own template, and the last block of
  the text is the one returned whenever it is not the template.\<close>

theorem parse_report_spec:
  "(if rp_present (parse_report t)
    then \<exists>i. starts_with report_mark (drop i t) \<and> \<not> is_template (block_fields t i)
           \<and> rp_fields (parse_report t) = block_fields t i \<and> rp_raw (parse_report t) = take 2000 (drop i t)
    else rp_fields (parse_report t) = [])
   \<and> (case str_rfind report_mark t of
        None \<Rightarrow> \<not> rp_present (parse_report t)
      | Some i \<Rightarrow> is_template (block_fields t i)
                  \<or> rp_present (parse_report t) \<and> rp_fields (parse_report t) = block_fields t i)"
proof (cases "t = []")
  case True
  then show ?thesis by (simp add: parse_report_def no_report_def report_mark_def)
next
  case False
  have absent: "\<not> rp_present (find_report t idx) \<Longrightarrow> rp_fields (find_report t idx) = []" for idx
  proof (induction t idx rule: find_report.induct)
    case (1 t idx)
    then show ?case
      by (auto simp: find_report.simps [of t idx] no_report_def Let_def split: option.splits if_splits)
  qed
  show ?thesis
  proof (intro conjI)
    show "if rp_present (parse_report t)
      then \<exists>i. starts_with report_mark (drop i t) \<and> \<not> is_template (block_fields t i)
             \<and> rp_fields (parse_report t) = block_fields t i \<and> rp_raw (parse_report t) = take 2000 (drop i t)
      else rp_fields (parse_report t) = []"
      using find_report_sound [of t "length t"] absent [of "length t"] False by (simp add: parse_report_def)
    show "case str_rfind report_mark t of
        None \<Rightarrow> \<not> rp_present (parse_report t)
      | Some i \<Rightarrow> is_template (block_fields t i)
                  \<or> rp_present (parse_report t) \<and> rp_fields (parse_report t) = block_fields t i"
      using False unfolding parse_report_def
      by (simp add: find_report.simps [of t "length t"] no_report_def block_fields_def Let_def split: option.splits)
  qed
qed

end
