(* ===== verification/Py_Json.thy ===== *)
theory Py_Json
  imports Py_Prelude "HOL-Library.Multiset"
begin

text \<open>
  Python's \<open>json\<close> module on the values the modelled code writes and reads: \<open>json_dumps\<close> is
  \<open>json.dumps(v, sort_keys=True)\<close> with its default separators and \<open>ensure_ascii\<close>, and
  \<open>json_loads\<close> is \<open>json.loads\<close> (\<open>None\<close> for a decoding error). Printing a float needs the
  shortest decimal that reads back as the same double, so \<open>json_dumps\<close> is only given for
  values without floats (\<open>None\<close> otherwise); reading takes a decimal as its exact value. The
  constants \<open>NaN\<close> and \<open>Infinity\<close> and code points above 255 are outside the model.
\<close>

section \<open>Printing\<close>

definition quote_ch :: char where "quote_ch = CHR 0x22"
definition bslash :: char where "bslash = CHR 0x5C"

definition hex_char :: "nat \<Rightarrow> char" where
  "hex_char d = (if d < 10 then char_of (48 + d) else char_of (87 + d))"

definition hex_val :: "char \<Rightarrow> nat option" where
  "hex_val c =
     (let n = ch_code c in
      if 48 \<le> n \<and> n \<le> 57 then Some (n - 48)
      else if 97 \<le> n \<and> n \<le> 102 then Some (n - 87)
      else if 65 \<le> n \<and> n \<le> 70 then Some (n - 55)
      else None)"

definition simple_esc :: "char \<Rightarrow> char option" where
  "simple_esc c =
     (if c = quote_ch then Some quote_ch
      else if c = bslash then Some bslash
      else if c = CHR 0x0A then Some (CHR ''n'')
      else if c = CHR 0x0D then Some (CHR ''r'')
      else if c = CHR 0x09 then Some (CHR ''t'')
      else if c = CHR 0x0C then Some (CHR ''f'')
      else if c = CHR 0x08 then Some (CHR ''b'')
      else None)"

definition simple_unesc :: "char \<Rightarrow> char option" where
  "simple_unesc e =
     (if e = quote_ch then Some quote_ch
      else if e = bslash then Some bslash
      else if e = CHR ''/'' then Some (CHR ''/'')
      else if e = CHR ''n'' then Some (CHR 0x0A)
      else if e = CHR ''r'' then Some (CHR 0x0D)
      else if e = CHR ''t'' then Some (CHR 0x09)
      else if e = CHR ''f'' then Some (CHR 0x0C)
      else if e = CHR ''b'' then Some (CHR 0x08)
      else None)"

definition esc_ch :: "char \<Rightarrow> string" where
  "esc_ch c =
     (case simple_esc c of
        Some e \<Rightarrow> [bslash, e]
      | None \<Rightarrow>
          if 32 \<le> ch_code c \<and> ch_code c \<le> 126 then [c]
          else [bslash, CHR ''u'', CHR ''0'', CHR ''0'',
                hex_char (ch_code c div 16), hex_char (ch_code c mod 16)])"

definition json_string :: "string \<Rightarrow> string" where
  "json_string s = quote_ch # concat (map esc_ch s) @ [quote_ch]"

fun json_ok :: "pyval \<Rightarrow> bool" and json_oks :: "pyval list \<Rightarrow> bool"
  and json_okd :: "(string \<times> pyval) list \<Rightarrow> bool" where
  "json_ok (PFloat q) = False"
| "json_ok (PList xs) = json_oks xs"
| "json_ok (PDict d) = json_okd d"
| "json_ok v = True"
| "json_oks [] = True"
| "json_oks (x # xs) = (json_ok x \<and> json_oks xs)"
| "json_okd [] = True"
| "json_okd ((k, v) # d) = (json_ok v \<and> json_okd d)"

fun json_print :: "pyval \<Rightarrow> string" and json_prints :: "pyval list \<Rightarrow> string"
  and json_printd :: "(string \<times> pyval) list \<Rightarrow> string" where
  "json_print PNone = ''null''"
| "json_print (PBool b) = (if b then ''true'' else ''false'')"
| "json_print (PInt i) = show_int i"
| "json_print (PFloat q) = []"
| "json_print (PStr s) = json_string s"
| "json_print (PList xs) = CHR ''['' # json_prints xs"
| "json_print (PDict d) = CHR ''{'' # json_printd d"
| "json_prints [] = '']''"
| "json_prints (x # xs) =
     json_print x @ (if xs = [] then '']'' else '', '' @ json_prints xs)"
| "json_printd [] = ''}''"
| "json_printd ((k, v) # d) =
     json_string k @ '': '' @ json_print v @ (if d = [] then ''}'' else '', '' @ json_printd d)"

text \<open>\<open>sort_keys=True\<close>, at every level.\<close>

fun json_sort :: "pyval \<Rightarrow> pyval" and json_sortd :: "(string \<times> pyval) list \<Rightarrow> (string \<times> pyval) list"
  where
  "json_sort (PList xs) = PList (map json_sort xs)"
| "json_sort (PDict d) = PDict (sort_key fst (json_sortd d))"
| "json_sort v = v"
| "json_sortd [] = []"
| "json_sortd ((k, v) # d) = (k, json_sort v) # json_sortd d"

definition json_dumps :: "pyval \<Rightarrow> string option" where
  "json_dumps v = (if json_ok v then Some (json_print (json_sort v)) else None)"

section \<open>Reading\<close>

definition json_ws :: "char \<Rightarrow> bool" where
  "json_ws c \<longleftrightarrow> c = CHR 0x20 \<or> c = CHR 0x09 \<or> c = CHR 0x0A \<or> c = CHR 0x0D"

definition skip_ws :: "string \<Rightarrow> string" where
  "skip_ws s = dropWhile json_ws s"

definition hex4 :: "char \<Rightarrow> char \<Rightarrow> char \<Rightarrow> char \<Rightarrow> nat option" where
  "hex4 a b c d =
     (case (hex_val a, hex_val b, hex_val c, hex_val d) of
        (Some i, Some j, Some k, Some l) \<Rightarrow> Some (4096 * i + 256 * j + 16 * k + l)
      | _ \<Rightarrow> None)"

definition push_ch :: "char \<Rightarrow> (string \<times> string) option \<Rightarrow> (string \<times> string) option" where
  "push_ch c r = map_option (\<lambda>(w, rest). (c # w, rest)) r"

text \<open>A string literal after its opening quote.\<close>

fun json_str :: "string \<Rightarrow> (string \<times> string) option" where
  "json_str [] = None"
| "json_str (c # s) =
     (if c = quote_ch then Some ([], s)
      else if c = bslash then
        (case s of
           [] \<Rightarrow> None
         | e # s1 \<Rightarrow>
             if e = CHR ''u'' then
               (case s1 of
                  a # b # c2 # d # s2 \<Rightarrow>
                    (case hex4 a b c2 d of
                       None \<Rightarrow> None
                     | Some n \<Rightarrow> if n < 256 then push_ch (char_of n) (json_str s2) else None)
                | _ \<Rightarrow> None)
             else (case simple_unesc e of None \<Rightarrow> None | Some x \<Rightarrow> push_ch x (json_str s1)))
      else if ch_code c < 32 then None
      else push_ch c (json_str s))"

text \<open>A number: an optional sign, an integer part without leading zeros, then an optional
  fraction and an optional exponent, each taken only when it has a digit.\<close>

definition json_frac :: "string \<Rightarrow> (string \<times> string) option" where
  "json_frac s =
     (case s of
        c # r \<Rightarrow> if c = CHR ''.'' \<and> takeWhile ch_digit r \<noteq> []
                 then Some (takeWhile ch_digit r, dropWhile ch_digit r) else None
      | [] \<Rightarrow> None)"

definition exp_digits :: "string \<Rightarrow> (int \<times> string) option" where
  "exp_digits r =
     (if takeWhile ch_digit r = [] then None
      else Some (int (digits_val (takeWhile ch_digit r)), dropWhile ch_digit r))"

definition json_exp :: "string \<Rightarrow> (int \<times> string) option" where
  "json_exp s =
     (if s = [] \<or> \<not> (hd s = CHR ''e'' \<or> hd s = CHR ''E'') then None
      else case tl s of
          [] \<Rightarrow> None
        | x # y \<Rightarrow>
            if x = CHR ''-'' then map_option (\<lambda>(e, r). (- e, r)) (exp_digits y)
            else if x = CHR ''+'' then exp_digits y
            else exp_digits (x # y))"

definition pow10 :: "int \<Rightarrow> rat" where
  "pow10 e = (if 0 \<le> e then 10 ^ nat e else 1 / 10 ^ nat (- e))"

definition int_part :: "string \<Rightarrow> string" where
  "int_part s =
     (let ds = takeWhile ch_digit s in if ds \<noteq> [] \<and> hd ds = CHR ''0'' then [CHR ''0''] else ds)"

definition json_unum :: "int \<Rightarrow> string \<Rightarrow> (pyval \<times> string) option" where
  "json_unum sg s =
     (let ip = int_part s; r = drop (length ip) s in
      if ip = [] then None
      else case json_frac r of
          Some (fs, r2) \<Rightarrow>
            (let m = rat_of_int (sg * int (digits_val (ip @ fs))) * pow10 (- int (length fs)) in
             case json_exp r2 of
               Some (e, r3) \<Rightarrow> Some (PFloat (m * pow10 e), r3)
             | None \<Rightarrow> Some (PFloat m, r2))
        | None \<Rightarrow>
            (case json_exp r of
               Some (e, r3) \<Rightarrow> Some (PFloat (rat_of_int (sg * int (digits_val ip)) * pow10 e), r3)
             | None \<Rightarrow> Some (PInt (sg * int (digits_val ip)), r)))"

definition json_num :: "string \<Rightarrow> (pyval \<times> string) option" where
  "json_num s =
     (case s of
        [] \<Rightarrow> None
      | c # r \<Rightarrow> if c = CHR ''-'' then json_unum (- 1) r else json_unum 1 s)"

text \<open>Values. The first argument bounds the nesting and the number of elements; the length of
  the text is always enough (lemma \<open>json_loads_print\<close> needs no more).\<close>

fun json_val :: "nat \<Rightarrow> string \<Rightarrow> (pyval \<times> string) option"
  and json_elems :: "nat \<Rightarrow> string \<Rightarrow> (pyval list \<times> string) option"
  and json_pairs :: "nat \<Rightarrow> string \<Rightarrow> ((string \<times> pyval) list \<times> string) option" where
  "json_val 0 s = None"
| "json_val (Suc n) s =
     (case s of
        [] \<Rightarrow> None
      | c # r \<Rightarrow>
          if c = quote_ch then map_option (\<lambda>(w, rest). (PStr w, rest)) (json_str r)
          else if c = CHR ''['' then
            (case skip_ws r of
               [] \<Rightarrow> None
             | d # r1 \<Rightarrow> if d = CHR '']'' then Some (PList [], r1)
                          else map_option (\<lambda>(xs, rest). (PList xs, rest)) (json_elems n (d # r1)))
          else if c = CHR ''{'' then
            (case skip_ws r of
               [] \<Rightarrow> None
             | d # r1 \<Rightarrow> if d = CHR ''}'' then Some (PDict [], r1)
                          else map_option (\<lambda>(xs, rest). (PDict (fold (\<lambda>(k, v). AList.update k v) xs []), rest))
                                 (json_pairs n (d # r1)))
          else if starts_with ''null'' s then Some (PNone, drop 4 s)
          else if starts_with ''true'' s then Some (PBool True, drop 4 s)
          else if starts_with ''false'' s then Some (PBool False, drop 5 s)
          else json_num s)"
| "json_elems 0 s = None"
| "json_elems (Suc n) s =
     (case json_val n s of
        None \<Rightarrow> None
      | Some (v, r) \<Rightarrow>
          (case skip_ws r of
             [] \<Rightarrow> None
           | c # r1 \<Rightarrow>
               if c = CHR '']'' then Some ([v], r1)
               else if c = CHR '','' then
                 map_option (\<lambda>(vs, rest). (v # vs, rest)) (json_elems n (skip_ws r1))
               else None))"
| "json_pairs 0 s = None"
| "json_pairs (Suc n) s =
     (case s of
        [] \<Rightarrow> None
      | q # s1 \<Rightarrow>
          if q \<noteq> quote_ch then None
          else
            (case json_str s1 of
               None \<Rightarrow> None
             | Some (k, r) \<Rightarrow>
                 (case skip_ws r of
                    [] \<Rightarrow> None
                  | c # r1 \<Rightarrow>
                      if c \<noteq> CHR '':'' then None
                      else
                        (case json_val n (skip_ws r1) of
                           None \<Rightarrow> None
                         | Some (v, r2) \<Rightarrow>
                             (case skip_ws r2 of
                                [] \<Rightarrow> None
                              | e # r3 \<Rightarrow>
                                  if e = CHR ''}'' then Some ([(k, v)], r3)
                                  else if e = CHR '','' then
                                    map_option (\<lambda>(ps, rest). ((k, v) # ps, rest))
                                      (json_pairs n (skip_ws r3))
                                  else None)))))"

definition json_loads :: "string \<Rightarrow> pyval option" where
  "json_loads s =
     (case json_val (Suc (length s)) (skip_ws s) of
        None \<Rightarrow> None
      | Some (v, r) \<Rightarrow> if skip_ws r = [] then Some v else None)"

section \<open>Reading what was printed\<close>

lemma hex_val_hex_char: "d < 16 \<Longrightarrow> hex_val (hex_char d) = Some d"
  by (auto simp: hex_val_def hex_char_def ch_code_def Let_def)

lemma simple_unesc_esc:
  "simple_esc c = Some e \<Longrightarrow> simple_unesc e = Some c \<and> e \<noteq> CHR ''u''"
  by (auto simp: simple_esc_def simple_unesc_def quote_ch_def bslash_def split: if_splits)

lemma hex4_esc: "hex4 (CHR ''0'') (CHR ''0'') (hex_char (ch_code c div 16)) (hex_char (ch_code c mod 16))
  = Some (ch_code c)"
proof -
  have "ch_code c < 256" by (simp add: ch_code_def)
  then have "ch_code c div 16 < 16" by simp
  moreover have "hex_val (CHR ''0'') = Some 0" by (simp add: hex_val_def ch_code_def Let_def)
  ultimately show ?thesis by (simp add: hex4_def hex_val_hex_char)
qed

lemma json_str_esc: "json_str (esc_ch c @ w) = push_ch c (json_str w)"
proof (cases "simple_esc c")
  case (Some e)
  have "bslash \<noteq> quote_ch" by (simp add: quote_ch_def bslash_def)
  then show ?thesis using Some simple_unesc_esc [OF Some]
    by (simp add: esc_ch_def)
next
  case None
  then have nq: "c \<noteq> quote_ch" "c \<noteq> bslash" by (auto simp: simple_esc_def split: if_splits)
  have ne: "bslash \<noteq> quote_ch" by (simp add: quote_ch_def bslash_def)
  have lt: "ch_code c < 256" "char_of (ch_code c) = c" by (simp_all add: ch_code_def)
  show ?thesis using None nq ne lt by (simp add: esc_ch_def hex4_esc)
qed

lemma json_str_body: "json_str (concat (map esc_ch s) @ quote_ch # rest) = Some (s, rest)"
  by (induction s) (simp_all add: json_str_esc push_ch_def del: json_str.simps(2),
                    simp add: json_str.simps(2))

text \<open>What may follow a number without becoming part of it.\<close>

definition num_end :: "string \<Rightarrow> bool" where
  "num_end r \<longleftrightarrow> (r = [] \<or> (\<not> ch_digit (hd r) \<and> hd r \<noteq> CHR ''.'' \<and> hd r \<noteq> CHR ''e'' \<and> hd r \<noteq> CHR ''E''))"

lemma takeWhile_digits:
  "list_all ch_digit ds \<Longrightarrow> num_end r \<Longrightarrow> takeWhile ch_digit (ds @ r) = ds"
  by (induction ds) (cases r; auto simp: num_end_def)+

lemma json_exp_frac_end: "num_end r \<Longrightarrow> json_frac r = None \<and> json_exp r = None"
  by (cases r) (auto simp: num_end_def json_frac_def json_exp_def)

lemma show_nat_not_minus: "show_nat n = c # r \<Longrightarrow> ch_digit c"
  using show_nat_digits [of n] by simp

lemma show_nat_zero: "hd (show_nat n) = CHR ''0'' \<Longrightarrow> show_nat n = [CHR ''0'']"
proof (cases "n < 10")
  case True
  then show "hd (show_nat n) = CHR ''0'' \<Longrightarrow> show_nat n = [CHR ''0'']"
    by (simp add: show_nat.simps [of n])
next
  case False
  then show "hd (show_nat n) = CHR ''0'' \<Longrightarrow> show_nat n = [CHR ''0'']"
    using show_nat_hd [of n] by simp
qed

lemma int_part_show_nat: "num_end r \<Longrightarrow> int_part (show_nat n @ r) = show_nat n"
  using takeWhile_digits [of "show_nat n" r] show_nat_digits [of n] show_nat_zero [of n]
  by (auto simp: int_part_def Let_def)

lemma json_unum_nat:
  assumes "num_end r"
  shows "json_unum sg (show_nat n @ r) = Some (PInt (sg * int n), r)"
  using json_exp_frac_end [OF assms] show_nat_digits [of n]
  by (simp add: json_unum_def Let_def int_part_show_nat [OF assms])

lemma json_num_nat: "num_end r \<Longrightarrow> json_num (show_nat n @ r) = Some (PInt (int n), r)"
proof -
  assume r: "num_end r"
  obtain c w where cw: "show_nat n = c # w" using show_nat_digits [of n] by (cases "show_nat n") auto
  then have "ch_digit c" using show_nat_not_minus by blast
  then have "c \<noteq> CHR ''-''" by (auto simp: ch_digit_def ch_code_def Let_def)
  then have "json_num (show_nat n @ r) = json_unum 1 (show_nat n @ r)"
    by (simp add: json_num_def cw)
  then show ?thesis using r by (simp add: json_unum_nat)
qed

lemma json_num_int: "num_end r \<Longrightarrow> json_num (show_int i @ r) = Some (PInt i, r)"
  by (auto simp: show_int_def json_num_nat json_unum_nat, simp add: json_num_def json_unum_nat)

text \<open>Values whose objects have distinct keys and that hold no float.\<close>

fun json_canon :: "pyval \<Rightarrow> bool" and json_canons :: "pyval list \<Rightarrow> bool"
  and json_canond :: "(string \<times> pyval) list \<Rightarrow> bool" where
  "json_canon (PFloat q) = False"
| "json_canon (PList xs) = json_canons xs"
| "json_canon (PDict d) = (distinct (map fst d) \<and> json_canond d)"
| "json_canon v = True"
| "json_canons [] = True"
| "json_canons (x # xs) = (json_canon x \<and> json_canons xs)"
| "json_canond [] = True"
| "json_canond ((k, v) # d) = (json_canon v \<and> json_canond d)"

definition json_start :: "char \<Rightarrow> bool" where
  "json_start c \<longleftrightarrow> \<not> json_ws c \<and> c \<noteq> CHR '']'' \<and> c \<noteq> CHR ''}''"

lemma json_start_digit: "ch_digit c \<Longrightarrow> json_start c"
  by (auto simp: json_start_def json_ws_def ch_digit_def ch_code_def Let_def)

lemma show_int_start: "\<exists>c w. show_int i = c # w \<and> (ch_digit c \<or> c = CHR ''-'')"
proof (cases "i < 0")
  case False
  obtain c w where cw: "show_nat (nat i) = c # w"
    using show_nat_digits [of "nat i"] by (cases "show_nat (nat i)") auto
  with False show ?thesis using show_nat_not_minus by (auto simp: show_int_def)
qed (simp add: show_int_def)

lemma json_print_start: "json_canon v \<Longrightarrow> \<exists>c w. json_print v = c # w \<and> json_start c"
proof (cases v)
  case (PInt i)
  have "json_start (CHR ''-'')" by (simp add: json_start_def json_ws_def)
  then show ?thesis using PInt show_int_start [of i] json_start_digit by auto
qed (auto simp: json_string_def json_start_def json_ws_def quote_ch_def)

lemma skip_ws_start: "json_start c \<Longrightarrow> skip_ws (c # w) = c # w"
  by (simp add: skip_ws_def json_start_def)

lemma skip_ws_cons: "\<not> json_ws c \<Longrightarrow> skip_ws (c # w) = c # w"
  by (simp add: skip_ws_def)

lemma skip_ws_space: "skip_ws (CHR '' '' # w) = skip_ws w"
  by (simp add: skip_ws_def json_ws_def)

lemma skip_ws_print: "json_canon v \<Longrightarrow> skip_ws (json_print v @ r) = json_print v @ r"
  using json_print_start [of v] skip_ws_start by auto

lemma json_val_int:
  assumes "num_end r"
  shows "json_val (Suc n) (show_int i @ r) = Some (PInt i, r)"
proof -
  obtain c w where cw: "show_int i = c # w" and c: "ch_digit c \<or> c = CHR ''-''"
    using show_int_start [of i] by blast
  have ne: "c \<noteq> quote_ch \<and> c \<noteq> CHR ''['' \<and> c \<noteq> CHR ''{'' \<and> c \<noteq> CHR ''n'' \<and> c \<noteq> CHR ''t'' \<and> c \<noteq> CHR ''f''"
    using c by (auto simp: ch_digit_def ch_code_def Let_def quote_ch_def)
  have "json_val (Suc n) (show_int i @ r) = json_num (show_int i @ r)"
    using cw ne by (simp add: starts_with_def)
  then show ?thesis using assms by (simp add: json_num_int)
qed

lemma json_val_atoms:
  "json_val (Suc n) (json_string w @ r) = Some (PStr w, r)"
  "json_val (Suc n) (''null'' @ r) = Some (PNone, r)"
  "json_val (Suc n) (''true'' @ r) = Some (PBool True, r)"
  "json_val (Suc n) (''false'' @ r) = Some (PBool False, r)"
  using json_str_body [of w r]
  by (simp_all add: json_string_def starts_with_def quote_ch_def)

lemma fold_update_distinct:
  "distinct (map fst acc @ map fst xs) \<Longrightarrow> fold (\<lambda>(k, v). AList.update k v) xs acc = acc @ xs"
proof (induction xs arbitrary: acc)
  case (Cons p xs)
  obtain k v where p: "p = (k, v)" by fastforce
  have "k \<notin> fst ` set acc" using Cons.prems p by auto
  then have "AList.update k v acc = acc @ [(k, v)]" by (induction acc) auto
  then show ?case using Cons.IH [of "acc @ [(k, v)]"] Cons.prems p by simp
qed simp

lemma num_end_sep:
  "num_end [] \<and> num_end (CHR '','' # w) \<and> num_end (CHR '']'' # w) \<and> num_end (CHR ''}'' # w)"
  by (simp add: num_end_def ch_digit_def ch_code_def Let_def)

lemmas json_step = skip_ws_print skip_ws_space skip_ws_cons json_ws_def num_end_sep

lemma json_val_list:
  assumes "xs \<noteq> [] \<longrightarrow> json_elems m (json_prints xs @ rest) = Some (xs, rest)" and "json_canons xs"
  shows "json_val (Suc m) (json_print (PList xs) @ rest) = Some (PList xs, rest)"
proof (cases xs)
  case Nil
  then show ?thesis by (simp add: quote_ch_def json_step)
next
  case (Cons x ys)
  then obtain c w where cw: "json_print x = c # w" "json_start c"
    using json_print_start [of x] assms by auto
  obtain u where pr: "json_prints xs = c # u" using Cons cw by simp
  then have "json_elems m (c # u @ rest) = Some (xs, rest)"
    using assms Cons by simp
  then show ?thesis using pr cw
    by (simp add: quote_ch_def skip_ws_start, simp add: json_start_def)
qed

lemma json_val_dict:
  assumes "d \<noteq> [] \<longrightarrow> json_pairs m (json_printd d @ rest) = Some (d, rest)" and "distinct (map fst d)"
  shows "json_val (Suc m) (json_print (PDict d) @ rest) = Some (PDict d, rest)"
proof (cases d)
  case Nil
  then show ?thesis by (simp add: quote_ch_def json_step)
next
  case (Cons p ys)
  obtain k v where p: "p = (k, v)" by fastforce
  obtain w where pr: "json_printd d = quote_ch # w" using Cons p by (simp add: json_string_def)
  then have el: "json_pairs m (quote_ch # w @ rest) = Some (d, rest)"
    using assms Cons by simp
  have "fold (\<lambda>(k, v). AList.update k v) d [] = d"
    using fold_update_distinct [of "[]" d] assms by simp
  then show ?thesis using pr el
    by (simp add: quote_ch_def skip_ws_cons json_ws_def)
qed

lemma json_elems_cons:
  assumes v: "\<And>r. num_end r \<Longrightarrow> json_val m (json_print x @ r) = Some (x, r)"
    and e: "xs \<noteq> [] \<longrightarrow> json_elems m (json_prints xs @ rest) = Some (xs, rest)" and c: "json_canons xs"
  shows "json_elems (Suc m) (json_prints (x # xs) @ rest) = Some (x # xs, rest)"
proof (cases xs)
  case Nil
  then show ?thesis using v [of "CHR '']'' # rest"] by (simp add: json_step)
next
  case (Cons y ys)
  then have "skip_ws (json_prints xs @ rest) = json_prints xs @ rest"
    using c skip_ws_print [of y] by simp
  then show ?thesis
    using e Cons v [of "CHR '','' # CHR '' '' # json_prints xs @ rest"] by (simp add: json_step)
qed

lemma json_pairs_cons:
  assumes v: "\<And>r. num_end r \<Longrightarrow> json_val m (json_print x @ r) = Some (x, r)"
    and e: "d \<noteq> [] \<longrightarrow> json_pairs m (json_printd d @ rest) = Some (d, rest)" and c: "json_canon x"
  shows "json_pairs (Suc m) (json_printd ((k, x) # d) @ rest) = Some ((k, x) # d, rest)"
proof (cases d)
  case Nil
  then show ?thesis using c v [of "CHR ''}'' # rest"]
    by (simp add: json_step json_string_def json_str_body)
next
  case (Cons y ys)
  then have "skip_ws (json_printd d @ rest) = json_printd d @ rest"
    by (cases y) (simp add: json_string_def skip_ws_cons json_ws_def quote_ch_def)
  then show ?thesis
    using e c Cons v [of "CHR '','' # CHR '' '' # json_printd d @ rest"]
    by (simp add: json_step json_string_def json_str_body)
qed

declare json_val.simps [simp del] json_elems.simps [simp del] json_pairs.simps [simp del]

lemma json_read_print:
  "json_canon v \<Longrightarrow> num_end rest \<Longrightarrow> length (json_print v) \<le> n
     \<Longrightarrow> json_val n (json_print v @ rest) = Some (v, rest)"
  "xs \<noteq> [] \<Longrightarrow> json_canons xs \<Longrightarrow> length (json_prints xs) \<le> n
     \<Longrightarrow> json_elems n (json_prints xs @ rest) = Some (xs, rest)"
  "d \<noteq> [] \<Longrightarrow> json_canond d \<Longrightarrow> length (json_printd d) \<le> n
     \<Longrightarrow> json_pairs n (json_printd d @ rest) = Some (d, rest)"
proof (induction v and xs and d arbitrary: n rest and n rest and n rest
       rule: json_print_json_prints_json_printd.induct)
  case (3 i)
  then show ?case using json_val_int show_int_start [of i] by (cases n) auto
next
  case (5 w)
  then obtain m where "n = Suc m" by (cases n) (auto simp: json_string_def)
  then show ?case by (simp only: json_print.simps json_val_atoms(1))
next
  case (6 xs)
  then obtain m where "n = Suc m" by (cases n) auto
  with 6 show ?case using json_val_list [of xs m rest] by simp
next
  case (7 d)
  then obtain m where "n = Suc m" by (cases n) auto
  with 7 show ?case using json_val_dict [of d m rest] by simp
next
  case (9 x xs)
  then obtain m where n: "n = Suc m" by (cases n) (auto split: if_splits)
  have "\<And>r. num_end r \<Longrightarrow> json_val m (json_print x @ r) = Some (x, r)"
    using "9.IH"(1) "9.prems" n by (simp split: if_splits)
  moreover have "xs \<noteq> [] \<longrightarrow> json_elems m (json_prints xs @ rest) = Some (xs, rest)"
    using "9.IH"(2) "9.prems" n by (auto split: if_splits)
  ultimately show ?case using "9.prems" n json_elems_cons [of m x xs rest] json_canons.simps(2) by blast
next
  case (11 k x d)
  then obtain m where n: "n = Suc m" by (cases n) (auto simp: json_string_def)
  have "\<And>r. num_end r \<Longrightarrow> json_val m (json_print x @ r) = Some (x, r)"
    using "11.IH"(1) "11.prems" n by (simp add: json_string_def split: if_splits)
  moreover have "d \<noteq> [] \<longrightarrow> json_pairs m (json_printd d @ rest) = Some (d, rest)"
    using "11.IH"(2) "11.prems" n by (auto split: if_splits)
  ultimately show ?case using "11.prems" n json_pairs_cons [of m x d rest k] json_canond.simps(2) by blast
next
  case 1
  then obtain m where "n = Suc m" by (cases n) auto
  then show ?case by (simp only: json_print.simps json_val_atoms(2))
next
  case (2 b)
  then obtain m where "n = Suc m" by (cases n) (auto split: if_splits)
  then show ?case by (cases b) (simp_all only: json_print.simps if_True if_False json_val_atoms(3,4))
qed simp_all

theorem json_loads_print: "json_canon v \<Longrightarrow> json_loads (json_print v) = Some v"
  using json_read_print(1) [of v "[]" "Suc (length (json_print v))"] skip_ws_print [of v "[]"]
  by (simp add: json_loads_def num_end_sep skip_ws_def)

text \<open>Sorting the keys keeps a value canonical, so \<open>json.loads(json.dumps(v, sort_keys=True))\<close> is \<open>v\<close>
  with its keys sorted.\<close>

lemma json_canons_all: "json_canons xs \<longleftrightarrow> list_all json_canon xs"
  by (induction xs) auto

lemma json_canond_all: "json_canond d \<longleftrightarrow> list_all (json_canon \<circ> snd) d"
  by (induction d) auto

lemma json_sortd_map: "json_sortd d = map (\<lambda>(k, v). (k, json_sort v)) d"
  by (induction d) auto

lemma json_canon_ok:
  "json_canon v \<Longrightarrow> json_ok v" "json_canons xs \<Longrightarrow> json_oks xs" "json_canond d \<Longrightarrow> json_okd d"
  by (induction v and xs and d rule: json_canon_json_canons_json_canond.induct) auto

lemma json_canon_sort:
  "json_canon v \<Longrightarrow> json_canon (json_sort v)" "json_canond d \<Longrightarrow> json_canond (json_sortd d)"
proof (induction v and d rule: json_sort_json_sortd.induct)
  case (1 xs)
  then show ?case by (simp add: json_canons_all list_all_iff)
next
  case (2 d)
  have "map fst (json_sortd d) = map fst d" by (simp add: json_sortd_map case_prod_beta')
  moreover have "mset (map fst (sort_key fst (json_sortd d))) = mset (map fst (json_sortd d))" by simp
  then have "distinct (map fst (sort_key fst (json_sortd d))) = distinct (map fst (json_sortd d))"
    by (rule mset_eq_imp_distinct_iff)
  ultimately show ?case using 2 by (simp add: json_canond_all list_all_iff)
qed simp_all

lemma json_loads_dumps:
  assumes "json_canon v"
  shows "\<exists>s. json_dumps v = Some s \<and> json_loads s = Some (json_sort v)"
  using json_loads_print [OF json_canon_sort(1) [OF assms]] json_canon_ok(1) [OF assms]
  by (simp add: json_dumps_def)

end
