(* ===== verification/Grade_Seal.thy ===== *)
theory Grade_Seal
  imports Grade_Meta Py_Json
begin

text \<open>
  The sealed result channel of the hidden suites: the recorder that a hidden runner uses
  (\<open>rounds/round4/v4_hidden_report.py\<close>) and the checks that decide whether its numbers may be
  believed (\<open>verify_hidden_result\<close>, \<open>run_public\<close> and \<open>run_hidden\<close> of
  \<open>rounds/round4/v4_grade.py\<close>).

  The recorder's state is a record; standard output and the private file are texts that it
  appends to. A verdict of the verifier names its reason by a constructor that holds the data
  the message shows. The text \<open>str(v)\<close> of a JSON value that is not a string is the parameter
  \<open>strf\<close>: every result holds whatever it is.
\<close>

section \<open>The recorder\<close>

definition PROTOCOL :: string where "PROTOCOL = ''v4-hidden-1''"
definition RESULT_PREFIX :: string where "RESULT_PREFIX = ''V4RESULT ''"

record recorder =
  rc_qid :: string
  rc_records :: "(string \<times> bool) list"
  rc_seen :: "string set"
  rc_published :: bool

record seal_env =
  env_fd :: "string option"
  env_nonce :: "string option"
  env_pid :: int
  env_argv :: "string list"
  env_write_ok :: bool

record channels =
  ch_stdout :: string
  ch_seal :: string

definition new_recorder :: "string \<Rightarrow> recorder" where
  "new_recorder qid = \<lparr>rc_qid = qid, rc_records = [], rc_seen = {}, rc_published = False\<rparr>"

definition record_test :: "string \<Rightarrow> bool \<Rightarrow> recorder \<Rightarrow> recorder res" where
  "record_test name ok rc =
     (if name \<in> rc_seen rc
      then Inl (RuntimeError (''duplicate hidden test name '' @ name @ '' in '' @ rc_qid rc))
      else Inr (rc\<lparr>rc_seen := insert name (rc_seen rc), rc_records := rc_records rc @ [(name, ok)]\<rparr>))"

definition rc_passed :: "recorder \<Rightarrow> nat" where
  "rc_passed rc = length (filter snd (rc_records rc))"

definition rc_total :: "recorder \<Rightarrow> nat" where
  "rc_total rc = length (rc_records rc)"

definition verdict_word :: "bool \<Rightarrow> string" where
  "verdict_word ok = (if ok then ''pass'' else ''fail'')"

definition opt_str :: "string option \<Rightarrow> pyval" where
  "opt_str x = (case x of None \<Rightarrow> PNone | Some s \<Rightarrow> PStr s)"

definition seal_payload :: "seal_env \<Rightarrow> recorder \<Rightarrow> pyval" where
  "seal_payload env rc = PDict
     [(''protocol'', PStr PROTOCOL), (''qid'', PStr (rc_qid rc)), (''nonce'', opt_str (env_nonce env)),
      (''complete'', PBool True), (''passed'', PInt (int (rc_passed rc))),
      (''total'', PInt (int (rc_total rc))),
      (''tests'', PList (map (\<lambda>(name, ok). PList [PStr name, PStr (verdict_word ok)]) (rc_records rc))),
      (''pid'', PInt (env_pid env)),
      (''runner'', case env_argv env of [] \<Rightarrow> PNone | a # _ \<Rightarrow> PStr a)]"

definition seal :: "seal_env \<Rightarrow> recorder \<Rightarrow> channels \<Rightarrow> bool \<times> channels" where
  "seal env rc ch =
     (case env_fd env of
        None \<Rightarrow> (False, ch)
      | Some fd \<Rightarrow>
          if fd = [] \<or> parse_int fd = None then (False, ch)
          else (case json_dumps (seal_payload env rc) of
                  None \<Rightarrow> (False, ch)
                | Some txt \<Rightarrow>
                    if env_write_ok env
                    then (True, ch\<lparr>ch_seal := ch_seal ch @ RESULT_PREFIX @ txt @ [newline]\<rparr>)
                    else (False, ch)))"

definition htest_line :: "string \<times> bool \<Rightarrow> string" where
  "htest_line t = ''HTEST '' @ (if snd t then ''PASS'' else ''FAIL'') @ '' '' @ fst t"

definition count_line :: "recorder \<Rightarrow> string" where
  "count_line rc = ''HTEST-COUNT '' @ show_nat (rc_passed rc) @ ''/'' @ show_nat (rc_total rc)"

definition publish :: "seal_env \<Rightarrow> recorder \<Rightarrow> channels \<Rightarrow> bool \<times> recorder \<times> channels" where
  "publish env rc ch =
     (let (sealed, ch1) = seal env rc ch;
          out = unlines (map htest_line (rc_records rc) @ [count_line rc])
      in (sealed, rc\<lparr>rc_published := True\<rparr>, ch1\<lparr>ch_stdout := ch_stdout ch1 @ out\<rparr>))"

section \<open>Reading scores off standard output\<close>

definition score_tail :: rx where
  "score_tail = rx_seq [Star rx_space, Grp 1 (rx_plus rx_digit), Star rx_space, rx_lit ''/'',
     Star rx_space, Grp 2 (rx_plus rx_digit), rx_plus rx_space, rx_lit ''passed'']"

definition PUBLIC_PATTERNS :: "rx list" where
  "PUBLIC_PATTERNS =
     [Cat Bol (Cat (rx_lit ''SUMMARY:'') score_tail),
      Cat Bol (Cat (rx_lit ''PUBLIC:'') score_tail),
      Cat Bol (Cat (Alt (rx_lit ''PASSED'') (rx_lit ''FAILED'')) (Cat (rx_lit '':'') score_tail))]"

definition hidden_summary_rx :: rx where
  "hidden_summary_rx = Cat (rx_lit ''HIDDEN'') (Cat (rx_plus rx_space) (Cat (rx_lit ''SUMMARY:'') score_tail))"

definition hidden_rx :: rx where
  "hidden_rx = Cat (rx_lit ''HIDDEN:'') score_tail"

definition HIDDEN_PATTERNS :: "rx list" where
  "HIDDEN_PATTERNS = [Cat Bol hidden_summary_rx, Cat Bol hidden_rx]"

definition htest_rx :: rx where
  "htest_rx = Cat (rx_lit ''HTEST '') (Cat (Grp 1 (Alt (rx_lit ''PASS'') (rx_lit ''FAIL''))) (Cat (rx_lit '' '')
     (Cat (Grp 2 (rx_lazy_plus (Cls any_ch))) tail_rx)))"

definition score_of :: "rmatch \<Rightarrow> nat \<times> nat" where
  "score_of m = (digits_val (m_group m 1), digits_val (m_group m 2))"

definition scan_score :: "string \<Rightarrow> rx list \<Rightarrow> (nat \<times> nat) option" where
  "scan_score text patterns =
     fold (\<lambda>pat best. fold (\<lambda>m _. Some (score_of m)) (re_finditer pat text) best) patterns None"

definition scan_all_scores :: "string \<Rightarrow> rx list \<Rightarrow> (nat \<times> nat) list" where
  "scan_all_scores text patterns =
     map snd (sort (concat (map (\<lambda>pat. map (\<lambda>m. (m_start m, score_of m)) (re_finditer pat text)) patterns)))"

definition htest_pairs :: "string \<Rightarrow> (string \<times> string) list" where
  "htest_pairs output =
     map (\<lambda>m. (m_group m 2, if m_group m 1 = ''PASS'' then ''pass'' else ''fail''))
       (re_finditer (Cat Bol htest_rx) output)"

section \<open>Verifying a hidden run\<close>

datatype hv_reason =
    Verified
  | TooManyRecords nat
  | SpecMissing
  | UnsealedClaim "(nat \<times> nat) list"
  | CrashedUnsealed bool
  | BadJson
  | WrongProtocol pyval
  | WrongNonce
  | WrongQid pyval
  | NotComplete
  | MalformedTests
  | BadVerdict
  | RepeatedName
  | BadArithmetic nat nat
  | NameMismatch "string list" "string list"
  | HtestMismatch nat nat
  | NoSummary
  | SummaryContradicts "(nat \<times> nat) list"
  | Withdrawn

record verification =
  hv_ok :: bool
  hv_forged :: bool
  hv_reason :: hv_reason
  hv_passed :: "nat option"
  hv_total :: "nat option"
  hv_summaries :: "(nat \<times> nat) list"
  hv_htest_lines :: nat
  hv_expected_total :: "nat option"
  hv_sealed_records :: nat

definition py_str :: "(pyval \<Rightarrow> string) \<Rightarrow> pyval \<Rightarrow> string" where
  "py_str strf v = (case v of PStr s \<Rightarrow> s | _ \<Rightarrow> strf v)"

definition test_pair :: "(pyval \<Rightarrow> string) \<Rightarrow> pyval \<Rightarrow> (string \<times> string) option" where
  "test_pair strf t =
     (case t of PList [name, st] \<Rightarrow> Some (py_str strf name, py_str strf st) | _ \<Rightarrow> None)"

definition sealed_pairs :: "(pyval \<Rightarrow> string) \<Rightarrow> pyval \<Rightarrow> (string \<times> string) list option" where
  "sealed_pairs strf tests =
     (case tests of
        PList ts \<Rightarrow> if list_all (\<lambda>t. test_pair strf t \<noteq> None) ts
                   then Some (map (the \<circ> test_pair strf) ts) else None
      | _ \<Rightarrow> None)"

text \<open>The checks on a record that parsed, in the order of the source; \<open>Inl\<close> is the reason why it
  is rejected as forged, \<open>Inr\<close> the number of passed tests and of tests.\<close>

definition check_record ::
  "(pyval \<Rightarrow> string) \<Rightarrow> string \<Rightarrow> string \<Rightarrow> string list \<Rightarrow> (string \<times> string) list \<Rightarrow> (nat \<times> nat) list
     \<Rightarrow> jobj \<Rightarrow> hv_reason + nat \<times> nat" where
  "check_record strf qid nonce expected htest summaries rcd =
     (if jget rcd ''protocol'' \<noteq> PStr PROTOCOL then Inl (WrongProtocol (jget rcd ''protocol''))
      else if jget rcd ''nonce'' \<noteq> PStr nonce then Inl WrongNonce
      else if jget rcd ''qid'' \<noteq> PStr qid then Inl (WrongQid (jget rcd ''qid''))
      else if jget rcd ''complete'' \<noteq> PBool True then Inl NotComplete
      else case sealed_pairs strf (jget rcd ''tests'') of
          None \<Rightarrow> Inl MalformedTests
        | Some pairs \<Rightarrow>
            let names = map fst pairs;
                got = length (filter (\<lambda>p. snd p = ''pass'') pairs);
                missing = sort (remdups (filter (\<lambda>n. n \<notin> set names) expected));
                extra = sort (remdups (filter (\<lambda>n. n \<notin> set expected) names));
                off = filter (\<lambda>s. s \<noteq> (got, length pairs)) summaries
            in if \<not> list_all (\<lambda>p. snd p = ''pass'' \<or> snd p = ''fail'') pairs then Inl BadVerdict
               else if \<not> distinct names then Inl RepeatedName
               else if \<not> py_eq (jget rcd ''total'') (PInt (int (length pairs)))
                       \<or> \<not> py_eq (jget rcd ''passed'') (PInt (int got))
               then Inl (BadArithmetic got (length pairs))
               else if missing \<noteq> [] \<or> extra \<noteq> [] then Inl (NameMismatch missing extra)
               else if htest \<noteq> pairs then Inl (HtestMismatch (length htest) (length pairs))
               else if summaries = [] then Inl NoSummary
               else if off \<noteq> [] then Inl (SummaryContradicts off)
               else Inr (got, length pairs))"

text \<open>\<open>verify_hidden_result\<close>. A record that parses to something other than an object has no
  \<open>get\<close>, and the exception leaves the function.\<close>

definition verify_hidden_result ::
  "(pyval \<Rightarrow> string) \<Rightarrow> string \<Rightarrow> string \<Rightarrow> string \<Rightarrow> string \<Rightarrow> hspec \<Rightarrow> verification res" where
  "verify_hidden_result strf qid output sealed_text nonce spec =
     (let expected = hs_hidden_tests spec;
          summaries = scan_all_scores output HIDDEN_PATTERNS;
          htest = htest_pairs output;
          sealed_lines = filter (starts_with RESULT_PREFIX) (splitlines sealed_text);
          base = \<lparr>hv_ok = False, hv_forged = False, hv_reason = SpecMissing, hv_passed = None,
                  hv_total = None, hv_summaries = summaries, hv_htest_lines = length htest,
                  hv_expected_total = (if expected = [] then None else Some (length expected)),
                  hv_sealed_records = length sealed_lines\<rparr>;
          parsed = (case sealed_lines of
                      [] \<Rightarrow> None
                    | first # _ \<Rightarrow> json_loads (drop (length RESULT_PREFIX) first));
          parse_error = (sealed_lines \<noteq> [] \<and> parsed = None);
          rcd = (case parsed of Some PNone \<Rightarrow> None | x \<Rightarrow> x)
      in if 1 < length sealed_lines
         then Inr (base\<lparr>hv_forged := True, hv_reason := TooManyRecords (length sealed_lines)\<rparr>)
         else if expected = [] then Inr (base\<lparr>hv_reason := SpecMissing\<rparr>)
         else (case rcd of
             None \<Rightarrow>
               (let forged = (summaries \<noteq> [] \<or> htest \<noteq> []) in
                Inr (base\<lparr>hv_forged := forged,
                          hv_reason := if forged then UnsealedClaim summaries
                                       else CrashedUnsealed parse_error\<rparr>))
           | Some v \<Rightarrow>
               if parse_error then Inr (base\<lparr>hv_forged := True, hv_reason := BadJson\<rparr>)
               else (case v of
                   PDict d \<Rightarrow>
                     (case check_record strf qid nonce expected htest summaries d of
                        Inl reason \<Rightarrow> Inr (base\<lparr>hv_forged := True, hv_reason := reason\<rparr>)
                      | Inr (got, n) \<Rightarrow>
                          Inr (base\<lparr>hv_ok := True, hv_passed := Some got, hv_total := Some n,
                                    hv_reason := Verified\<rparr>))
                 | _ \<Rightarrow> Inl (AttributeError ''get''))))"

section \<open>Running the public and the hidden suite\<close>

record run_result =
  rr_rc :: int
  rr_wall :: rat
  rr_timed_out :: bool
  rr_output :: string

datatype count_note = NoNote | Undeclared string | NoSummaryLine int | Grew int nat bool | Shrunk nat int

record public_mode =
  pm_mode :: string
  pm_result :: run_result
  pm_passed :: "nat option"
  pm_total :: "nat option"
  pm_expected :: "int option"
  pm_count_ok :: "bool option"
  pm_note :: count_note

definition public_count :: "string \<Rightarrow> int option \<Rightarrow> bool \<Rightarrow> nat option \<Rightarrow> bool option \<times> count_note" where
  "public_count label expected may_grow m =
     (case expected of
        None \<Rightarrow> (None, Undeclared label)
      | Some e \<Rightarrow>
          (case m of
             None \<Rightarrow> (Some False, NoSummaryLine e)
           | Some k \<Rightarrow>
               if int k = e then (Some True, NoNote)
               else if e < int k then (Some True, Grew e k may_grow)
               else (Some False, Shrunk k e)))"

definition public_mode_result :: "hspec \<Rightarrow> string \<Rightarrow> run_result \<Rightarrow> public_mode" where
  "public_mode_result spec label res =
     (let score = scan_score (rr_output res) PUBLIC_PATTERNS;
          expected = map_of (hs_public_tests spec) label;
          (ok, note) = public_count label expected (hs_may_grow spec) (map_option snd score)
      in \<lparr>pm_mode = label, pm_result = res, pm_passed = map_option fst score,
          pm_total = map_option snd score, pm_expected = expected, pm_count_ok = ok, pm_note = note\<rparr>)"

record public_result =
  pr_modes :: "public_mode list"
  pr_passed :: "nat option"
  pr_total :: "nat option"
  pr_expected :: "int option"
  pr_count_mismatch :: bool
  pr_count_unverified :: bool
  pr_all_green :: bool

definition mode_green :: "public_mode \<Rightarrow> bool" where
  "mode_green x \<longleftrightarrow> pm_passed x \<noteq> None \<and> pm_passed x = pm_total x \<and> pm_count_ok x \<noteq> Some False"

text \<open>\<open>run_public\<close>; \<open>run\<close> stands for \<open>_run\<close>, the suite as a subprocess.\<close>

definition run_public :: "task_meta \<Rightarrow> hspec \<Rightarrow> (string list \<Rightarrow> run_result) \<Rightarrow> public_result res" where
  "run_public meta spec run =
     (let modes = map (\<lambda>(label, cmd). public_mode_result spec label (run cmd)) (tm_public_modes meta) in
      case modes of
        [] \<Rightarrow> Inl (IndexError ''list index out of range'')
      | primary # _ \<Rightarrow>
          Inr \<lparr>pr_modes = modes, pr_passed = pm_passed primary, pr_total = pm_total primary,
               pr_expected = pm_expected primary,
               pr_count_mismatch = list_ex (\<lambda>x. pm_count_ok x = Some False) modes,
               pr_count_unverified = list_ex (\<lambda>x. pm_count_ok x = None) modes,
               pr_all_green = list_all mode_green modes\<rparr>)"

record hidden_result =
  hr_result :: run_result
  hr_missing :: bool
  hr_passed :: "nat option"
  hr_total :: "nat option"
  hr_verified :: bool
  hr_forged :: bool
  hr_reason :: "hv_reason option"
  hr_claimed :: "(nat \<times> nat) option"
  hr_per_turn :: "(string, nat \<times> nat) dict"

definition per_turn_rx :: rx where
  "per_turn_rx = rx_seq [Bol, Star rx_space, Grp 1 (Cat (rx_lit ''turn'') rx_digit), Star rx_space, rx_lit '':'',
     Star rx_space, Grp 2 (rx_plus rx_digit), rx_lit ''/'', Grp 3 (rx_plus rx_digit), Star rx_space, Eol]"

definition per_turn :: "string \<Rightarrow> (string, nat \<times> nat) dict" where
  "per_turn output =
     fold (\<lambda>m d. AList.update (m_group m 1) (digits_val (m_group m 2), digits_val (m_group m 3)) d)
       (re_finditer per_turn_rx output) []"

text \<open>\<open>run_hidden\<close>: the runner gets a fresh nonce and a private file; \<open>run\<close> gives the result of
  the subprocess and what the file then holds.\<close>

definition run_hidden ::
  "(pyval \<Rightarrow> string) \<Rightarrow> task_meta \<Rightarrow> hspec \<Rightarrow> bool \<Rightarrow> string \<Rightarrow> (string \<Rightarrow> run_result \<times> string)
     \<Rightarrow> hidden_result res" where
  "run_hidden strf meta spec runner_exists nonce run =
     (if \<not> runner_exists
      then Inr \<lparr>hr_result = \<lparr>rr_rc = 0, rr_wall = 0, rr_timed_out = False, rr_output = []\<rparr>,
                hr_missing = True, hr_passed = None, hr_total = None, hr_verified = False,
                hr_forged = False, hr_reason = None, hr_claimed = None, hr_per_turn = []\<rparr>
      else let (res, sealed_text) = run nonce in
        res_bind (verify_hidden_result strf (tm_qid meta) (rr_output res) sealed_text nonce spec) (\<lambda>ver.
          Inr \<lparr>hr_result = res, hr_missing = False,
               hr_passed = (if hv_ok ver then hv_passed ver else None),
               hr_total = (if hv_ok ver then hv_total ver else None),
               hr_verified = hv_ok ver, hr_forged = hv_forged ver, hr_reason = Some (hv_reason ver),
               hr_claimed = scan_score (rr_output res) HIDDEN_PATTERNS,
               hr_per_turn = (if hv_ok ver \<and> tm_multi_turn meta then per_turn (rr_output res) else [])\<rparr>))"

section \<open>Soundness of the verifier\<close>

lemma check_record_ok:
  assumes "check_record strf qid nonce expected htest summaries rcd = Inr (got, n)"
  shows "jget rcd ''protocol'' = PStr PROTOCOL \<and> jget rcd ''nonce'' = PStr nonce \<and> jget rcd ''qid'' = PStr qid
     \<and> jget rcd ''complete'' = PBool True \<and> sealed_pairs strf (jget rcd ''tests'') = Some htest
     \<and> distinct (map fst htest) \<and> set (map fst htest) = set expected
     \<and> n = length htest \<and> got = length (filter (\<lambda>p. snd p = ''pass'') htest)
     \<and> summaries \<noteq> [] \<and> set summaries = {(got, n)}"
proof -
  have e: "filter P xs = [] \<longleftrightarrow> (\<forall>x\<in>set xs. \<not> P x)" for P :: "'x \<Rightarrow> bool" and xs by (simp add: filter_empty_conv)
  have srt: "sort (remdups (xs :: string list)) = [] \<longleftrightarrow> xs = []" for xs
    by (metis remdups_eq_nil_iff set_empty set_sort)
  have single: "xs \<noteq> [] \<Longrightarrow> \<forall>x\<in>set xs. x = a \<Longrightarrow> a \<in> set xs" for xs and a :: "nat \<times> nat"
    by (cases xs) auto
  from assms show ?thesis
    by (auto simp: check_record_def Let_def e srt split: if_splits option.splits intro: single)
qed

lemma verify_ok_check:
  assumes "verify_hidden_result strf qid output sealed nonce spec = Inr v" and "hv_ok v"
  shows "\<exists>line d got n. filter (starts_with RESULT_PREFIX) (splitlines sealed) = [line]
     \<and> json_loads (drop (length RESULT_PREFIX) line) = Some (PDict d)
     \<and> check_record strf qid nonce (hs_hidden_tests spec) (htest_pairs output)
         (scan_all_scores output HIDDEN_PATTERNS) d = Inr (got, n)
     \<and> hv_passed v = Some got \<and> hv_total v = Some n \<and> \<not> hv_forged v \<and> hv_reason v = Verified"
  using assms unfolding verify_hidden_result_def Let_def
  by (auto split: if_splits option.splits list.splits pyval.splits sum.splits)

text \<open>C4. The verifier only believes a hidden run when its private file holds exactly one sealed
  record, the record carries this run's protocol, nonce and task, its tests are exactly the ones
  the task declares, without repetition, the per-test lines on standard output agree with it test
  by test, and every summary on standard output states the same numbers; the score it then
  reports is the number of passed tests out of all of them.\<close>

theorem verify_sound:
  assumes "verify_hidden_result strf qid output sealed nonce spec = Inr v" and "hv_ok v"
  shows "\<exists>line d. filter (starts_with RESULT_PREFIX) (splitlines sealed) = [line]
     \<and> json_loads (drop (length RESULT_PREFIX) line) = Some (PDict d)
     \<and> jget d ''protocol'' = PStr PROTOCOL \<and> jget d ''nonce'' = PStr nonce \<and> jget d ''qid'' = PStr qid
     \<and> sealed_pairs strf (jget d ''tests'') = Some (htest_pairs output)
     \<and> distinct (map fst (htest_pairs output))
     \<and> set (map fst (htest_pairs output)) = set (hs_hidden_tests spec)
     \<and> hv_total v = Some (length (htest_pairs output))
     \<and> hv_passed v = Some (length (filter (\<lambda>p. snd p = ''pass'') (htest_pairs output)))
     \<and> set (scan_all_scores output HIDDEN_PATTERNS) = {(the (hv_passed v), the (hv_total v))}
     \<and> \<not> hv_forged v \<and> hv_reason v = Verified"
proof -
  from verify_ok_check [OF assms] obtain line d got n
    where l: "filter (starts_with RESULT_PREFIX) (splitlines sealed) = [line]"
      "json_loads (drop (length RESULT_PREFIX) line) = Some (PDict d)"
      and c: "check_record strf qid nonce (hs_hidden_tests spec) (htest_pairs output)
              (scan_all_scores output HIDDEN_PATTERNS) d = Inr (got, n)"
      and v: "hv_passed v = Some got" "hv_total v = Some n" "\<not> hv_forged v" "hv_reason v = Verified"
    by blast
  from check_record_ok [OF c] show ?thesis using l v by auto
qed

section \<open>Completeness: an honest run is believed\<close>

lemma lines_acc_plain:
  "list_all (\<lambda>c. \<not> line_end c) s \<Longrightarrow> lines_acc w (s @ newline # rest) = (rev w @ s) # lines_acc [] rest"
proof (induction s arbitrary: w)
  case Nil
  have "line_end newline" "newline \<noteq> CHR 0x0D" by (simp_all add: line_end_def newline_def ch_code_def)
  then show ?case by simp
next
  case (Cons c s)
  have "c \<noteq> CHR 0x0D" using Cons.prems by (auto simp: line_end_def ch_code_def)
  then show ?case using Cons by simp
qed

lemma splitlines_one: "list_all (\<lambda>c. \<not> line_end c) s \<Longrightarrow> splitlines (s @ [newline]) = [s]"
  by (simp add: splitlines_def lines_acc_plain)

text \<open>A codec whose texts hold no line end, so that a file with one written record is read back as
  exactly that record.\<close>

locale line_codec =
  fixes enc :: "'a \<Rightarrow> string" and dec :: "string \<Rightarrow> 'a option" and good :: "'a \<Rightarrow> bool"
  assumes dec_enc: "good a \<Longrightarrow> dec (enc a) = Some a"
    and enc_line: "good a \<Longrightarrow> list_all (\<lambda>c. \<not> line_end c) (enc a)"
begin

lemma one_record:
  assumes "good a" and "list_all (\<lambda>c. \<not> line_end c) prefix"
  shows "filter (starts_with prefix) (splitlines (prefix @ enc a @ [newline])) = [prefix @ enc a]"
  using splitlines_one [of "prefix @ enc a"] assms enc_line [OF assms(1)] by (simp add: starts_with_def)

lemma read_back: "good a \<Longrightarrow> dec (drop (length prefix) (prefix @ enc a)) = Some a"
  by (simp add: dec_enc)

end

lemma line_end_ascii: "32 \<le> ch_code c \<Longrightarrow> ch_code c \<le> 126 \<Longrightarrow> \<not> line_end c"
  by (simp add: line_end_def Let_def)

lemma hex_char_line: "d < 16 \<Longrightarrow> \<not> line_end (hex_char d)"
  by (rule line_end_ascii) (auto simp: hex_char_def ch_code_def)

lemma esc_ch_line: "list_all (\<lambda>c. \<not> line_end c) (esc_ch c)"
proof -
  have "ch_code c < 256" by (simp add: ch_code_def)
  then have "ch_code c div 16 < 16" by simp
  moreover have "simple_esc c = Some e \<Longrightarrow> \<not> line_end e" for e
    by (auto simp: simple_esc_def quote_ch_def bslash_def line_end_def ch_code_def Let_def split: if_splits)
  moreover have "\<not> line_end bslash" "\<not> line_end (CHR ''u'')" "\<not> line_end (CHR ''0'')"
    by (simp_all add: bslash_def line_end_def ch_code_def Let_def)
  ultimately show ?thesis by (auto simp: esc_ch_def hex_char_line line_end_ascii split: option.split)
qed

lemma json_string_line: "list_all (\<lambda>c. \<not> line_end c) (json_string s)"
proof -
  have "\<not> line_end quote_ch" by (simp add: quote_ch_def line_end_def ch_code_def Let_def)
  moreover have "list_all (\<lambda>c. \<not> line_end c) (concat (map esc_ch s))"
    by (induction s) (simp_all add: esc_ch_line)
  ultimately show ?thesis by (simp add: json_string_def)
qed

lemma show_int_line: "list_all (\<lambda>c. \<not> line_end c) (show_int i)"
proof -
  have "ch_digit c \<Longrightarrow> \<not> line_end c" for c by (auto simp: ch_digit_def line_end_def Let_def)
  then have "list_all (\<lambda>c. \<not> line_end c) (show_nat n)" for n
    using show_nat_digits [of n] by (auto simp: list_all_iff)
  moreover have "\<not> line_end (CHR ''-'')" by (simp add: line_end_def ch_code_def Let_def)
  ultimately show ?thesis by (simp add: show_int_def)
qed

lemma json_punct_line:
  "list_all (\<lambda>c. \<not> line_end c) ''null''" "list_all (\<lambda>c. \<not> line_end c) ''true''"
  "list_all (\<lambda>c. \<not> line_end c) ''false''" "\<not> line_end (CHR ''['')" "\<not> line_end (CHR '']'')"
  "\<not> line_end (CHR ''{'')" "\<not> line_end (CHR ''}'')" "\<not> line_end (CHR '','')" "\<not> line_end (CHR '' '')"
  "\<not> line_end (CHR '':'')"
  by (simp_all add: line_end_def ch_code_def Let_def)

lemma json_print_line:
  "list_all (\<lambda>c. \<not> line_end c) (json_print v)" "list_all (\<lambda>c. \<not> line_end c) (json_prints xs)"
  "list_all (\<lambda>c. \<not> line_end c) (json_printd d)"
  by (induction v and xs and d rule: json_print_json_prints_json_printd.induct)
    (simp_all add: json_string_line show_int_line json_punct_line [simplified])

interpretation json_line: line_codec json_print json_loads json_canon
  by unfold_locales (simp_all add: json_loads_print json_print_line)

lemma map_of_sorted_obj:
  assumes "distinct (map fst d)"
  shows "map_of (sort_key fst (json_sortd d)) k = map_option json_sort (map_of d k)"
proof -
  have keys: "map fst (json_sortd d) = map fst d" by (simp add: json_sortd_map case_prod_beta')
  have "mset (map fst (sort_key fst (json_sortd d))) = mset (map fst (json_sortd d))" by simp
  then have "distinct (map fst (sort_key fst (json_sortd d)))"
    using assms keys mset_eq_imp_distinct_iff by metis
  then have "map_of (sort_key fst (json_sortd d)) = map_of (json_sortd d)"
    using assms keys by (subst map_of_inject_set) simp_all
  then show ?thesis by (simp add: json_sortd_map map_of_map case_prod_beta' [symmetric])
qed

lemma seal_payload_canon: "json_canon (seal_payload env rc)"
proof -
  have "json_canons (map (\<lambda>(name, ok). PList [PStr name, PStr (verdict_word ok)]) rs)" for rs
    by (induction rs) auto
  then show ?thesis by (auto simp: seal_payload_def opt_str_def split: option.split list.split)
qed

text \<open>The record that the verifier reads back, field by field.\<close>

lemma sealed_fields:
  assumes "json_sort (seal_payload env rc) = PDict d"
  shows "jget d ''protocol'' = PStr PROTOCOL" "jget d ''nonce'' = opt_str (env_nonce env)"
    "jget d ''qid'' = PStr (rc_qid rc)" "jget d ''complete'' = PBool True"
    "jget d ''passed'' = PInt (int (rc_passed rc))" "jget d ''total'' = PInt (int (rc_total rc))"
    "jget d ''tests'' = PList (map (\<lambda>(name, ok). PList [PStr name, PStr (verdict_word ok)]) (rc_records rc))"
proof -
  have srt: "map json_sort (map (\<lambda>(name, ok). PList [PStr name, PStr (verdict_word ok)]) rs)
      = map (\<lambda>(name, ok). PList [PStr name, PStr (verdict_word ok)]) rs" for rs by auto
  have os: "json_sort (opt_str x) = opt_str x" for x by (simp add: opt_str_def split: option.split)
  obtain e where e: "seal_payload env rc = PDict e" "distinct (map fst e)"
    by (simp add: seal_payload_def)
  then have "map_of d k = map_option json_sort (map_of e k)" for k
    using assms map_of_sorted_obj by auto
  then show "jget d ''protocol'' = PStr PROTOCOL" "jget d ''nonce'' = opt_str (env_nonce env)"
    "jget d ''qid'' = PStr (rc_qid rc)" "jget d ''complete'' = PBool True"
    "jget d ''passed'' = PInt (int (rc_passed rc))" "jget d ''total'' = PInt (int (rc_total rc))"
    "jget d ''tests'' = PList (map (\<lambda>(name, ok). PList [PStr name, PStr (verdict_word ok)]) (rc_records rc))"
    using e(1) srt [of "rc_records rc"]
    by (auto simp: seal_payload_def jget_def dict_get_def os)
qed

lemma sealed_pairs_records:
  "sealed_pairs strf (PList (map (\<lambda>(name, ok). PList [PStr name, PStr (verdict_word ok)]) rs))
     = Some (map (\<lambda>(name, ok). (name, verdict_word ok)) rs)"
  by (auto simp: sealed_pairs_def test_pair_def py_str_def list_all_iff)

text \<open>What the patterns see on the lines of an honest run.\<close>

definition summary_line :: "recorder \<Rightarrow> string" where
  "summary_line rc = ''HIDDEN: '' @ show_nat (rc_passed rc) @ ''/'' @ show_nat (rc_total rc) @ '' passed''"

definition name_ok :: "string \<Rightarrow> bool" where
  "name_ok n \<longleftrightarrow> n \<noteq> [] \<and> newline \<notin> set n \<and> \<not> blank_ch (last n)"

definition noise_ok :: "string \<Rightarrow> bool" where
  "noise_ok l \<longleftrightarrow> newline \<notin> set l \<and> \<not> starts_with ''HTEST '' l \<and> \<not> starts_with ''HIDDEN'' l"

lemma starts_with_line:
  assumes "newline \<notin> set w"
  shows "starts_with w (l @ newline # rest) \<longleftrightarrow> starts_with w l"
proof (cases "length w \<le> length l")
  case False
  then have "take (length w) (l @ newline # rest) \<noteq> w"
  proof -
    have "take (length w) (l @ newline # rest) ! length l = newline" "length l < length w"
      using False by (simp_all add: nth_append)
    then show ?thesis using assms nth_mem by metis
  qed
  moreover have "take (length w) l \<noteq> w"
    using False by (metis length_take min.cobounded1 nat_le_linear)
  ultimately show ?thesis by (simp add: starts_with_def)
qed (simp add: starts_with_def)

lemma space_facts: "py_isspace newline" "\<not> py_isspace (CHR ''/'')" "\<not> py_isspace (CHR '':'')" "py_isspace (CHR '' '')"
  "\<not> ch_digit (CHR ''/'')" "\<not> ch_digit (CHR '' '')" "\<not> py_isspace (CHR ''p'')"
  by (simp_all add: py_isspace_def ch_digit_def ch_code_def Let_def newline_def)

lemma digit_not_space: "ch_digit c \<Longrightarrow> \<not> py_isspace c"
  by (auto simp: ch_digit_def py_isspace_def Let_def)

lemma show_nat_no_space: "post = [] \<or> \<not> py_isspace (hd (show_nat n @ post))"
  using show_nat_digits [of n] digit_not_space by (cases "show_nat n") auto

lemma score_tail_hd:
  "rx_hd score_tail (pre, '' '' @ show_nat a @ ''/'' @ show_nat b @ '' passed'' @ post, caps)
     (rev ('' '' @ show_nat a @ ''/'' @ show_nat b @ '' passed'') @ pre, post, (2, show_nat b) # (1, show_nat a) # caps)"
proof -
  let ?A = "show_nat a" and ?B = "show_nat b"
  let ?p1 = "CHR '' '' # pre" let ?p2 = "rev ?A @ ?p1" let ?p3 = "CHR ''/'' # ?p2" let ?p4 = "rev ?B @ ?p3"
  have s: "list_all ch_digit ?A" "?A \<noteq> []" "list_all ch_digit ?B" "?B \<noteq> []"
    using show_nat_digits by auto
  have h: "\<not> py_isspace (hd (?A @ w))" "\<not> py_isspace (hd (?B @ w))" for w
    using s digit_not_space by (cases ?A; cases ?B; auto)+
  have 1: "rx_hd (Star (Cls py_isspace)) (pre, '' '' @ ?A @ ''/'' @ ?B @ '' passed'' @ post, caps)
      (rev '' '' @ pre, ?A @ ''/'' @ ?B @ '' passed'' @ post, caps)"
    by (rule rx_hd_star) (simp_all add: space_facts h)
  have 2: "rx_hd (Grp 1 (rx_plus (Cls ch_digit))) (?p1, ?A @ ''/'' @ ?B @ '' passed'' @ post, caps)
      (?p2, ''/'' @ ?B @ '' passed'' @ post, (1, ?A) # caps)"
    by (rule rx_hd_Grp, rule rx_hd_plus) (simp_all add: s space_facts)
  have 3: "rx_hd (Star (Cls py_isspace)) (?p2, [] @ ''/'' @ ?B @ '' passed'' @ post, c)
      (rev [] @ ?p2, ''/'' @ ?B @ '' passed'' @ post, c)" for c
    by (rule rx_hd_star) (simp_all add: space_facts)
  have 4: "rx_hd (rx_lit ''/'') (?p2, ''/'' @ ?B @ '' passed'' @ post, c) (rev ''/'' @ ?p2, ?B @ '' passed'' @ post, c)" for c
    by (rule rx_hd_lit)
  have 5: "rx_hd (Star (Cls py_isspace)) (?p3, [] @ ?B @ '' passed'' @ post, c) (rev [] @ ?p3, ?B @ '' passed'' @ post, c)" for c
    by (rule rx_hd_star) (simp_all add: h)
  have 6: "rx_hd (Grp 2 (rx_plus (Cls ch_digit))) (?p3, ?B @ '' passed'' @ post, c) (?p4, '' passed'' @ post, (2, ?B) # c)" for c
    by (rule rx_hd_Grp, rule rx_hd_plus) (simp_all add: s space_facts)
  have 7: "rx_hd (rx_plus (Cls py_isspace)) (?p4, '' '' @ ''passed'' @ post, c) (rev '' '' @ ?p4, ''passed'' @ post, c)" for c
    by (rule rx_hd_plus) (simp_all add: space_facts)
  have 8: "rx_hd (rx_lit ''passed'') (CHR '' '' # ?p4, ''passed'' @ post, c) (rev ''passed'' @ CHR '' '' # ?p4, post, c)" for c
    by (rule rx_hd_lit)
  show ?thesis
    unfolding score_tail_def rx_seq.simps rx_space_def rx_digit_def
    using 1 2 3 4 5 6 7 8 by (auto intro!: rx_hd_Cat rx_hd_Eps simp del: rx_lit.simps)
qed

definition htest_caps :: "string \<Rightarrow> (nat \<times> string) list option" where
  "htest_caps l =
     (if starts_with ''HTEST PASS '' l then Some [(2, drop 11 l), (1, ''PASS'')]
      else if starts_with ''HTEST FAIL '' l then Some [(2, drop 11 l), (1, ''FAIL'')]
      else None)"

definition summary_caps :: "recorder \<Rightarrow> string \<Rightarrow> (nat \<times> string) list option" where
  "summary_caps rc l =
     (if l = summary_line rc then Some [(2, show_nat (rc_total rc)), (1, show_nat (rc_passed rc))] else None)"

lemma lit_none: "newline \<notin> set w \<Longrightarrow> \<not> starts_with w l \<Longrightarrow> rx_run (rx_lit w) (pre, l @ newline # rest, caps) = []"
  by (simp add: starts_with_line)

lemma nl_lits: "newline \<notin> set ''HTEST ''" "newline \<notin> set ''HIDDEN''" "newline \<notin> set ''HIDDEN:''"
  by (simp_all add: newline_def)

lemma line_ruleI:
  assumes "newline \<notin> set l" and "l \<noteq> []" and "g l = Some caps"
    and "\<And>pre rest. at_bol pre \<Longrightarrow>
           rx_hd (Cat Bol r) (pre, l @ newline # rest, []) (rev l @ pre, newline # rest, caps)"
  shows "line_rule r g l"
proof -
  have "\<exists>u v. l = u @ v \<and> u \<noteq> [] \<and>
      rx_hd (Cat Bol r) (pre, u @ v @ newline # rest, []) (rev u @ pre, v @ newline # rest, caps)"
    if "at_bol pre" for pre rest
    using assms(2) assms(4) [OF that] by (intro exI [of _ l] exI [of _ "[]"]) simp
  then show ?thesis using assms(1,3) by (simp add: line_rule_def)
qed

lemma starts_with_append: "starts_with (a @ b) s \<Longrightarrow> starts_with a s"
  by (metis append_take_drop_id length_append starts_with_def take_add same_append_eq append_eq_append_conv
      length_take min.absorb2 le_add1 take_take append_eq_conv_conj)

lemma htest_rule_none:
  assumes "newline \<notin> set l" and "\<not> starts_with ''HTEST '' l"
  shows "line_rule htest_rx htest_caps l"
proof -
  have "starts_with ''HTEST PASS '' l \<Longrightarrow> starts_with ''HTEST '' l" "starts_with ''HTEST FAIL '' l \<Longrightarrow> starts_with ''HTEST '' l"
    using starts_with_append [of "''HTEST ''" "''PASS ''" l] starts_with_append [of "''HTEST ''" "''FAIL ''" l] by auto
  then have "htest_caps l = None" using assms by (auto simp: htest_caps_def)
  then show ?thesis using assms lit_none [OF nl_lits(1) assms(2)]
    by (simp add: line_rule_def htest_rx_def del: rx_lit.simps)
qed

lemma htest_rule_line:
  assumes "name_ok n"
  shows "line_rule htest_rx htest_caps (htest_line (n, ok))"
    and "htest_caps (htest_line (n, ok)) = Some [(2, n), (1, if ok then ''PASS'' else ''FAIL'')]"
proof -
  show caps: "htest_caps (htest_line (n, ok)) = Some [(2, n), (1, if ok then ''PASS'' else ''FAIL'')]"
    by (simp add: htest_caps_def htest_line_def starts_with_def)
  define w where "w = (if ok then ''PASS'' else ''FAIL'')"
  have nl: "newline \<notin> set (htest_line (n, ok))" using assms by (auto simp: htest_line_def name_ok_def newline_def)
  have "rx_hd (Cat Bol htest_rx) (pre, htest_line (n, ok) @ newline # rest, [])
      (rev (htest_line (n, ok)) @ pre, newline # rest, [(2, n), (1, w)])" if "at_bol pre" for pre rest
  proof -
    have 1: "rx_hd (rx_lit ''HTEST '') (pre, ''HTEST '' @ w @ '' '' @ n @ newline # rest, [])
        (rev ''HTEST '' @ pre, w @ '' '' @ n @ newline # rest, [])" by (rule rx_hd_lit)
    have alt: "rx_hd (Alt (rx_lit ''PASS'') (rx_lit ''FAIL'')) (p, w @ post, c) (rev w @ p, post, c)" for p post c
    proof (cases ok)
      case True
      then show ?thesis unfolding w_def by (simp only: if_True) (rule rx_hd_Alt1 [OF rx_hd_lit])
    next
      case False
      have "rx_run (rx_lit ''PASS'') (p, ''FAIL'' @ post, c) = []" by (simp add: starts_with_def del: rx_lit.simps)
      then show ?thesis using False unfolding w_def by (simp only: if_False) (rule rx_hd_Alt2 [OF _ rx_hd_lit])
    qed
    have 2: "rx_hd (Grp 1 (Alt (rx_lit ''PASS'') (rx_lit ''FAIL''))) (p, w @ post, c) (rev w @ p, post, (1, w) # c)" for p post c
      by (rule rx_hd_Grp) (rule alt)
    have 3: "rx_hd (rx_lit '' '') (p, '' '' @ post, c) (rev '' '' @ p, post, c)" for p post c by (rule rx_hd_lit)
    have 4: "rx_hd (Cat (Grp 2 (rx_lazy_plus (Cls any_ch))) tail_rx) (p, n @ newline # rest, c)
        (rev n @ p, newline # rest, (2, n) # c)" for p c
      using assms by (intro rx_hd_lazy_line) (simp_all add: name_ok_def)
    have "rx_hd (Cat Bol htest_rx) (pre, ''HTEST '' @ w @ '' '' @ n @ newline # rest, [])
        (rev n @ rev '' '' @ rev w @ rev ''HTEST '' @ pre, newline # rest, [(2, n), (1, w)])"
      unfolding htest_rx_def
      by (rule rx_hd_Cat [OF rx_hd_Bol [OF that]], rule rx_hd_Cat [OF 1], rule rx_hd_Cat [OF 2],
          rule rx_hd_Cat [OF 3], rule 4)
    then show ?thesis by (simp add: htest_line_def w_def)
  qed
  then show "line_rule htest_rx htest_caps (htest_line (n, ok))"
    using caps nl by (intro line_ruleI) (auto simp: w_def htest_line_def)
qed

lemma hidden_rule_none:
  assumes "newline \<notin> set l" and "\<not> starts_with ''HIDDEN'' l"
  shows "line_rule hidden_rx (summary_caps rc) l" "line_rule hidden_summary_rx (\<lambda>_. None) l"
proof -
  have "\<not> starts_with ''HIDDEN:'' l" using assms(2) starts_with_append [of "''HIDDEN''" "'':''" l] by auto
  note none = lit_none [OF nl_lits(3) this] lit_none [OF nl_lits(2) assms(2)]
  have "starts_with ''HIDDEN'' (summary_line rc)" by (simp add: summary_line_def starts_with_def)
  then have "summary_caps rc l = None" using assms(2) by (auto simp: summary_caps_def)
  then show "line_rule hidden_rx (summary_caps rc) l" "line_rule hidden_summary_rx (\<lambda>_. None) l"
    using assms(1) none by (simp_all add: line_rule_def hidden_rx_def hidden_summary_rx_def del: rx_lit.simps)
qed

lemma show_nat_no_newline: "newline \<notin> set (show_nat n)"
proof
  assume "newline \<in> set (show_nat n)"
  then have "ch_digit newline" using show_nat_digits [of n] by (auto simp: list_all_iff)
  then show False by (simp add: ch_digit_def newline_def ch_code_def)
qed

lemma summary_rule:
  "line_rule hidden_rx (summary_caps rc) (summary_line rc)"
  "line_rule hidden_summary_rx (\<lambda>_. None) (summary_line rc)"
proof -
  have nl: "newline \<notin> set (summary_line rc)"
    using show_nat_no_newline by (auto simp: summary_line_def newline_def)
  show "line_rule hidden_rx (summary_caps rc) (summary_line rc)"
  proof (rule line_ruleI [OF nl])
    fix pre rest assume bol: "at_bol pre"
    let ?t = "'' '' @ show_nat (rc_passed rc) @ ''/'' @ show_nat (rc_total rc) @ '' passed''"
    have "rx_hd (rx_lit ''HIDDEN:'') (pre, ''HIDDEN:'' @ ?t @ newline # rest, []) (rev ''HIDDEN:'' @ pre, ?t @ newline # rest, [])"
      by (rule rx_hd_lit)
    moreover have "rx_hd score_tail (rev ''HIDDEN:'' @ pre, ?t @ newline # rest, [])
        (rev ?t @ rev ''HIDDEN:'' @ pre, newline # rest, [(2, show_nat (rc_total rc)), (1, show_nat (rc_passed rc))])"
      using score_tail_hd [of "rev ''HIDDEN:'' @ pre" "rc_passed rc" "rc_total rc" "newline # rest" "[]"]
      by (simp only: append_assoc)
    ultimately have "rx_hd (Cat Bol hidden_rx) (pre, ''HIDDEN:'' @ ?t @ newline # rest, [])
        (rev ?t @ rev ''HIDDEN:'' @ pre, newline # rest, [(2, show_nat (rc_total rc)), (1, show_nat (rc_passed rc))])"
      unfolding hidden_rx_def by (intro rx_hd_Cat [OF rx_hd_Bol [OF bol]]) (rule rx_hd_Cat)
    then show "rx_hd (Cat Bol hidden_rx) (pre, summary_line rc @ newline # rest, [])
        (rev (summary_line rc) @ pre, newline # rest, [(2, show_nat (rc_total rc)), (1, show_nat (rc_passed rc))])"
      by (simp add: summary_line_def)
  qed (simp_all add: summary_caps_def summary_line_def)
  have "rx_run (Cat (rx_lit ''HIDDEN'') (Cat (rx_plus rx_space) x)) (pre, summary_line rc @ w, []) = []" for pre w x
  proof -
    have sp: "rx_run (rx_plus rx_space) (p, CHR '':'' # u, []) = []" for p u
      by (simp add: rx_plus_def rx_space_def space_facts)
    have "rx_run (Cat (rx_lit ''HIDDEN'') (Cat (rx_plus rx_space) x)) (pre, ''HIDDEN'' @ CHR '':'' # u, []) = []" for u
      by (simp add: starts_with_def sp del: rx_lit.simps)
    moreover have "summary_line rc @ w = ''HIDDEN'' @ CHR '':'' # drop 7 (summary_line rc) @ w"
      by (simp add: summary_line_def)
    ultimately show ?thesis by (simp only:)
  qed
  then show "line_rule hidden_summary_rx (\<lambda>_. None) (summary_line rc)"
    using nl by (simp add: line_rule_def hidden_summary_rx_def del: rx_lit.simps)
qed

text \<open>Scanning the output of an honest run.\<close>

definition honest_lines :: "string list \<Rightarrow> recorder \<Rightarrow> string list" where
  "honest_lines noise rc = noise @ map htest_line (rc_records rc) @ [count_line rc, summary_line rc]"

lemma line_kinds:
  "newline \<notin> set (count_line rc)" "\<not> starts_with ''HTEST '' (count_line rc)" "\<not> starts_with ''HIDDEN'' (count_line rc)"
  "newline \<notin> set (summary_line rc)" "\<not> starts_with ''HTEST '' (summary_line rc)"
  "\<not> starts_with ''HIDDEN'' (htest_line t)" "name_ok (fst t) \<Longrightarrow> newline \<notin> set (htest_line t)"
  using show_nat_no_newline
  by (auto simp: count_line_def summary_line_def htest_line_def starts_with_def newline_def name_ok_def)

lemma htest_caps_none: "\<not> starts_with ''HTEST '' l \<Longrightarrow> htest_caps l = None"
  using starts_with_append [of "''HTEST ''" "''PASS ''" l] starts_with_append [of "''HTEST ''" "''FAIL ''" l]
  by (auto simp: htest_caps_def)

definition cap_text :: "(nat \<times> string) list \<Rightarrow> nat \<Rightarrow> string" where
  "cap_text c n = (case map_of c n of None \<Rightarrow> [] | Some s \<Rightarrow> s)"

lemma re_finditer_finds: "re_finditer r s = finds r [] s"
  by (simp add: re_finditer_def finds_def)

lemma at_bol_Nil: "at_bol []"
  by (simp add: at_bol_def)

lemma empty_none: "rx_run htest_rx (pre, [], []) = []" "rx_run hidden_rx (pre, [], []) = []"
  "rx_run hidden_summary_rx (pre, [], []) = []"
  by (simp_all add: htest_rx_def hidden_rx_def hidden_summary_rx_def starts_with_def del: rx_lit.simps)

lemma map_filter_append: "List.map_filter f (xs @ ys) = List.map_filter f xs @ List.map_filter f ys"
  by (simp add: List.map_filter_def)

lemma map_filter_none: "(\<And>x. x \<in> set xs \<Longrightarrow> f x = None) \<Longrightarrow> List.map_filter f xs = []"
  by (induction xs) (auto simp: map_filter_simps)

lemma honest_htest:
  assumes "list_all noise_ok noise" and "list_all (\<lambda>t. name_ok (fst t)) (rc_records rc)"
  shows "htest_pairs (unlines (honest_lines noise rc)) = map (\<lambda>(n, ok). (n, verdict_word ok)) (rc_records rc)"
proof -
  have "list_all (line_rule htest_rx htest_caps) (honest_lines noise rc)"
    using assms htest_rule_line(1) htest_rule_none line_kinds
    by (auto simp: honest_lines_def list_all_iff noise_ok_def)
  then have caps: "map m_caps (finds (Cat Bol htest_rx) [] (unlines (honest_lines noise rc)))
      = List.map_filter htest_caps (honest_lines noise rc)"
    by (rule finds_unlines [OF _ at_bol_Nil empty_none(1)])
  have "List.map_filter htest_caps (map htest_line rs)
      = map (\<lambda>(n, ok). [(2, n), (1, if ok then ''PASS'' else ''FAIL'')]) rs"
    if "list_all (\<lambda>t. name_ok (fst t)) rs" for rs
    using that by (induction rs) (auto simp: map_filter_simps htest_rule_line(2))
  moreover have "List.map_filter htest_caps noise = []"
    by (rule map_filter_none) (use assms(1) in \<open>simp add: list_all_iff noise_ok_def htest_caps_none\<close>)
  ultimately have "map m_caps (re_finditer (Cat Bol htest_rx) (unlines (honest_lines noise rc)))
      = map (\<lambda>(n, ok). [(2, n), (1, if ok then ''PASS'' else ''FAIL'')]) (rc_records rc)"
    using caps assms(2) by (simp add: re_finditer_finds honest_lines_def map_filter_append map_filter_simps
        htest_caps_none line_kinds)
  moreover have "htest_pairs out = map (\<lambda>c. (cap_text c 2, if cap_text c 1 = ''PASS'' then ''pass'' else ''fail''))
      (map m_caps (re_finditer (Cat Bol htest_rx) out))" for out
    by (simp add: htest_pairs_def m_group_def cap_text_def)
  ultimately have "htest_pairs (unlines (honest_lines noise rc)) =
      map (\<lambda>c. (cap_text c 2, if cap_text c 1 = ''PASS'' then ''pass'' else ''fail''))
        (map (\<lambda>(n, ok). [(2, n), (1, if ok then ''PASS'' else ''FAIL'')]) (rc_records rc))"
    by (simp only:)
  then show ?thesis by (auto simp: verdict_word_def cap_text_def split: if_splits)
qed

lemma scan_all_single:
  assumes "re_finditer p text = []" and "map m_caps (re_finditer q text) = [c]"
  shows "scan_all_scores text [p, q] = [(digits_val (cap_text c 1), digits_val (cap_text c 2))]"
proof -
  from assms(2) obtain m where "re_finditer q text = [m]" "m_caps m = c" by (cases "re_finditer q text") auto
  then show ?thesis using assms(1) by (simp add: scan_all_scores_def score_of_def m_group_def cap_text_def)
qed

lemma honest_summaries:
  assumes "list_all noise_ok noise" and "list_all (\<lambda>t. name_ok (fst t)) (rc_records rc)"
  shows "scan_all_scores (unlines (honest_lines noise rc)) HIDDEN_PATTERNS = [(rc_passed rc, rc_total rc)]"
proof -
  have rules: "list_all (line_rule hidden_rx (summary_caps rc)) (honest_lines noise rc)"
    "list_all (line_rule hidden_summary_rx (\<lambda>_. None)) (honest_lines noise rc)"
    using assms hidden_rule_none summary_rule line_kinds
    by (auto simp: honest_lines_def list_all_iff noise_ok_def)
  have "map m_caps (finds (Cat Bol hidden_summary_rx) [] (unlines (honest_lines noise rc))) = []"
    using finds_unlines [OF rules(2) at_bol_Nil empty_none(3)] by (simp add: map_filter_none)
  then have none: "re_finditer (Cat Bol hidden_summary_rx) (unlines (honest_lines noise rc)) = []"
    by (simp add: re_finditer_finds)
  have other: "summary_caps rc l = None" if "\<not> starts_with ''HIDDEN'' l" for l
    using that by (auto simp: summary_caps_def summary_line_def starts_with_def)
  have "List.map_filter (summary_caps rc) (honest_lines noise rc) =
      [[(2, show_nat (rc_total rc)), (1, show_nat (rc_passed rc))]]"
    using assms by (auto simp: honest_lines_def map_filter_append map_filter_simps other line_kinds
        noise_ok_def list_all_iff summary_caps_def [of rc "summary_line rc"] intro!: map_filter_none)
  then have "map m_caps (re_finditer (Cat Bol hidden_rx) (unlines (honest_lines noise rc)))
      = [[(2, show_nat (rc_total rc)), (1, show_nat (rc_passed rc))]]"
    using finds_unlines [OF rules(1) at_bol_Nil empty_none(2)] by (simp add: re_finditer_finds)
  from scan_all_single [OF none this] show ?thesis
    by (simp add: HIDDEN_PATTERNS_def cap_text_def)
qed

section \<open>The recorder's invariant and the round trip\<close>

definition recorder_inv :: "recorder \<Rightarrow> bool" where
  "recorder_inv rc \<longleftrightarrow> rc_seen rc = set (map fst (rc_records rc)) \<and> distinct (map fst (rc_records rc))"

lemma new_recorder_inv [py_keep]: "recorder_inv (new_recorder qid)"
  by (simp add: recorder_inv_def new_recorder_def)

lemma record_test_inv [py_keep]: "recorder_inv rc \<Longrightarrow> record_test n ok rc = Inr rc' \<Longrightarrow> recorder_inv rc'"
  by (cases "n \<in> rc_seen rc") (simp_all add: recorder_inv_def record_test_def, force)

lemma record_test_qid: "record_test n ok rc = Inr rc' \<Longrightarrow> rc_qid rc' = rc_qid rc"
  by (auto simp: record_test_def split: if_splits)

definition record_all :: "string \<Rightarrow> (string \<times> bool) list \<Rightarrow> recorder res" where
  "record_all qid tests = res_fold (\<lambda>rc (n, ok). record_test n ok rc) (new_recorder qid) tests"

lemma record_all_facts:
  assumes "record_all qid tests = Inr rc"
  shows "recorder_inv rc \<and> rc_qid rc = qid \<and> rc_records rc = tests"
proof -
  have "rc_records rc' = rc_records rc0 @ tests \<and> rc_qid rc' = rc_qid rc0 \<and> recorder_inv rc'"
    if "res_fold (\<lambda>rc (n, ok). record_test n ok rc) rc0 tests = Inr rc'" "recorder_inv rc0" for rc0 rc'
    using that
  proof (induction tests arbitrary: rc0)
    case (Cons t tests)
    obtain n ok where t: "t = (n, ok)" by fastforce
    then obtain rc1 where rc1: "record_test n ok rc0 = Inr rc1" using Cons.prems by (auto split: sum.splits)
    have "rc_records rc1 = rc_records rc0 @ [t] \<and> rc_qid rc1 = rc_qid rc0"
      using rc1 t by (auto simp: record_test_def split: if_splits)
    then show ?case using Cons.IH [of rc1] Cons.prems rc1 t record_test_inv by simp
  qed simp
  from this [OF assms [unfolded record_all_def] new_recorder_inv] show ?thesis by (simp add: new_recorder_def)
qed

lemma record_all_total:
  assumes "distinct (map fst tests)"
  shows "\<exists>rc. record_all qid tests = Inr rc"
proof -
  have "\<exists>rc'. res_fold (\<lambda>rc (n, ok). record_test n ok rc) rc tests = Inr rc'"
    if "distinct (map fst tests)" "rc_seen rc \<inter> set (map fst tests) = {}" for rc
    using that
  proof (induction tests arbitrary: rc)
    case (Cons t tests)
    obtain n ok where t: "t = (n, ok)" by fastforce
    define rc1 where "rc1 = rc\<lparr>rc_seen := insert n (rc_seen rc), rc_records := rc_records rc @ [(n, ok)]\<rparr>"
    have "record_test n ok rc = Inr rc1" using Cons.prems t by (simp add: record_test_def rc1_def)
    then show ?case using Cons.IH [of rc1] Cons.prems t by (simp add: rc1_def)
  qed simp
  from this [OF assms, of "new_recorder qid"] show ?thesis by (simp add: record_all_def new_recorder_def)
qed

definition env_ok :: "seal_env \<Rightarrow> string \<Rightarrow> bool" where
  "env_ok env nonce \<longleftrightarrow> (\<exists>fd i. env_fd env = Some fd \<and> fd \<noteq> [] \<and> parse_int fd = Some i)
     \<and> env_nonce env = Some nonce \<and> env_write_ok env"

lemma check_record_honest:
  assumes d: "json_sort (seal_payload env rc) = PDict d" and inv: "recorder_inv rc"
    and nonce: "env_nonce env = Some nonce" and names: "set (map fst (rc_records rc)) = set expected"
  shows "check_record strf (rc_qid rc) nonce expected (map (\<lambda>(n, ok). (n, verdict_word ok)) (rc_records rc))
           [(rc_passed rc, rc_total rc)] d = Inr (rc_passed rc, rc_total rc)"
proof -
  let ?pairs = "map (\<lambda>(n, ok). (n, verdict_word ok)) (rc_records rc)"
  have fst: "map fst ?pairs = map fst (rc_records rc)" by (simp add: case_prod_beta' o_def)
  have got: "length (filter (\<lambda>p. snd p = ''pass'') ?pairs) = rc_passed rc"
    by (simp add: filter_map o_def case_prod_beta' rc_passed_def verdict_word_def)
  have vd: "list_all (\<lambda>p. snd p = ''pass'' \<or> snd p = ''fail'') ?pairs"
    by (auto simp: list_all_iff verdict_word_def split: if_splits)
  have len: "length ?pairs = rc_total rc" by (simp add: rc_total_def)
  have dist: "distinct (map fst ?pairs)" unfolding fst using inv by (simp add: recorder_inv_def)
  have miss: "filter (\<lambda>n. n \<notin> set (map fst ?pairs)) expected = []" "filter (\<lambda>n. n \<notin> set expected) (map fst ?pairs) = []"
    using names unfolding fst by (auto simp: filter_empty_conv)
  note f = sealed_fields [OF d]
  show ?thesis
    unfolding check_record_def f sealed_pairs_records nonce Let_def option.case got len miss
    using vd dist by (simp add: opt_str_def py_num_def)
qed

definition sealed_text :: "seal_env \<Rightarrow> recorder \<Rightarrow> string" where
  "sealed_text env rc = RESULT_PREFIX @ json_print (json_sort (seal_payload env rc)) @ [newline]"

lemma honest_verify:
  assumes "recorder_inv rc" and "env_nonce env = Some nonce" and "rc_records rc \<noteq> []"
    and "set (map fst (rc_records rc)) = set (hs_hidden_tests spec)"
    and "list_all (\<lambda>t. name_ok (fst t)) (rc_records rc)" and "list_all noise_ok noise"
  shows "\<exists>v. verify_hidden_result strf (rc_qid rc) (unlines (honest_lines noise rc)) (sealed_text env rc) nonce spec
     = Inr v \<and> hv_ok v \<and> hv_passed v = Some (rc_passed rc) \<and> hv_total v = Some (rc_total rc)"
proof -
  obtain d where d: "json_sort (seal_payload env rc) = PDict d" by (simp add: seal_payload_def)
  have cd: "json_canon (PDict d)" using json_canon_sort(1) [OF seal_payload_canon, of env rc] d by simp
  have pre: "list_all (\<lambda>c. \<not> line_end c) RESULT_PREFIX"
    by (simp add: RESULT_PREFIX_def line_end_def ch_code_def Let_def)
  have lines: "filter (starts_with RESULT_PREFIX) (splitlines (sealed_text env rc)) = [RESULT_PREFIX @ json_print (PDict d)]"
    unfolding sealed_text_def d by (rule json_line.one_record [OF cd pre])
  have load: "json_loads (drop (length RESULT_PREFIX) (RESULT_PREFIX @ json_print (PDict d))) = Some (PDict d)"
    by (rule json_line.read_back [OF cd])
  have ne: "hs_hidden_tests spec \<noteq> []" using assms(3,4) by auto
  show ?thesis
    unfolding verify_hidden_result_def lines honest_htest [OF assms(6,5)] honest_summaries [OF assms(6,5)]
      Let_def list.case load
    using ne check_record_honest [OF d assms(1,2,4), of strf] by simp
qed


definition demo_env :: seal_env where
  "demo_env = \<lparr>env_fd = Some ''7'', env_nonce = Some ''n0'', env_pid = 41, env_argv = [''hidden_tests.py''],
     env_write_ok = True\<rparr>"

definition demo_tests :: "(string \<times> bool) list" where
  "demo_tests = [(''t_day_split'', True), (''t_grace'', False)]"

definition demo_spec :: hspec where
  "demo_spec = \<lparr>hs_present = True, hs_source = None, hs_public_tests = [], hs_may_grow = False,
     hs_hidden_tests = [''t_grace'', ''t_day_split''], hs_protocol = PNone\<rparr>"

lemma demo_facts:
  "distinct (map fst demo_tests)" "set (map fst demo_tests) = set (hs_hidden_tests demo_spec)" "demo_tests \<noteq> []"
  "list_all (\<lambda>t. name_ok (fst t)) demo_tests" "list_all noise_ok [''starting'']" "env_ok demo_env ''n0''"
proof -
  have "parse_int ''7'' = Some 7" by code_simp
  then show "env_ok demo_env ''n0''" by (simp add: env_ok_def demo_env_def)
  show "list_all (\<lambda>t. name_ok (fst t)) demo_tests" by code_simp
  show "list_all noise_ok [''starting'']" by code_simp
qed (auto simp: demo_tests_def demo_spec_def)


theorem verify_sound_witness:
  "\<exists>rc v. record_all ''q26'' demo_tests = Inr rc
     \<and> verify_hidden_result (\<lambda>_. []) ''q26'' (unlines (honest_lines [''starting''] rc)) (sealed_text demo_env rc) ''n0'' demo_spec = Inr v
     \<and> hv_ok v \<and> hv_reason v = Verified
     \<and> set (map fst (htest_pairs (unlines (honest_lines [''starting''] rc)))) = {''t_grace'', ''t_day_split''}"
proof -
  obtain rc where rc: "record_all ''q26'' demo_tests = Inr rc" using record_all_total [OF demo_facts(1)] by blast
  note f = record_all_facts [OF rc]
  obtain v where v: "verify_hidden_result (\<lambda>_. []) ''q26'' (unlines (honest_lines [''starting''] rc))
      (sealed_text demo_env rc) ''n0'' demo_spec = Inr v" "hv_ok v"
    using honest_verify [of rc demo_env "''n0''" demo_spec "[''starting'']" "\<lambda>_. []"] f demo_facts
    by (auto simp: demo_env_def)
  from verify_sound [OF v] have "hv_reason v = Verified"
    "set (map fst (htest_pairs (unlines (honest_lines [''starting''] rc)))) = set (hs_hidden_tests demo_spec)" by auto
  with rc v show ?thesis by (auto simp: demo_spec_def)
qed

section \<open>Runs without a seal, and what is reported\<close>

text \<open>A candidate that ends the process before the runner seals its record gets no score: with
  no sealed line on the private file the run is never believed, and if standard output
  nevertheless carries a summary or a test line in the grader's format, it is marked as forged.\<close>

lemma unsealed_never_believed:
  assumes "filter (starts_with RESULT_PREFIX) (splitlines sealed) = []" and "hs_hidden_tests spec \<noteq> []"
  shows "\<exists>v. verify_hidden_result strf qid output sealed nonce spec = Inr v \<and> \<not> hv_ok v \<and> hv_passed v = None
     \<and> hv_forged v = (scan_all_scores output HIDDEN_PATTERNS \<noteq> [] \<or> htest_pairs output \<noteq> [])"
  using assms(2) unfolding verify_hidden_result_def assms(1) Let_def by simp

text \<open>\<open>run_hidden\<close> never falls back to the numbers on standard output: whatever the subprocess
  prints and writes, a result with a score is a verified one, and an unverified result has
  neither a score nor a per-turn vector.\<close>

lemma run_hidden_no_fallback:
  assumes "run_hidden strf meta spec runner_exists nonce run = Inr r"
  shows "(hr_passed r \<noteq> None \<or> hr_total r \<noteq> None \<or> hr_per_turn r \<noteq> []) \<longrightarrow>
     hr_verified r \<and> \<not> hr_forged r \<and> hr_reason r = Some Verified"
proof -
  have ok: "\<not> hv_forged v \<and> hv_reason v = Verified"
    if "verify_hidden_result strf qid out sealed nonce spec = Inr v" "hv_ok v" for qid out sealed v
    using verify_ok_check [OF that] by blast
  show ?thesis using assms unfolding run_hidden_def Let_def
    by (auto simp: res_bind_Inr_iff case_prod_beta' dest: ok split: if_splits)
qed

definition demo_meta :: task_meta where
  "demo_meta = snd (hd TASK_META)"

lemma run_hidden_no_fallback_witness:
  "\<exists>rc r. run_hidden (\<lambda>_. []) demo_meta demo_spec True ''n0''
       (\<lambda>_. (\<lparr>rr_rc = 1, rr_wall = 2, rr_timed_out = False, rr_output = unlines (honest_lines [] rc)\<rparr>, sealed_text demo_env rc)) = Inr r
     \<and> hr_passed r = Some 1 \<and> hr_verified r"
proof -
  obtain rc where rc: "record_all ''q26'' demo_tests = Inr rc" using record_all_total [OF demo_facts(1)] by blast
  note f = record_all_facts [OF rc]
  have q: "tm_qid demo_meta = ''q26''" by (simp add: demo_meta_def TASK_META_def)
  define run where "run = (\<lambda>_ :: string. (\<lparr>rr_rc = 1, rr_wall = 2, rr_timed_out = False,
      rr_output = unlines (honest_lines [] rc)\<rparr>, sealed_text demo_env rc))"
  obtain r where r: "run_hidden (\<lambda>_. []) demo_meta demo_spec True ''n0'' run = Inr r" "hr_passed r = Some (rc_passed rc)"
    using honest_verify [of rc demo_env "''n0''" demo_spec "[]" "\<lambda>_. []"] f demo_facts
    by (auto simp: run_hidden_def run_def q) (auto simp: demo_env_def)
  moreover have "rc_passed rc = 1" using f by (simp add: rc_passed_def demo_tests_def)
  ultimately show ?thesis using run_hidden_no_fallback [OF r(1)] unfolding run_def by auto
qed

text \<open>Two corners of the verifier. A sealed line that is not JSON is reported as a missing record,
  never as bad JSON; and one that is JSON but not an object ends the verifier with an exception.\<close>

lemma bad_json_unreachable:
  "verify_hidden_result strf qid output sealed nonce spec = Inr v \<Longrightarrow> hv_reason v \<noteq> BadJson"
proof -
  have "check_record strf qid nonce e h su d \<noteq> Inl BadJson" for e h su d
    by (auto simp: check_record_def Let_def split: if_splits option.splits)
  then show "verify_hidden_result strf qid output sealed nonce spec = Inr v \<Longrightarrow> hv_reason v \<noteq> BadJson"
    unfolding verify_hidden_result_def Let_def
    by (auto split: if_splits option.splits list.splits pyval.splits sum.splits)
qed

lemma sealed_non_object_raises:
  "verify_hidden_result strf qid [] (RESULT_PREFIX @ ''[1]'' @ [newline]) nonce demo_spec = Inl (AttributeError ''get'')"
proof -
  have "filter (starts_with RESULT_PREFIX) (splitlines (RESULT_PREFIX @ ''[1]'' @ [newline])) = [RESULT_PREFIX @ ''[1]'']"
    by code_simp
  moreover have "json_loads (drop (length RESULT_PREFIX) (RESULT_PREFIX @ ''[1]'')) = Some (PList [PInt 1])" by code_simp
  ultimately show ?thesis by (simp add: verify_hidden_result_def demo_spec_def)
qed

end
