(* ===== verification/Results.thy ===== *)
theory Results
  imports Py_Regex
begin

text \<open>
  The result rows of a campaign and what is counted about them
  (\<open>src/llm_hardtest/results.py\<close>), and the text helpers of \<open>src/llm_hardtest/common.py\<close>.

  A row is a JSON object; \<open>item_status\<close> reads its verdict whichever schema version wrote it,
  and \<open>result_counts\<close> is the only place where verdicts are added up for reports. The locale
  \<open>status_rows\<close> is the contract between the graders that write rows and this counter: a grader
  that can say which verdict each of its rows has gets the counts of its payload.
\<close>

section \<open>Verdicts\<close>

datatype status = PASS | FAIL | INCOMPLETE | REVIEW | INVALID

definition all_status :: "status list" where
  "all_status = [PASS, FAIL, INCOMPLETE, REVIEW, INVALID]"

fun status_name :: "status \<Rightarrow> string" where
  "status_name PASS = ''PASS''"
| "status_name FAIL = ''FAIL''"
| "status_name INCOMPLETE = ''INCOMPLETE''"
| "status_name REVIEW = ''REVIEW''"
| "status_name INVALID = ''INVALID''"

definition status_of_name :: "string \<Rightarrow> status option" where
  "status_of_name s = find (\<lambda>st. status_name st = s) all_status"

definition OUTPUT_LIMIT_REASONS :: "string list" where
  "OUTPUT_LIMIT_REASONS = [''length'', ''max_tokens'', ''max_output_tokens'']"

text \<open>\<open>str(v)\<close> of a JSON value that is not a string starts with a digit, a sign, a bracket or
  one of \<open>None\<close>, \<open>True\<close>, \<open>False\<close>, so only a string can name one of the reasons.\<close>

definition output_limited :: "pyval \<Rightarrow> bool" where
  "output_limited v =
     (case v of PStr s \<Rightarrow> str_lower (str_strip s) \<in> set OUTPUT_LIMIT_REASONS | _ \<Rightarrow> False)"

definition explicit_status :: "pyval \<Rightarrow> status option" where
  "explicit_status v = (case v of PStr s \<Rightarrow> status_of_name (str_upper s) | _ \<Rightarrow> None)"

definition item_status :: "jobj \<Rightarrow> status" where
  "item_status item =
     (case explicit_status (jget item ''status'') of
        Some st \<Rightarrow> st
      | None \<Rightarrow>
          if jget item ''valid'' = PBool False then INVALID
          else if jget item ''incomplete'' = PBool True \<or> output_limited (jget item ''finish_reason'')
          then INCOMPLETE
          else if truthy (jget item ''manual_review_required'') \<or> jget item ''correct'' = PNone
          then REVIEW
          else if jget item ''correct'' = PBool True then PASS else FAIL)"

section \<open>Counting\<close>

type_synonym counts = "status \<Rightarrow> int"

definition item_row :: "pyval \<Rightarrow> jobj res" where
  "item_row v = (case v of PDict d \<Rightarrow> Inr d | _ \<Rightarrow> Inl (AttributeError ''get''))"

definition count_item :: "counts \<Rightarrow> pyval \<Rightarrow> counts res" where
  "count_item c v =
     res_bind (item_row v) (\<lambda>d. Inr (c(item_status d := c (item_status d) + 1)))"

text \<open>\<open>int(payload.get(k, 0) or 0)\<close>.\<close>

definition int_field :: "jobj \<Rightarrow> string \<Rightarrow> int res" where
  "int_field d k = (let v = jget_or d k (PInt 0) in if truthy v then py_int v else Inr 0)"

definition legacy_counts :: "jobj \<Rightarrow> counts res" where
  "legacy_counts payload =
     res_bind (int_field payload ''score'') (\<lambda>score.
     res_bind (int_field payload ''total'') (\<lambda>tot.
     res_bind (int_field payload ''incomplete'') (\<lambda>inc.
     res_bind (int_field payload ''manual_review'') (\<lambda>review.
     res_bind (int_field payload ''infrastructure_errors'') (\<lambda>inv.
       Inr ((\<lambda>_. 0)(PASS := score, FAIL := max 0 (tot - score), INCOMPLETE := inc,
              REVIEW := review, INVALID := inv)))))))"

definition result_counts :: "jobj \<Rightarrow> counts res" where
  "result_counts payload =
     (let items = jget_or payload ''results'' (PList []) in
      res_bind (py_iter items) (\<lambda>xs.
      res_bind (res_fold count_item (\<lambda>_. 0) xs) (\<lambda>c.
        if truthy items then Inr c else legacy_counts payload)))"

section \<open>Text helpers\<close>

definition slug_ch :: "char \<Rightarrow> bool" where
  "slug_ch c \<longleftrightarrow> ch_alnum c \<or> c \<in> set ''_.-''"

definition slug :: "string \<Rightarrow> string" where
  "slug v =
     (let w = strip_by (\<lambda>c. c = CHR ''-'')
                (re_sub (rx_plus (Cls (\<lambda>c. \<not> slug_ch c))) ''-'' (str_strip v))
      in if w = [] then ''model'' else w)"

definition answer_rx :: rx where
  "answer_rx = rx_seq [rx_lit_i ''ANSWER:'', Star rx_space, Grp 1 (rx_plus rx_any)]"

definition answer_text :: "string \<Rightarrow> string" where
  "answer_text text =
     (case rev (re_finditer answer_rx text) of [] \<Rightarrow> [] | m # _ \<Rightarrow> str_strip (m_group m 1))"

definition norm_drop :: "char \<Rightarrow> bool" where
  "norm_drop c \<longleftrightarrow> py_isspace c \<or> c = CHR '','' \<or> c = CHR ''%''"

definition norm_answer :: "string \<Rightarrow> string" where
  "norm_answer v = re_sub (Cls norm_drop) [] (str_lower (str_strip v))"

definition answer_matches :: "string \<Rightarrow> string \<Rightarrow> bool" where
  "answer_matches actual expected =
     (let a = norm_answer actual; e = norm_answer expected in a \<noteq> [] \<and> a = e)"

section \<open>Properties\<close>

lemma count_items:
  "res_fold count_item c (map PDict ds)
     = Inr (\<lambda>st. c st + int (length (filter (\<lambda>d. item_status d = st) ds)))"
  by (induction ds arbitrary: c) (auto simp: count_item_def item_row_def fun_eq_iff)

lemma result_counts_rows:
  assumes "jget payload ''results'' = PList (map PDict ds)" and "ds \<noteq> []"
  shows "result_counts payload = Inr (\<lambda>st. int (length (filter (\<lambda>d. item_status d = st) ds)))"
proof -
  have "jget_or payload ''results'' (PList []) = PList (map PDict ds)"
    using assms by (auto simp: jget_def jget_or_def dict_get_def split: option.splits)
  then show ?thesis using assms(2) count_items [of "\<lambda>_. 0" ds] by (simp add: result_counts_def py_iter_def)
qed

text \<open>What a grader promises about its rows, and what the counter then finds in its payload.\<close>

locale status_rows =
  fixes row :: "'i \<Rightarrow> jobj" and verdict :: "'i \<Rightarrow> status" and ok :: "'i \<Rightarrow> bool"
  assumes row_status: "ok i \<Longrightarrow> item_status (row i) = verdict i"
begin

lemma counts_of_rows:
  assumes "jget payload ''results'' = PList (map (PDict \<circ> row) is)" and "is \<noteq> []" and "list_all ok is"
  shows "result_counts payload = Inr (\<lambda>st. int (length (filter (\<lambda>i. verdict i = st) is)))"
proof -
  have "filter (\<lambda>i. item_status (row i) = st) is = filter (\<lambda>i. verdict i = st) is" for st
    using assms(3) row_status by (intro filter_cong) (auto simp: list_all_iff)
  then show ?thesis
    using result_counts_rows [of payload "map row is"] assms(1,2) by (simp add: filter_map o_def)
qed

end

lemma status_of_name_name [simp]: "status_of_name (status_name st) = Some st"
  by (cases st) (simp_all add: status_of_name_def all_status_def)

lemma status_name_inject [simp]: "status_name a = status_name b \<longleftrightarrow> a = b"
  by (cases a; cases b; simp)

lemma status_name_upper [simp]: "str_upper (status_name st) = status_name st"
  by (cases st) (simp_all add: str_upper_def upper_ch_def ch_lower_def ch_code_def Let_def)

lemma explicit_status_name [simp]: "explicit_status (PStr (status_name st)) = Some st"
  by (simp add: explicit_status_def)

lemma sum_status_filter:
  "(\<Sum>st\<leftarrow>all_status. int (length (filter (\<lambda>d. f d = st) ds))) = int (length ds)"
proof (induction ds)
  case (Cons d ds)
  then show ?case by (cases "f d") (simp_all add: all_status_def)
qed (simp add: all_status_def)

text \<open>Every row of a payload is counted under exactly one verdict: the five counts of a
  payload with rows are never negative and add up to the number of its rows.\<close>

lemma result_counts_partition:
  assumes "jget payload ''results'' = PList (map PDict ds)" and "ds \<noteq> []"
    and "result_counts payload = Inr c"
  shows "(\<forall>st. 0 \<le> c st) \<and> (\<Sum>st\<leftarrow>all_status. c st) = int (length ds)"
  using result_counts_rows [OF assms(1,2)] assms(3) sum_status_filter [of item_status ds] by auto

lemma result_counts_partition_demo:
  "\<exists>c. result_counts [(''results'', PList [PDict [(''correct'', PBool True)], PDict [(''finish_reason'', PStr ''length'')]])] = Inr c
     \<and> c PASS = 1 \<and> c INCOMPLETE = 1 \<and> (\<Sum>st\<leftarrow>all_status. c st) = 2"
proof -
  define ds :: "jobj list" where
    "ds = [[(''correct'', PBool True)], [(''finish_reason'', PStr ''length'')]]"
  define c where "c = (\<lambda>st. int (length (filter (\<lambda>d. item_status d = st) ds)))"
  have res: "result_counts [(''results'', PList (map PDict ds))] = Inr c"
    using result_counts_rows [of "[(''results'', PList (map PDict ds))]" ds]
    by (simp add: jget_def dict_get_def ds_def c_def)
  have "item_status [(''correct'', PBool True)] = PASS" by code_simp
  moreover have "item_status [(''finish_reason'', PStr ''length'')] = INCOMPLETE" by code_simp
  ultimately have "c PASS = 1 \<and> c INCOMPLETE = 1" by (simp add: c_def ds_def)
  moreover have "(\<Sum>st\<leftarrow>all_status. c st) = 2"
    using result_counts_partition [OF _ _ res, of ds] by (simp add: jget_def dict_get_def ds_def)
  ultimately show ?thesis using res by (auto simp: ds_def)
qed

lemma slug_ch_dash: "slug_ch (CHR ''-'')"
  by (simp add: slug_ch_def)

lemma strip_by_set: "c \<in> set (strip_by p s) \<Longrightarrow> c \<in> set s"
  by (auto simp: strip_by_def rstrip_by_def lstrip_by_def dest!: set_dropWhileD)

lemma slug_chars: "slug v \<noteq> [] \<and> list_all slug_ch (slug v)"
proof -
  have "slug_ch c" if "c \<in> set (strip_by (\<lambda>c. c = CHR ''-'')
      (re_sub (rx_plus (Cls (\<lambda>c. \<not> slug_ch c))) ''-'' (str_strip v)))" for c
    using re_sub_runs_set [OF strip_by_set [OF that]] slug_ch_dash by auto
  moreover have "list_all slug_ch ''model''" by code_simp
  ultimately show ?thesis by (auto simp: slug_def Let_def list_all_iff)
qed

lemma norm_answer_filter: "norm_answer v = filter (\<lambda>c. \<not> norm_drop c) (map lower_ch (str_strip v))"
  by (simp add: norm_answer_def re_sub_each_empty str_lower_def)

lemma norm_drop_lower: "norm_drop (lower_ch c) = norm_drop c"
proof (cases "ch_upper c")
  case True
  then have b: "65 \<le> ch_code c" "ch_code c \<le> 90" by (auto simp: ch_upper_def Let_def)
  then have "ch_code (lower_ch c) = ch_code c + 32"
    using True by (simp add: lower_ch_def ch_code_def)
  moreover have "norm_drop d \<longleftrightarrow> py_isspace d \<or> ch_code d = 44 \<or> ch_code d = 37" for d
  proof -
    have "d = CHR '','' \<longleftrightarrow> ch_code d = ch_code (CHR '','')" "d = CHR ''%'' \<longleftrightarrow> ch_code d = ch_code (CHR ''%'')"
      by (simp_all add: ch_code_def of_char_eq_iff del: of_char_Char)
    then show ?thesis by (simp add: norm_drop_def) (simp add: ch_code_def)
  qed
  ultimately show ?thesis using b by (simp add: py_isspace_def Let_def)
qed (simp add: lower_ch_def)

lemma filter_lstrip:
  "(\<And>c. p c \<Longrightarrow> q c) \<Longrightarrow> filter (\<lambda>c. \<not> q c) (dropWhile p s) = filter (\<lambda>c. \<not> q c) s"
  by (induction s) auto

lemma filter_strip:
  assumes "\<And>c. p c \<Longrightarrow> q c"
  shows "filter (\<lambda>c. \<not> q c) (strip_by p s) = filter (\<lambda>c. \<not> q c) s"
proof -
  have "filter (\<lambda>c. \<not> q c) (rev (dropWhile p (rev t))) = filter (\<lambda>c. \<not> q c) t" for t
    using filter_lstrip [of p q "rev t"] assms by (simp add: rev_filter [symmetric])
  then show ?thesis using filter_lstrip [of p q s] assms by (simp add: strip_by_def rstrip_by_def lstrip_by_def)
qed

text \<open>Two answers match exactly when they agree, and are not empty, once case is folded and
  spaces, commas and percent signs are left out, wherever they stand in the text.\<close>

lemma answer_matches_spec:
  "answer_matches a e \<longleftrightarrow>
     map lower_ch (filter (\<lambda>c. \<not> norm_drop c) a) \<noteq> []
     \<and> map lower_ch (filter (\<lambda>c. \<not> norm_drop c) a) = map lower_ch (filter (\<lambda>c. \<not> norm_drop c) e)"
proof -
  have sp: "py_isspace c \<Longrightarrow> norm_drop c" for c by (simp add: norm_drop_def)
  have "norm_answer v = map lower_ch (filter (\<lambda>c. \<not> norm_drop c) v)" for v
    using filter_strip [of py_isspace norm_drop v, OF sp]
    by (simp add: norm_answer_filter filter_map o_def norm_drop_lower str_strip_def)
  then show ?thesis by (simp add: answer_matches_def Let_def)
qed

end
