(* ===== verification/Round123.thy ===== *)
theory Round123
  imports Results
begin

text \<open>
  Rounds 1 to 3: \<open>src/llm_hardtest/round12.py\<close> and \<open>src/llm_hardtest/round3.py\<close>. The model
  back-end is the parameter \<open>ask\<close> (the position of the question and the messages so far
  give a response object or an exception), the clock is \<open>elapsed\<close>, the time a question took. A
  run is its payload together with the progress events it emits. The events stand for the calls
  of the \<open>progress\<close> callback; the result file and the terminal are not modelled.

  The interpretations of \<open>status_rows\<close> at the end give each payload its counts.
\<close>

section \<open>Rounds 1 and 2\<close>

record question =
  q_id :: int
  q_text :: string
  q_type :: pyval
  q_ans :: string

type_synonym message = "string \<times> pyval"

datatype progress_event =
    Started string
  | Completed string string pyval

definition SUFFIX :: string where
  "SUFFIX = newline # newline # ''End with exactly one final line in this format: ANSWER: <value>''"

text \<open>\<open>text or ""\<close> where a string is needed.\<close>

definition str_or_empty :: "pyval \<Rightarrow> string res" where
  "str_or_empty v =
     (case v of PStr s \<Rightarrow> Inr s
      | _ \<Rightarrow> if truthy v then Inl (TypeError ''expected string or bytes-like object'') else Inr [])"

definition item_name :: "int \<Rightarrow> string" where
  "item_name n = CHR ''q'' # show_int n"

definition r12_row :: "question \<Rightarrow> jobj \<Rightarrow> jobj res" where
  "r12_row q response =
     res_bind (jitem response ''content'') (\<lambda>content.
     res_bind (str_or_empty content) (\<lambda>text.
       let extracted = answer_text text;
           incomplete = output_limited (jget response ''finish_reason'');
           correct = (if incomplete then PNone else PBool (answer_matches extracted (q_ans q)));
           row = dict_merge
                   [(''id'', PInt (q_id q)), (''type'', q_type q), (''expected'', PStr (q_ans q)),
                    (''extracted'', PStr extracted), (''correct'', correct), (''content'', content)]
                   (filter (\<lambda>kv. fst kv \<noteq> ''content'') response);
           row = AList.update ''status''
                   (PStr (status_name (if incomplete then INCOMPLETE
                                       else if truthy correct then PASS else FAIL))) row
       in Inr (if incomplete then AList.update ''incomplete'' (PBool True) row else row)))"

definition r12_error_row :: "question \<Rightarrow> exn \<Rightarrow> rat \<Rightarrow> jobj" where
  "r12_error_row q e t =
     [(''id'', PInt (q_id q)), (''type'', q_type q), (''correct'', PNone), (''valid'', PBool False),
      (''status'', PStr (status_name INVALID)), (''error'', PStr (exn_text e)),
      (''wall'', PFloat (py_round 3 t))]"

definition r12_graded :: "question \<Rightarrow> jobj res \<Rightarrow> rat \<Rightarrow> jobj" where
  "r12_graded q reply t =
     (case res_bind reply (r12_row q) of Inr row \<Rightarrow> row | Inl e \<Rightarrow> r12_error_row q e t)"

definition r12_answer :: "(nat \<Rightarrow> message list \<Rightarrow> jobj res) \<Rightarrow> (nat \<Rightarrow> rat) \<Rightarrow> nat \<Rightarrow> question \<Rightarrow> jobj" where
  "r12_answer ask elapsed i q =
     r12_graded q (ask i [(''user'', PStr (q_text q @ SUFFIX))]) (elapsed i)"

definition r12_questions :: "question list \<Rightarrow> int list option \<Rightarrow> question list" where
  "r12_questions qs flt =
     (case flt of
        Some ids \<Rightarrow> if ids \<noteq> [] then filter (\<lambda>q. q_id q \<in> set ids) qs else qs
      | None \<Rightarrow> qs)"

definition row_status_is :: "status \<Rightarrow> jobj \<Rightarrow> bool" where
  "row_status_is st row \<longleftrightarrow> jget row ''status'' = PStr (status_name st)"

definition count_rows :: "(jobj \<Rightarrow> bool) \<Rightarrow> jobj list \<Rightarrow> pyval" where
  "count_rows f rows = PInt (int (length (filter f rows)))"

definition r12_payload :: "int \<Rightarrow> string \<Rightarrow> string \<Rightarrow> int \<Rightarrow> jobj list \<Rightarrow> jobj res" where
  "r12_payload round_no key model_id attempt results =
     (let scorable = filter (\<lambda>row. jget row ''correct'' \<noteq> PNone) results in
      res_bind (py_sum (map (\<lambda>x. jget_or x ''wall'' (PInt 0)) results)) (\<lambda>wall.
      res_bind (py_round_val 3 wall) (\<lambda>wall.
      res_bind (py_sum (map (\<lambda>x. py_or (jget x ''completion_tokens'') (PInt 0)) results)) (\<lambda>toks.
        Inr [(''round'', PInt round_no), (''model'', PStr key), (''model_id'', PStr model_id),
             (''attempt'', PInt attempt),
             (''score'', count_rows (\<lambda>x. truthy (jget x ''correct'')) scorable),
             (''total'', PInt (int (length scorable))), (''planned'', PInt (int (length results))),
             (''incomplete'', count_rows (row_status_is INCOMPLETE) results),
             (''infrastructure_errors'', count_rows (row_status_is INVALID) results),
             (''wall'', wall), (''completion_tokens'', toks),
             (''results'', PList (map PDict results))]))))"

definition r12_events :: "question \<Rightarrow> jobj \<Rightarrow> progress_event list" where
  "r12_events q row =
     [Started (item_name (q_id q)),
      Completed (item_name (q_id q))
        (case jget row ''status'' of PStr s \<Rightarrow> s | _ \<Rightarrow> []) (jget row ''wall'')]"

definition r12_run ::
  "int \<Rightarrow> string \<Rightarrow> string \<Rightarrow> int \<Rightarrow> question list \<Rightarrow> int list option
     \<Rightarrow> (nat \<Rightarrow> message list \<Rightarrow> jobj res) \<Rightarrow> (nat \<Rightarrow> rat) \<Rightarrow> (jobj \<times> progress_event list) res" where
  "r12_run round_no key model_id attempt questions flt ask elapsed =
     (let qs = r12_questions questions flt;
          rows = map (\<lambda>(i, q). r12_answer ask elapsed i q) (enumerate 0 qs)
      in res_bind (r12_payload round_no key model_id attempt rows) (\<lambda>payload.
           Inr (payload, concat (map (\<lambda>(q, row). r12_events q row) (zip qs rows)))))"

section \<open>Round 3\<close>

type_synonym job = "int \<times> int \<times> int \<times> string list"

definition JOBS :: "(string, job) dict" where
  "JOBS = [(''A'', 4, 4, 9, []), (''B'', 3, 7, 3, []), (''C'', 3, 10, 4, [''B'']),
           (''D'', 2, 12, 9, [''C'']), (''E'', 5, 17, 6, []), (''F'', 6, 20, 5, [''A''])]"

definition upper_words :: "(char \<Rightarrow> bool) \<Rightarrow> string \<Rightarrow> string list" where
  "upper_words p v =
     map (str_upper \<circ> str_strip) (filter (\<lambda>x. str_strip x \<noteq> []) (re_split (rx_plus (Cls p)) v))"

text \<open>\<open>_set\<close>: the pieces between commas, spaces, slashes and ampersands, as a set.\<close>

definition answer_set :: "string \<Rightarrow> string set" where
  "answer_set v = set (upper_words (\<lambda>c. py_isspace c \<or> c \<in> set '',/&'') v)"

text \<open>\<open>_simulate\<close>: run the named jobs in order; \<open>None\<close> for an unknown or repeated job, an
  unmet dependency or a missed deadline. The arrow character of the source's separator class
  has a code point above 255 and cannot occur in the model's strings.\<close>

fun sim_jobs :: "string list \<Rightarrow> int \<Rightarrow> int \<Rightarrow> string list \<Rightarrow> int option" where
  "sim_jobs [] now reward finished = Some reward"
| "sim_jobs (key # seq) now reward finished =
     (case map_of JOBS key of
        None \<Rightarrow> None
      | Some (duration, deadline, points, deps) \<Rightarrow>
          if key \<in> set finished then None
          else if \<not> list_all (\<lambda>dep. dep \<in> set finished) deps then None
          else if deadline < now + duration then None
          else sim_jobs seq (now + duration) (reward + points) (key # finished))"

definition simulate :: "string \<Rightarrow> int option" where
  "simulate v = sim_jobs (upper_words (\<lambda>c. py_isspace c \<or> c \<in> set '',>-'') v) 0 0 []"

text \<open>\<open>_fields\<close>: the \<open>NAME: value\<close> lines after the last answer marker, or of the last 3000
  characters; a repeated name keeps its last value.\<close>

definition field_rx :: rx where
  "field_rx = rx_seq [Bol, Grp 1 (rx_seq [Cls ch_upper, rx_plus (Cls (\<lambda>c. ch_upper c \<or> ch_digit c \<or> c = CHR ''_''))]),
                      rx_lit '':'', Star rx_space, Grp 2 (rx_plus rx_any), Eol]"

definition fields_of :: "string \<Rightarrow> (string, string) dict" where
  "fields_of text =
     (let segment = (case str_rfind ''=== ANSWER ==='' text of
                       Some i \<Rightarrow> drop i text
                     | None \<Rightarrow> drop (length text - 3000) text)
      in fold (\<lambda>m d. AList.update (m_group m 1) (str_strip (m_group m 2)) d)
           (re_finditer field_rx segment) [])"

definition fget :: "(string, string) dict \<Rightarrow> string \<Rightarrow> string" where
  "fget f k = dict_get f k []"

definition only_digits :: "string \<Rightarrow> string" where
  "only_digits v = re_sub (Cls (\<lambda>c. \<not> ch_digit c)) [] v"

definition line_number :: "string \<Rightarrow> string" where
  "line_number v = only_digits (if v = [] then ''0'' else v)"

definition in_lines :: "int \<Rightarrow> int \<Rightarrow> string \<Rightarrow> bool" where
  "in_lines lo hi v \<longleftrightarrow> all_digits v \<and> lo \<le> int (digits_val v) \<and> int (digits_val v) \<le> hi"

definition grade_checks :: "int \<Rightarrow> (string, string) dict \<Rightarrow> (string, bool) dict option" where
  "grade_checks qid f =
     (if qid = 21 then Some
        [(''CLAIM_VALID'', starts_with ''NO'' (str_upper (fget f ''CLAIM_VALID''))),
         (''GREEDY_REWARD'', only_digits (fget f ''GREEDY_REWARD'') = ''20''),
         (''GREEDY_ORDER'', answer_set (fget f ''GREEDY_ORDER'') = {''A'', ''E'', ''F''}
            \<and> simulate (fget f ''GREEDY_ORDER'') \<noteq> None),
         (''OPTIMAL_REWARD'', only_digits (fget f ''OPTIMAL_REWARD'') = ''31''),
         (''OPTIMAL_ORDER'', simulate (fget f ''OPTIMAL_ORDER'') = Some 31)]
      else if qid = 22 then Some
        [(''ROOT_CAUSE_FILE'', str_contains ''cache'' (str_lower (fget f ''ROOT_CAUSE_FILE''))),
         (''ROOT_CAUSE_FUNCTION'', str_contains ''update'' (str_lower (fget f ''ROOT_CAUSE_FUNCTION''))),
         (''ROOT_CAUSE_LINE'', in_lines 19 27 (line_number (fget f ''ROOT_CAUSE_LINE''))),
         (''SYMPTOM_FILE'', str_contains ''metrics'' (str_lower (fget f ''SYMPTOM_FILE''))),
         (''SYMPTOM_LINE'', in_lines 6 10 (line_number (fget f ''SYMPTOM_LINE''))),
         (''WORKER_FIX_SUFFICIENT'', starts_with ''NO'' (str_upper (fget f ''WORKER_FIX_SUFFICIENT'')))]
      else if qid = 23 then
        (let first_r11 = starts_with ''R11'' (str_upper (str_strip (fget f ''CONFLICT_PAIR''))) in Some
        [(''HAS_CONTRADICTION'', starts_with ''YES'' (str_upper (fget f ''HAS_CONTRADICTION''))),
         (''CONFLICT_PAIR'', answer_set (fget f ''CONFLICT_PAIR'') = {''R4'', ''R11''}),
         (''FIRST_UNDER_FIRST_RULE'', take 1 (str_upper (str_strip (fget f ''FIRST_UNDER_FIRST_RULE'')))
            = (if first_r11 then ''A'' else ''B'')),
         (''FIRST_UNDER_SECOND_RULE'', take 1 (str_upper (str_strip (fget f ''FIRST_UNDER_SECOND_RULE'')))
            = (if first_r11 then ''B'' else ''A''))])
      else if qid = 24 then Some
        [(''FIX_FUNCTION'', str_contains ''normalize'' (str_lower (fget f ''FIX_FUNCTION''))),
         (''TESTS_AFTER_FIX'', str_contains ''15'' (fget f ''TESTS_AFTER_FIX'')),
         (''SPAN_FIX_REGRESSIONS'', answer_set (fget f ''SPAN_FIX_REGRESSIONS'') = {''T09'', ''T11''})]
      else None)"

definition grade :: "int \<Rightarrow> (string, string) dict \<Rightarrow> jobj" where
  "grade qid f =
     (case grade_checks qid f of
        None \<Rightarrow> []
      | Some checks \<Rightarrow>
          [(''fields'', PDict (map (\<lambda>(k, v). (k, PStr v)) f)),
           (''checks'', PDict (map (\<lambda>(k, b). (k, PBool b)) checks)),
           (''correct'', PBool (list_all snd checks))])"

record question3 =
  q3_id :: int
  q3_name :: string
  q3_multi :: bool
  q3_turns :: "string list"
  q3_prompt :: string
  q3_artifacts :: "string list"
  q3_example :: string

text \<open>\<open>_prompt\<close>: the files come from the parameter \<open>read_text\<close>.\<close>

definition base_name :: "string \<Rightarrow> string" where
  "base_name rel = last (split_on (CHR ''/'') rel)"

definition numbered :: "string list \<Rightarrow> string" where
  "numbered ls = str_join [newline]
     (map (\<lambda>(i, line). rjust 3 (show_nat (i + 1)) @ ''| '' @ line) (enumerate 0 ls))"

definition prompt3 :: "(string \<Rightarrow> string) \<Rightarrow> string \<Rightarrow> question3 \<Rightarrow> string" where
  "prompt3 read_text instruction q =
     fold (\<lambda>rel text. text @ newline # newline # ''--- FILE: '' @ base_name rel @ '' ---'' @ [newline]
             @ numbered (splitlines (read_text rel)))
       (q3_artifacts q) (q3_prompt q)
     @ instruction @ q3_example q"

text \<open>The turns of a conversation: each answer is part of the messages of the next turn.\<close>

fun r3_turns :: "(message list \<Rightarrow> jobj res) \<Rightarrow> nat \<Rightarrow> message list \<Rightarrow> string list \<Rightarrow> jobj list res" where
  "r3_turns ask index messages [] = Inr []"
| "r3_turns ask index messages (turn # ts) =
     (let sent = messages @ [(''user'', PStr turn)] in
      res_bind (ask sent) (\<lambda>response.
      res_bind (jitem response ''content'') (\<lambda>content.
      res_bind (r3_turns ask (index + 1) (sent @ [(''assistant'', content)]) ts) (\<lambda>rest.
        Inr (dict_merge [(''turn'', PInt (int index))] response # rest)))))"

definition need_str :: "pyval \<Rightarrow> string res" where
  "need_str v = (case v of PStr s \<Rightarrow> Inr s | _ \<Rightarrow> Inl (AttributeError ''rfind''))"

definition r3_row ::
  "(message list \<Rightarrow> jobj res) \<Rightarrow> (string \<Rightarrow> string) \<Rightarrow> string \<Rightarrow> rat \<Rightarrow> question3 \<Rightarrow> jobj res" where
  "r3_row ask read_text instruction t q =
     (if q3_multi q then
        res_bind (r3_turns ask 1 [] (q3_turns q)) (\<lambda>turns.
        res_bind (py_sum (map (\<lambda>x. py_or (jget x ''completion_tokens'') (PInt 0)) turns)) (\<lambda>toks.
          Inr [(''id'', PInt (q3_id q)), (''name'', PStr (q3_name q)),
               (''manual_review_required'', PBool True), (''correct'', PNone),
               (''turns'', PList (map PDict turns)), (''wall'', PFloat (py_round 3 t)),
               (''completion_tokens'', toks)]))
      else
        res_bind (ask [(''user'', PStr (prompt3 read_text instruction q))]) (\<lambda>response.
        res_bind (jitem response ''content'') (\<lambda>content.
        res_bind (need_str content) (\<lambda>text.
          Inr (dict_merge (dict_merge [(''id'', PInt (q3_id q)), (''name'', PStr (q3_name q))]
                 (grade (q3_id q) (fields_of text))) response)))))"

definition r3_answer ::
  "(nat \<Rightarrow> message list \<Rightarrow> jobj res) \<Rightarrow> (nat \<Rightarrow> rat) \<Rightarrow> (string \<Rightarrow> string) \<Rightarrow> string \<Rightarrow> nat \<Rightarrow> question3 \<Rightarrow> jobj" where
  "r3_answer ask elapsed read_text instruction i q =
     (case r3_row (ask i) read_text instruction (elapsed i) q of
        Inr row \<Rightarrow> row
      | Inl e \<Rightarrow> [(''id'', PInt (q3_id q)), (''name'', PStr (q3_name q)), (''correct'', PNone),
                  (''valid'', PBool False), (''error'', PStr (exn_text e)),
                  (''wall'', PFloat (py_round 3 (elapsed i)))])"

definition r3_mark :: "jobj \<Rightarrow> status" where
  "r3_mark row =
     (if jget row ''valid'' = PBool False then INVALID
      else if jget row ''correct'' = PNone then REVIEW
      else if truthy (jget row ''correct'') then PASS else FAIL)"

definition r3_payload :: "string \<Rightarrow> string \<Rightarrow> int \<Rightarrow> jobj list \<Rightarrow> jobj res" where
  "r3_payload key model_id attempt results =
     (let valid = filter (\<lambda>x. jget x ''valid'' \<noteq> PBool False) results;
          auto_rows = filter (\<lambda>x. jget x ''correct'' \<noteq> PNone) valid in
      res_bind (py_sum (map (\<lambda>x. jget x ''correct'') auto_rows)) (\<lambda>score.
      res_bind (py_sum (map (\<lambda>x. jget_or x ''wall'' (PInt 0)) results)) (\<lambda>wall.
      res_bind (py_round_val 3 wall) (\<lambda>wall.
        Inr [(''round'', PInt 3), (''model'', PStr key), (''model_id'', PStr model_id),
             (''attempt'', PInt attempt), (''score'', score),
             (''total'', PInt (int (length auto_rows))), (''planned'', PInt (int (length results))),
             (''infrastructure_errors'', PInt (int (length results) - int (length valid))),
             (''manual_review'', count_rows (\<lambda>x. jget x ''correct'' = PNone) valid),
             (''wall'', wall), (''results'', PList (map PDict results))]))))"

definition r3_run ::
  "string \<Rightarrow> string \<Rightarrow> int \<Rightarrow> question3 list \<Rightarrow> string \<Rightarrow> int list option
     \<Rightarrow> (nat \<Rightarrow> message list \<Rightarrow> jobj res) \<Rightarrow> (nat \<Rightarrow> rat) \<Rightarrow> (string \<Rightarrow> string)
     \<Rightarrow> (jobj \<times> progress_event list) res" where
  "r3_run key model_id attempt questions instruction flt ask elapsed read_text =
     (let qs = (case flt of
                  Some ids \<Rightarrow> if ids \<noteq> [] then filter (\<lambda>q. q3_id q \<in> set ids) questions else questions
                | None \<Rightarrow> questions);
          rows = map (\<lambda>(i, q). r3_answer ask elapsed read_text instruction i q) (enumerate 0 qs)
      in res_bind (r3_payload key model_id attempt rows) (\<lambda>payload.
           Inr (payload, concat (map (\<lambda>(q, row).
             [Started (item_name (q3_id q)),
              Completed (item_name (q3_id q)) (status_name (r3_mark row)) (jget row ''wall'')])
             (zip qs rows)))))"

section \<open>Properties of rounds 1 and 2\<close>

definition r12_verdict :: "question \<Rightarrow> jobj res \<Rightarrow> status" where
  "r12_verdict q reply =
     (case res_bind reply (\<lambda>r. res_bind (jitem r ''content'') (\<lambda>v. res_bind (str_or_empty v) (\<lambda>text.
             Inr (text, output_limited (jget r ''finish_reason''))))) of
        Inl e \<Rightarrow> INVALID
      | Inr (text, limited) \<Rightarrow>
          if limited then INCOMPLETE
          else if answer_matches (answer_text text) (q_ans q) then PASS else FAIL)"

definition verdict_correct :: "status \<Rightarrow> pyval" where
  "verdict_correct st = (case st of PASS \<Rightarrow> PBool True | FAIL \<Rightarrow> PBool False | _ \<Rightarrow> PNone)"

lemma jget_update: "jget (AList.update k v d) k' = (if k' = k then v else jget d k')"
  by (simp add: jget_def dict_get_def map_of_dict_update)

lemma jget_merge_absent: "k \<notin> fst ` set e \<Longrightarrow> jget (dict_merge d e) k = jget d k"
  by (simp add: jget_def dict_get_def dict_merge_absent)

lemma r12_row_cases:
  assumes "r12_row q r = Inr row"
  obtains content body where "jitem r ''content'' = Inr content" and "str_or_empty content = Inr body"
    and "r12_verdict q (Inr r) =
           (if output_limited (jget r ''finish_reason'') then INCOMPLETE
            else if answer_matches (answer_text body) (q_ans q) then PASS else FAIL)"
    and "\<And>k. k \<noteq> ''status'' \<Longrightarrow> k \<noteq> ''incomplete'' \<Longrightarrow> map_of row k = map_of (dict_merge
           [(''id'', PInt (q_id q)), (''type'', q_type q), (''expected'', PStr (q_ans q)),
            (''extracted'', PStr (answer_text body)), (''correct'', verdict_correct (r12_verdict q (Inr r))),
            (''content'', content)] (filter (\<lambda>kv. fst kv \<noteq> ''content'') r)) k"
    and "jget row ''status'' = PStr (status_name (r12_verdict q (Inr r)))"
proof -
  obtain content body where c: "jitem r ''content'' = Inr content" "str_or_empty content = Inr body"
    using assms by (auto simp: r12_row_def res_bind_Inr_iff Let_def)
  have v: "r12_verdict q (Inr r) =
           (if output_limited (jget r ''finish_reason'') then INCOMPLETE
            else if answer_matches (answer_text body) (q_ans q) then PASS else FAIL)"
    using c by (simp add: r12_verdict_def)
  show thesis
    using assms by (intro that [OF c v])
      (auto simp: r12_row_def c Let_def v verdict_correct_def map_of_dict_update jget_update
        simp del: status_name.simps)
qed

lemma r12_graded_status: "jget (r12_graded q reply t) ''status'' = PStr (status_name (r12_verdict q reply))"
proof (cases "res_bind reply (r12_row q)")
  case (Inl e)
  have "r12_verdict q reply = INVALID"
    using Inl by (cases reply) (auto simp: r12_verdict_def r12_row_def res_bind_Inl_iff Let_def)
  then show ?thesis using Inl by (simp add: r12_graded_def r12_error_row_def jget_def dict_get_def)
next
  case (Inr row)
  then obtain r where r: "reply = Inr r" "r12_row q r = Inr row" by (cases reply) auto
  from r(2) have "jget row ''status'' = PStr (status_name (r12_verdict q (Inr r)))"
    by (cases rule: r12_row_cases) simp
  then show ?thesis using Inr r by (simp add: r12_graded_def)
qed

interpretation r12: status_rows "\<lambda>(q, reply, t). r12_graded q reply t" "\<lambda>(q, reply, t). r12_verdict q reply"
    "\<lambda>_. True"
  by unfold_locales (auto simp: item_status_def r12_graded_status)

text \<open>What rounds 1 and 2 rely on in a response: the back-end does not write the grader's own
  key, and its time and token count are numbers.\<close>

definition reply_ok :: "jobj res \<Rightarrow> bool" where
  "reply_ok reply =
     (case reply of
        Inl e \<Rightarrow> True
      | Inr r \<Rightarrow> \<not> dict_has r ''correct'' \<and> py_num (jget_or r ''wall'' (PInt 0)) \<noteq> None
                 \<and> py_num (py_or (jget r ''completion_tokens'') (PInt 0)) \<noteq> None \<and> dict_wf r)"

lemma map_of_filter_key: "map_of (filter (\<lambda>kv. fst kv \<noteq> a) d) k = (if k = a then None else map_of d k)"
  by (induction d) auto

lemma map_of_rev_wf:
  assumes "dict_wf d"
  shows "map_of (rev d) k = map_of d k"
proof (cases "map_of d k")
  case None
  then have "map_of (rev d) k = None" by (simp only: map_of_eq_None_iff set_rev) simp
  then show ?thesis using None by simp
next
  case (Some v)
  moreover have "distinct (map fst (rev d))" using assms by (simp add: dict_wf_def rev_map [symmetric])
  ultimately show ?thesis using map_of_SomeD [OF Some] by simp
qed

lemma py_add_number:
  "py_num v \<noteq> None \<Longrightarrow> py_num w \<noteq> None \<Longrightarrow> \<exists>u. py_add v w = Inr u \<and> py_num u \<noteq> None"
  by (cases v; cases w) (auto simp: py_add_def as_int_def py_num_def)

lemma py_sum_number:
  assumes "\<forall>v\<in>set vs. py_num v \<noteq> None"
  shows "\<exists>w. py_sum vs = Inr w \<and> py_num w \<noteq> None"
proof -
  have "\<exists>w. res_fold py_add u vs = Inr w \<and> py_num w \<noteq> None" if "py_num u \<noteq> None" for u
    using assms that
  proof (induction vs arbitrary: u)
    case (Cons v vs)
    then obtain u' where "py_add u v = Inr u'" "py_num u' \<noteq> None" using py_add_number [of u v] by auto
    then show ?case using Cons by simp
  qed simp
  then show ?thesis by (simp add: py_sum_def py_num_def)
qed

lemma py_round_number: "py_num v \<noteq> None \<Longrightarrow> \<exists>w. py_round_val n v = Inr w"
  by (cases v) (auto simp: py_round_val_def py_num_def)

lemma r12_graded_fields:
  assumes "reply_ok reply"
  shows "jget (r12_graded q reply t) ''correct'' = verdict_correct (r12_verdict q reply)"
    and "py_num (jget_or (r12_graded q reply t) ''wall'' (PInt 0)) \<noteq> None"
    and "py_num (py_or (jget (r12_graded q reply t) ''completion_tokens'') (PInt 0)) \<noteq> None"
proof (atomize (full), cases "res_bind reply (r12_row q)")
  case (Inl e)
  have "r12_verdict q reply = INVALID"
    using Inl by (cases reply) (auto simp: r12_verdict_def r12_row_def res_bind_Inl_iff Let_def)
  then show "jget (r12_graded q reply t) ''correct'' = verdict_correct (r12_verdict q reply)
    \<and> py_num (jget_or (r12_graded q reply t) ''wall'' (PInt 0)) \<noteq> None
    \<and> py_num (py_or (jget (r12_graded q reply t) ''completion_tokens'') (PInt 0)) \<noteq> None"
    using Inl by (simp add: r12_graded_def r12_error_row_def jget_def jget_or_def dict_get_def
        verdict_correct_def py_num_def py_or_def)
next
  case (Inr row)
  then obtain r where r: "reply = Inr r" "r12_row q r = Inr row" by (cases reply) auto
  then have ok: "dict_wf r" "map_of r ''correct'' = None"
    using assms by (auto simp: reply_ok_def dict_has_iff)
  from r(2) show "jget (r12_graded q reply t) ''correct'' = verdict_correct (r12_verdict q reply)
    \<and> py_num (jget_or (r12_graded q reply t) ''wall'' (PInt 0)) \<noteq> None
    \<and> py_num (py_or (jget (r12_graded q reply t) ''completion_tokens'') (PInt 0)) \<noteq> None"
  proof (cases rule: r12_row_cases)
    case (1 content body)
    have wf: "dict_wf (filter (\<lambda>kv. fst kv \<noteq> ''content'') r)"
      using ok(1) by (simp add: dict_wf_def distinct_map_filter)
    have "map_of row ''correct'' = Some (verdict_correct (r12_verdict q (Inr r)))"
      "map_of row ''wall'' = map_of r ''wall''" "map_of row ''completion_tokens'' = map_of r ''completion_tokens''"
      using ok by (simp_all add: 1(4) map_of_dict_merge map_of_rev_wf [OF wf] map_of_filter_key split: option.split)
    then show ?thesis using r Inr assms
      by (simp add: r12_graded_def jget_def jget_or_def dict_get_def reply_ok_def)
  qed
qed

text \<open>The replies a run collects, question by question.\<close>

definition r12_items ::
  "(nat \<Rightarrow> message list \<Rightarrow> jobj res) \<Rightarrow> (nat \<Rightarrow> rat) \<Rightarrow> question list \<Rightarrow> (question \<times> jobj res \<times> rat) list" where
  "r12_items ask elapsed qs =
     map (\<lambda>(i, q). (q, ask i [(''user'', PStr (q_text q @ SUFFIX))], elapsed i)) (enumerate 0 qs)"

lemma r12_rows_items:
  "map (\<lambda>(i, q). r12_answer ask elapsed i q) (enumerate 0 qs)
     = map (\<lambda>(q, reply, t). r12_graded q reply t) (r12_items ask elapsed qs)"
  by (simp add: r12_items_def r12_answer_def case_prod_beta' o_def)

lemma filter_length_add:
  "length (filter P xs) + length (filter Q xs) = length (filter (\<lambda>x. P x \<or> Q x) xs)"
  if "\<And>x. \<not> (P x \<and> Q x)"
  using that by (induction xs) auto

lemma r12_payload_counts:
  assumes rows: "rows = map (\<lambda>(q, reply, t). r12_graded q reply t) its"
    and ok: "\<forall>(q, reply, t)\<in>set its. reply_ok reply" and ne: "its \<noteq> []"
  shows "\<exists>payload c. r12_payload n key mid att rows = Inr payload \<and> result_counts payload = Inr c
     \<and> jget payload ''score'' = PInt (c PASS) \<and> jget payload ''total'' = PInt (c PASS + c FAIL)
     \<and> jget payload ''incomplete'' = PInt (c INCOMPLETE)
     \<and> jget payload ''infrastructure_errors'' = PInt (c INVALID) \<and> c REVIEW = 0"
proof -
  define vd where "vd = (\<lambda>(q, reply, t :: rat). r12_verdict q reply)"
  define c where "c = (\<lambda>st. int (length (filter (\<lambda>i. vd i = st) its)))"
  have graded: "jget r ''correct'' = verdict_correct (vd i) \<and> jget r ''status'' = PStr (status_name (vd i))
      \<and> py_num (jget_or r ''wall'' (PInt 0)) \<noteq> None \<and> py_num (py_or (jget r ''completion_tokens'') (PInt 0)) \<noteq> None"
    if "i \<in> set its" "r = (\<lambda>(q, reply, t). r12_graded q reply t) i" for i r
  proof -
    obtain q reply t where i: "i = (q, reply, t)" by (cases i) auto
    then have "reply_ok reply" using that(1) ok by auto
    then show ?thesis using that(2) i r12_graded_fields [of reply q t] r12_graded_status [of q reply t]
      by (simp add: vd_def)
  qed
  obtain w where w: "py_sum (map (\<lambda>x. jget_or x ''wall'' (PInt 0)) rows) = Inr w" "py_num w \<noteq> None"
    using py_sum_number [of "map (\<lambda>x. jget_or x ''wall'' (PInt 0)) rows"] graded rows by fastforce
  obtain w' where w': "py_round_val 3 w = Inr w'" using py_round_number w by blast
  obtain tk where tk: "py_sum (map (\<lambda>x. py_or (jget x ''completion_tokens'') (PInt 0)) rows) = Inr tk"
    using py_sum_number [of "map (\<lambda>x. py_or (jget x ''completion_tokens'') (PInt 0)) rows"] graded rows by fastforce
  have filt: "length (filter P rows) = length (filter Q its)"
    if "\<And>i r. i \<in> set its \<Longrightarrow> r = (\<lambda>(q, reply, t). r12_graded q reply t) i \<Longrightarrow> P r = Q i" for P Q
    using that by (auto simp: rows filter_map o_def intro!: arg_cong [where f = length] filter_cong)
  have score: "length (filter (\<lambda>x. truthy (jget x ''correct'')) (filter (\<lambda>x. jget x ''correct'' \<noteq> PNone) rows))
      = length (filter (\<lambda>i. vd i = PASS) its)"
    unfolding filter_filter by (rule filt) (auto simp: graded verdict_correct_def split: status.splits)
  have tot: "length (filter (\<lambda>x. jget x ''correct'' \<noteq> PNone) rows)
      = length (filter (\<lambda>i. vd i = PASS) its) + length (filter (\<lambda>i. vd i = FAIL) its)"
    by (subst filter_length_add, simp, rule filt) (auto simp: graded verdict_correct_def split: status.splits)
  have st: "length (filter (row_status_is st) rows) = length (filter (\<lambda>i. vd i = st) its)" for st
    by (rule filt) (simp add: graded row_status_is_def)
  have noreview: "filter (\<lambda>i. vd i = REVIEW) its = []"
    by (auto simp: filter_empty_conv vd_def r12_verdict_def split: sum.splits if_splits)
  have "\<exists>payload. r12_payload n key mid att rows = Inr payload
      \<and> jget payload ''results'' = PList (map PDict rows) \<and> jget payload ''score'' = PInt (c PASS)
      \<and> jget payload ''total'' = PInt (c PASS + c FAIL) \<and> jget payload ''incomplete'' = PInt (c INCOMPLETE)
      \<and> jget payload ''infrastructure_errors'' = PInt (c INVALID)"
    by (simp add: r12_payload_def w w' tk Let_def jget_def [of "_ # _"] dict_get_def count_rows_def
        score [simplified] tot [simplified] st c_def)
  then obtain payload where pl: "r12_payload n key mid att rows = Inr payload"
    "jget payload ''results'' = PList (map PDict rows)" "jget payload ''score'' = PInt (c PASS)"
    "jget payload ''total'' = PInt (c PASS + c FAIL)" "jget payload ''incomplete'' = PInt (c INCOMPLETE)"
    "jget payload ''infrastructure_errors'' = PInt (c INVALID)" by blast
  have "result_counts payload = Inr c"
    using r12.counts_of_rows [of payload its] pl(2) ne rows
    by (simp add: c_def vd_def list_all_iff o_def)
  moreover have "c REVIEW = 0" using noreview by (simp add: c_def)
  ultimately show ?thesis using pl by blast
qed



section \<open>Properties of round 3\<close>

text \<open>The best reward reachable from a state with at most \<open>n\<close> more jobs, by exhaustive search.\<close>

primrec best_reward :: "nat \<Rightarrow> int \<Rightarrow> string list \<Rightarrow> int" where
  "best_reward 0 now finished = 0"
| "best_reward (Suc n) now finished =
     foldl max 0 (map (\<lambda>(key, duration, deadline, points, deps).
        if key \<in> set finished \<or> \<not> list_all (\<lambda>dep. dep \<in> set finished) deps \<or> deadline < now + duration
        then 0 else points + best_reward n (now + duration) (key # finished)) JOBS)"

lemma foldl_max_start: "(a :: int) \<le> foldl max a xs"
proof (induction xs arbitrary: a)
  case (Cons x xs)
  show ?case by (simp, rule order_trans [OF max.cobounded1 Cons])
qed simp

lemma foldl_max_ge: "x \<in> set xs \<Longrightarrow> (x :: int) \<le> foldl max a xs"
proof (induction xs arbitrary: a)
  case (Cons y ys)
  then show ?case using foldl_max_start [of "max a x" ys] by auto
qed simp

lemma best_reward_nonneg: "0 \<le> best_reward n now finished"
  by (cases n) (simp_all add: foldl_max_start)

lemma sim_jobs_le_best:
  assumes "sim_jobs seq now reward finished = Some r" and "distinct finished"
    and "set finished \<subseteq> set (map fst JOBS)" and "length (map fst JOBS) \<le> n + length finished"
  shows "r \<le> reward + best_reward n now finished"
  using assms
proof (induction seq arbitrary: n now reward finished)
  case Nil
  then show ?case using best_reward_nonneg [of n now finished] by simp
next
  case (Cons key seq)
  from Cons.prems(1) obtain duration deadline points deps where
    job: "map_of JOBS key = Some (duration, deadline, points, deps)" and new: "key \<notin> set finished"
    and ok: "list_all (\<lambda>dep. dep \<in> set finished) deps" "\<not> deadline < now + duration"
    and rest: "sim_jobs seq (now + duration) (reward + points) (key # finished) = Some r"
    by (auto split: option.splits if_splits prod.splits)
  have inJ: "(key, duration, deadline, points, deps) \<in> set JOBS" using job by (rule map_of_SomeD)
  then have sub: "set (key # finished) \<subseteq> set (map fst JOBS)" using Cons.prems(3) by force
  have "card (set (key # finished)) \<le> card (set (map fst JOBS))" using sub by (intro card_mono) auto
  then have "Suc (length finished) \<le> length (map fst JOBS)"
    using new Cons.prems(2) card_length [of "map fst JOBS"] by (simp add: distinct_card)
  then obtain m where n: "n = Suc m" using Cons.prems(4) by (cases n) auto
  have "r \<le> reward + points + best_reward m (now + duration) (key # finished)"
    using Cons.IH [OF rest, of m] new Cons.prems(2,4) sub n by simp
  moreover have "points + best_reward m (now + duration) (key # finished) \<le> best_reward n now finished"
    unfolding n best_reward.simps(2)
    by (rule foldl_max_ge, unfold set_map, rule image_eqI [OF _ inJ]) (use new ok in simp)
  ultimately show ?case by simp
qed

lemma best_reward_start: "best_reward 6 0 [] = 31"
  by code_simp

text \<open>C11. The scheduling key of question 21 is right: no answer, however it is written, simulates
  to more than 31 points, 31 is reached, and the greedy order the grader asks for is feasible and
  earns the 20 points the grader expects.\<close>

theorem simulate_optimal:
  "(case simulate v of None \<Rightarrow> True | Some r \<Rightarrow> r \<le> 31)
   \<and> simulate ''A, B, C, D, E'' = Some 31 \<and> simulate ''A > E > F'' = Some 20"
proof (intro conjI)
  show "case simulate v of None \<Rightarrow> True | Some r \<Rightarrow> r \<le> 31"
    using sim_jobs_le_best [of _ 0 0 "[]" _ 6] best_reward_start
    by (auto simp: simulate_def JOBS_def split: option.splits)
  show "simulate ''A, B, C, D, E'' = Some 31" by code_simp
  show "simulate ''A > E > F'' = Some 20" by code_simp
qed

text \<open>What round 3 relies on in a response, in addition to the numbers: the back-end writes none
  of the keys that carry a verdict.\<close>

definition verdict_keys :: "string list" where
  "verdict_keys = [''status'', ''valid'', ''correct'', ''incomplete'', ''manual_review_required'']"

definition reply3_ok :: "jobj \<Rightarrow> bool" where
  "reply3_ok r \<longleftrightarrow> (\<forall>k\<in>set verdict_keys. \<not> dict_has r k) \<and> \<not> output_limited (jget r ''finish_reason'')"

definition row3_ok :: "jobj \<Rightarrow> bool" where
  "row3_ok d \<longleftrightarrow> jget d ''status'' = PNone \<and> jget d ''incomplete'' = PNone
     \<and> \<not> output_limited (jget d ''finish_reason'')
     \<and> (truthy (jget d ''manual_review_required'') \<longrightarrow> jget d ''correct'' = PNone)
     \<and> jget d ''correct'' \<in> {PNone, PBool True, PBool False}"

interpretation r3: status_rows "\<lambda>d. d" r3_mark row3_ok
  by unfold_locales (auto simp: row3_ok_def item_status_def r3_mark_def explicit_status_def)

lemma grade_correct: "jget (grade qid f) ''correct'' \<in> {PNone, PBool True, PBool False}"
  by (auto simp: grade_def jget_def dict_get_def split: option.splits)

lemma grade_keys: "fst ` set (grade qid f) \<subseteq> {''fields'', ''checks'', ''correct''}" "dict_wf (grade qid f)"
  by (auto simp: grade_def dict_wf_def split: option.splits)

lemma r3_single_row_ok:
  assumes "reply3_ok r" and "dict_wf r"
  shows "row3_ok (dict_merge (dict_merge [(''id'', i), (''name'', nm)] (grade qid f)) r)"
proof -
  have abs: "map_of r k = None" if "k \<in> set verdict_keys" for k
    using assms that by (auto simp: reply3_ok_def dict_has_iff)
  have g: "k \<notin> {''fields'', ''checks'', ''correct''} \<Longrightarrow> map_of (grade qid f) k = None" for k
    using grade_keys(1) [of qid f] by (auto simp: map_of_eq_None_iff)
  note m = map_of_dict_merge map_of_rev_wf [OF assms(2)] map_of_rev_wf [OF grade_keys(2)]
  have "jget (dict_merge (dict_merge [(''id'', i), (''name'', nm)] (grade qid f)) r) ''correct''
      = jget (grade qid f) ''correct''"
    by (simp add: jget_def dict_get_def m abs verdict_keys_def split: option.split)
  moreover have "jget (dict_merge (dict_merge [(''id'', i), (''name'', nm)] (grade qid f)) r) ''finish_reason''
      = jget r ''finish_reason''"
    by (simp add: jget_def dict_get_def m g split: option.split)
  moreover have "jget (dict_merge (dict_merge [(''id'', i), (''name'', nm)] (grade qid f)) r) k = PNone"
    if "k \<in> {''status'', ''incomplete'', ''manual_review_required''}" for k
    using that by (auto simp: jget_def dict_get_def m abs g verdict_keys_def)
  ultimately show ?thesis using assms(1) grade_correct [of qid f]
    by (simp add: row3_ok_def reply3_ok_def)
qed

lemma r3_answer_ok:
  assumes "\<forall>i ms r. ask i ms = Inr r \<longrightarrow> reply3_ok r \<and> dict_wf r"
  shows "row3_ok (r3_answer ask elapsed read_text instruction i q)"
proof (cases "r3_row (ask i) read_text instruction (elapsed i) q")
  case (Inl e)
  then show ?thesis
    by (simp add: r3_answer_def row3_ok_def jget_def dict_get_def output_limited_def)
next
  case (Inr row)
  show ?thesis
  proof (cases "q3_multi q")
    case True
    then show ?thesis using Inr
      by (auto simp: r3_answer_def r3_row_def res_bind_Inr_iff row3_ok_def jget_def dict_get_def output_limited_def)
  next
    case False
    with Inr obtain r body where "ask i [(''user'', PStr (prompt3 read_text instruction q))] = Inr r"
      "row = dict_merge (dict_merge [(''id'', PInt (q3_id q)), (''name'', PStr (q3_name q))]
               (grade (q3_id q) (fields_of body))) r"
      by (auto simp: r3_row_def res_bind_Inr_iff)
    then show ?thesis using Inr assms r3_single_row_ok by (simp add: r3_answer_def)
  qed
qed

lemma py_sum_bools:
  "\<forall>x\<in>set xs. jget x ''correct'' \<in> {PBool True, PBool False} \<Longrightarrow>
   py_sum (map (\<lambda>x. jget x ''correct'') xs) = Inr (PInt (int (length (filter (\<lambda>x. jget x ''correct'' = PBool True) xs))))"
proof -
  have "res_fold py_add (PInt n) (map (\<lambda>x. jget x ''correct'') xs)
      = Inr (PInt (n + int (length (filter (\<lambda>x. jget x ''correct'' = PBool True) xs))))"
    if "\<forall>x\<in>set xs. jget x ''correct'' \<in> {PBool True, PBool False}" for n
    using that by (induction xs arbitrary: n) (auto simp: py_add_def as_int_def)
  then show "\<forall>x\<in>set xs. jget x ''correct'' \<in> {PBool True, PBool False} \<Longrightarrow> ?thesis" by (simp add: py_sum_def)
qed

lemma filter_imp_length: "(\<And>x. x \<in> set xs \<Longrightarrow> P x = Q x) \<Longrightarrow> length (filter P xs) = length (filter Q xs)"
  by (simp cong: filter_cong)

lemma r3_payload_counts:
  assumes ok: "list_all row3_ok rows" and ne: "rows \<noteq> []"
    and pl: "r3_payload key mid att rows = Inr payload"
  shows "\<exists>c. result_counts payload = Inr c \<and> jget payload ''score'' = PInt (c PASS)
     \<and> jget payload ''total'' = PInt (c PASS + c FAIL) \<and> jget payload ''manual_review'' = PInt (c REVIEW)
     \<and> jget payload ''infrastructure_errors'' = PInt (c INVALID) \<and> c INCOMPLETE = 0"
proof -
  define c where "c = (\<lambda>st. int (length (filter (\<lambda>d. r3_mark d = st) rows)))"
  have cor: "jget d ''correct'' \<in> {PNone, PBool True, PBool False}" if "d \<in> set rows" for d
    using ok that by (simp add: list_all_iff row3_ok_def)
  define av where "av = filter (\<lambda>x. jget x ''correct'' \<noteq> PNone) (filter (\<lambda>x. jget x ''valid'' \<noteq> PBool False) rows)"
  have "py_sum (map (\<lambda>x. jget x ''correct'') av)
      = Inr (PInt (int (length (filter (\<lambda>x. jget x ''correct'' = PBool True) av))))"
    by (rule py_sum_bools) (use cor in \<open>auto simp: av_def\<close>)
  also have "length (filter (\<lambda>x. jget x ''correct'' = PBool True) av) = length (filter (\<lambda>d. r3_mark d = PASS) rows)"
    unfolding av_def filter_filter by (rule filter_imp_length, drule cor) (auto simp: r3_mark_def)
  finally have score: "py_sum (map (\<lambda>x. jget x ''correct'') av) = Inr (PInt (c PASS))" by (simp add: c_def)
  have tot: "int (length av) = c PASS + c FAIL"
    unfolding av_def c_def filter_filter of_nat_add [symmetric] of_nat_eq_iff
    by (subst filter_length_add, simp, rule filter_imp_length) (auto simp: r3_mark_def)
  have rv: "length (filter (\<lambda>x. jget x ''correct'' = PNone) (filter (\<lambda>x. jget x ''valid'' \<noteq> PBool False) rows))
      = length (filter (\<lambda>d. r3_mark d = REVIEW) rows)"
    unfolding filter_filter by (rule filter_imp_length) (auto simp: r3_mark_def)
  have inv: "int (length rows) - int (length (filter (\<lambda>x. jget x ''valid'' \<noteq> PBool False) rows)) = c INVALID"
    using sum_length_filter_compl [of "\<lambda>x. jget x ''valid'' \<noteq> PBool False" rows]
      filter_imp_length [of rows "\<lambda>x. \<not> jget x ''valid'' \<noteq> PBool False" "\<lambda>d. r3_mark d = INVALID"]
    by (simp add: c_def r3_mark_def)
  have fields: "jget payload ''results'' = PList (map PDict rows) \<and> jget payload ''score'' = PInt (c PASS)
     \<and> jget payload ''total'' = PInt (c PASS + c FAIL) \<and> jget payload ''manual_review'' = PInt (c REVIEW)
     \<and> jget payload ''infrastructure_errors'' = PInt (c INVALID)"
    using pl score tot rv inv
    by (auto simp: r3_payload_def Let_def res_bind_Inr_iff av_def jget_def [of "_ # _"] dict_get_def count_rows_def c_def)
  moreover have "result_counts payload = Inr c"
    using r3.counts_of_rows [of payload rows] fields ne ok by (simp add: c_def o_def)
  moreover have "c INCOMPLETE = 0" by (simp add: c_def r3_mark_def filter_empty_conv)
  ultimately show ?thesis by blast
qed

definition r3_questions :: "question3 list \<Rightarrow> int list option \<Rightarrow> question3 list" where
  "r3_questions questions flt =
     (case flt of
        Some ids \<Rightarrow> if ids \<noteq> [] then filter (\<lambda>q. q3_id q \<in> set ids) questions else questions
      | None \<Rightarrow> questions)"

lemma r3_run_rows:
  "r3_run key mid att questions instruction flt ask elapsed read_text = Inr (payload, events) \<Longrightarrow>
   r3_payload key mid att (map (\<lambda>(i, q). r3_answer ask elapsed read_text instruction i q)
     (enumerate 0 (r3_questions questions flt))) = Inr payload"
  by (auto simp: r3_run_def r3_questions_def Let_def res_bind_Inr_iff)

text \<open>When no reply of round 3 was cut at the output limit, the score, total, review and error
  counts of its payload are the ones that the shared counter reads back from its rows.\<close>

lemma r3_run_consistent:
  assumes "r3_run key mid att questions instruction flt ask elapsed read_text = Inr (payload, events)"
    and "r3_questions questions flt \<noteq> []"
    and "\<forall>i ms r. ask i ms = Inr r \<longrightarrow> reply3_ok r \<and> dict_wf r"
  shows "\<exists>c. result_counts payload = Inr c \<and> jget payload ''score'' = PInt (c PASS)
     \<and> jget payload ''total'' = PInt (c PASS + c FAIL) \<and> jget payload ''manual_review'' = PInt (c REVIEW)
     \<and> jget payload ''infrastructure_errors'' = PInt (c INVALID) \<and> c INCOMPLETE = 0"
  by (rule r3_payload_counts [OF _ _ r3_run_rows [OF assms(1)]])
    (use assms(2) r3_answer_ok [OF assms(3)] in \<open>auto simp: list_all_iff enumerate_eq_zip\<close>)

definition q24_demo :: question3 where
  "q24_demo = \<lparr>q3_id = 24, q3_name = ''q24'', q3_multi = False, q3_turns = [], q3_prompt = ''p'',
     q3_artifacts = [], q3_example = []\<rparr>"

definition q24_reply :: "string \<Rightarrow> jobj" where
  "q24_reply reason =
     [(''content'', PStr (''FIX_FUNCTION: normalize'' @ newline # ''TESTS_AFTER_FIX: 15'' @ newline #
         ''SPAN_FIX_REGRESSIONS: T09, T11'')), (''finish_reason'', PStr reason)]"

definition r3_demo :: "string \<Rightarrow> (jobj \<times> progress_event list) res" where
  "r3_demo reason = r3_run ''m'' ''m'' 1 [q24_demo] [] None (\<lambda>_ _. Inr (q24_reply reason)) (\<lambda>_. 1) (\<lambda>_. [])"

definition q24_row :: "string \<Rightarrow> jobj" where
  "q24_row reason =
     dict_merge (dict_merge [(''id'', PInt 24), (''name'', PStr ''q24'')]
       (grade 24 (fields_of (''FIX_FUNCTION: normalize'' @ newline # ''TESTS_AFTER_FIX: 15'' @ newline #
         ''SPAN_FIX_REGRESSIONS: T09, T11'')))) (q24_reply reason)"

lemma r3_demo_row:
  "r3_row (\<lambda>_. Inr (q24_reply reason)) (\<lambda>_. []) [] 1 q24_demo = Inr (q24_row reason)"
  by (simp add: r3_row_def q24_demo_def jitem_def need_str_def q24_row_def q24_reply_def)

lemma r3_demo_payload:
  "r3_demo reason = res_bind (r3_payload ''m'' ''m'' 1 [q24_row reason]) (\<lambda>pl. Inr (pl,
     [Started ''q24'', Completed ''q24'' (status_name (r3_mark (q24_row reason))) (jget (q24_row reason) ''wall'')]))"
proof -
  have "item_name 24 = ''q24''" by code_simp
  then show ?thesis by (simp add: r3_demo_def r3_run_def Let_def r3_answer_def r3_demo_row cong del: res_bind_weak_cong)
      (simp add: q24_demo_def cong del: res_bind_weak_cong)
qed

lemma q24_grade:
  "grade 24 (fields_of (''FIX_FUNCTION: normalize'' @ newline # ''TESTS_AFTER_FIX: 15'' @ newline #
       ''SPAN_FIX_REGRESSIONS: T09, T11'')) =
     [(''fields'', PDict [(''FIX_FUNCTION'', PStr ''normalize''), (''TESTS_AFTER_FIX'', PStr ''15''),
         (''SPAN_FIX_REGRESSIONS'', PStr ''T09, T11'')]),
      (''checks'', PDict [(''FIX_FUNCTION'', PBool True), (''TESTS_AFTER_FIX'', PBool True),
         (''SPAN_FIX_REGRESSIONS'', PBool True)]), (''correct'', PBool True)]"
  by code_simp

lemma q24_row_facts:
  "jget (q24_row reason) ''correct'' = PBool True" "jget (q24_row reason) ''valid'' = PNone"
  "jget_or (q24_row reason) ''wall'' (PInt 0) = PInt 0"
  "item_status (q24_row ''length'') = INCOMPLETE"
proof -
  have lim: "output_limited (PStr ''length'')" by code_simp
  show "jget (q24_row reason) ''correct'' = PBool True" "jget (q24_row reason) ''valid'' = PNone"
    "jget_or (q24_row reason) ''wall'' (PInt 0) = PInt 0" "item_status (q24_row ''length'') = INCOMPLETE"
    unfolding q24_row_def q24_grade q24_reply_def
    by (simp_all add: dict_merge_def jget_def jget_or_def dict_get_def item_status_def explicit_status_def lim)
qed

lemma r3_demo_run:
  "\<exists>pl ev. r3_demo reason = Inr (pl, ev) \<and> jget pl ''score'' = PInt 1 \<and> jget pl ''total'' = PInt 1
     \<and> jget pl ''results'' = PList [PDict (q24_row reason)]"
  by (simp add: r3_demo_payload r3_payload_def q24_row_facts py_sum_def py_add_def as_int_def
      py_round_val_def jget_def [of "_ # _"] dict_get_def)

text \<open>Cut at the output limit, the same reply still adds to the score and the total of the
  payload, while the shared counter sees no pass and no fail.\<close>

lemma r3_output_limited_mismatch:
  "\<exists>pl ev c. r3_demo ''length'' = Inr (pl, ev) \<and> jget pl ''score'' = PInt 1 \<and> jget pl ''total'' = PInt 1
     \<and> result_counts pl = Inr c \<and> c PASS = 0 \<and> c FAIL = 0 \<and> c INCOMPLETE = 1"
proof -
  obtain pl ev where pl: "r3_demo ''length'' = Inr (pl, ev)" "jget pl ''score'' = PInt 1"
    "jget pl ''total'' = PInt 1" "jget pl ''results'' = PList [PDict (q24_row ''length'')]"
    using r3_demo_run [of "''length''"] by blast
  then show ?thesis using result_counts_rows [of pl "[q24_row ''length'']"] by (simp add: q24_row_facts)
qed

lemma r3_run_consistent_witness:
  "\<exists>pl ev c. r3_demo ''stop'' = Inr (pl, ev) \<and> result_counts pl = Inr c \<and> c PASS = 1"
proof -
  obtain pl ev where run: "r3_demo ''stop'' = Inr (pl, ev)" and sc: "jget pl ''score'' = PInt 1"
    using r3_demo_run by blast
  have "reply3_ok (q24_reply ''stop'') \<and> dict_wf (q24_reply ''stop'')" by code_simp
  then have "\<exists>c. result_counts pl = Inr c \<and> jget pl ''score'' = PInt (c PASS)
     \<and> jget pl ''total'' = PInt (c PASS + c FAIL) \<and> jget pl ''manual_review'' = PInt (c REVIEW)
     \<and> jget pl ''infrastructure_errors'' = PInt (c INVALID) \<and> c INCOMPLETE = 0"
    by (intro r3_run_consistent [OF run [unfolded r3_demo_def]]) (auto simp: r3_questions_def)
  with run sc show ?thesis by auto
qed

end
