(* ===== verification/Config.thy ===== *)
theory Config
  imports Round123 Py_Json
begin

text \<open>
  Campaign configurations (\<open>src/llm_hardtest/orchestrator.py\<close>, first half): safe path
  components, the rounds and item filters of a model, \<open>validate_config\<close>, the item ids of a
  round and the number of units of a campaign.

  A configuration is a JSON value. \<open>res_seq\<close> runs checks in order and keeps the first
  exception. The files of the question banks, \<open>shutil.which\<close>, the platform name, the
  bracketed-host test of the URL parser and \<open>str()\<close> of floats and containers are parameters.
\<close>

section \<open>Checks in sequence\<close>

definition fail_if :: "bool \<Rightarrow> exn \<Rightarrow> unit res" where
  "fail_if b e = (if b then Inl e else Inr ())"

definition res_seq :: "unit res list \<Rightarrow> unit res" where
  "res_seq cs = res_all id cs"

lemma fail_if_Inr [simp]: "fail_if b e = Inr () \<longleftrightarrow> \<not> b"
  by (simp add: fail_if_def)

lemma res_seq_Nil [simp]: "res_seq [] = Inr ()"
  by (simp add: res_seq_def)

lemma res_seq_Cons_Inr [simp]: "res_seq (c # cs) = Inr () \<longleftrightarrow> c = Inr () \<and> res_seq cs = Inr ()"
  by (cases c) (simp_all add: res_seq_def)

lemma res_seq_ok [simp]: "res_seq (Inr () # cs) = res_seq cs"
  by (simp add: res_seq_def)

text \<open>Values that a set can hold, and \<open>len(xs) == len(set(xs))\<close> for such values.\<close>

definition hashable :: "pyval \<Rightarrow> bool" where
  "hashable v \<longleftrightarrow> \<not> is_list v \<and> \<not> is_dict v"

fun py_distinct :: "pyval list \<Rightarrow> bool" where
  "py_distinct [] = True"
| "py_distinct (x # xs) = (\<not> list_ex (py_eq x) xs \<and> py_distinct xs)"

text \<open>\<open>v in {...}\<close> for a set of strings: hashing comes before comparing.\<close>

definition in_str_set :: "pyval \<Rightarrow> string list \<Rightarrow> bool res" where
  "in_str_set v ws =
     (if hashable v then Inr (v \<in> set (map PStr ws)) else Inl (TypeError ''unhashable type''))"

definition jstr :: "(pyval \<Rightarrow> string) \<Rightarrow> pyval \<Rightarrow> string" where
  "jstr strf v =
     (case v of PStr s \<Rightarrow> s | PInt i \<Rightarrow> show_int i | PNone \<Rightarrow> ''None''
      | PBool b \<Rightarrow> (if b then ''True'' else ''False'') | _ \<Rightarrow> strf v)"

section \<open>URLs\<close>

text \<open>\<open>urlparse\<close> as far as the validator reads it: the scheme, the network location, the query
  and the fragment, and the parts of the network location.\<close>

record url =
  u_scheme :: string
  u_netloc :: string
  u_query :: string
  u_fragment :: string

definition partition_at :: "char \<Rightarrow> string \<Rightarrow> string \<times> bool \<times> string" where
  "partition_at c s =
     (takeWhile (\<lambda>x. x \<noteq> c) s, c \<in> set s, drop 1 (dropWhile (\<lambda>x. x \<noteq> c) s))"

definition rpartition_at :: "char \<Rightarrow> string \<Rightarrow> string \<times> bool \<times> string" where
  "rpartition_at c s =
     (rev (drop 1 (dropWhile (\<lambda>x. x \<noteq> c) (rev s))), c \<in> set s, rev (takeWhile (\<lambda>x. x \<noteq> c) (rev s)))"

definition scheme_ch :: "char \<Rightarrow> bool" where
  "scheme_ch c \<longleftrightarrow> ch_alnum c \<or> c \<in> set ''+-.''"

definition url_clean :: "string \<Rightarrow> string" where
  "url_clean s =
     filter (\<lambda>c. c \<notin> {CHR 0x09, CHR 0x0A, CHR 0x0D}) (dropWhile (\<lambda>c. ch_code c \<le> 32) s)"

definition split_scheme :: "string \<Rightarrow> string \<times> string" where
  "split_scheme s =
     (case partition_at (CHR '':'') s of (a, colon, b) \<Rightarrow>
        if colon \<and> a \<noteq> [] \<and> ch_alpha (hd a) \<and> list_all scheme_ch a then (str_lower a, b) else ([], s))"

definition bad_brackets :: "(string \<Rightarrow> bool) \<Rightarrow> string \<Rightarrow> bool" where
  "bad_brackets ip_ok n \<longleftrightarrow>
     (CHR ''['' \<in> set n) \<noteq> (CHR '']'' \<in> set n) \<or> (CHR ''['' \<in> set n \<and> \<not> ip_ok n)"

definition urlparse :: "(string \<Rightarrow> bool) \<Rightarrow> string \<Rightarrow> url res" where
  "urlparse ip_ok s =
     (let (scheme, r) = split_scheme (url_clean s);
          slashes = starts_with ''//'' r;
          n = (if slashes then takeWhile (\<lambda>c. c \<notin> set ''/?#'') (drop 2 r) else []);
          r = (if slashes then dropWhile (\<lambda>c. c \<notin> set ''/?#'') (drop 2 r) else r);
          (r, _, fragment) = partition_at (CHR ''#'') r;
          (r, _, query) = partition_at (CHR ''?'') r
      in if bad_brackets ip_ok n then Inl (ValueError ''Invalid IPv6 URL'')
         else Inr \<lparr>u_scheme = scheme, u_netloc = n, u_query = query, u_fragment = fragment\<rparr>)"

definition u_username :: "url \<Rightarrow> string" where
  "u_username u =
     (case rpartition_at (CHR ''@'') (u_netloc u) of (info, _, _) \<Rightarrow> fst (partition_at (CHR '':'') info))"

definition u_password :: "url \<Rightarrow> string" where
  "u_password u =
     (case rpartition_at (CHR ''@'') (u_netloc u) of (info, _, _) \<Rightarrow> snd (snd (partition_at (CHR '':'') info)))"

definition u_hostinfo :: "url \<Rightarrow> string \<times> string" where
  "u_hostinfo u =
     (case rpartition_at (CHR ''@'') (u_netloc u) of (_, _, host) \<Rightarrow>
        if CHR ''['' \<in> set host
        then (case partition_at (CHR '']'') (snd (snd (partition_at (CHR ''['') host))) of (h, _, p) \<Rightarrow>
                (h, snd (snd (partition_at (CHR '':'') p))))
        else (case partition_at (CHR '':'') host of (h, _, p) \<Rightarrow> (h, p)))"

definition u_hostname :: "url \<Rightarrow> string" where
  "u_hostname u =
     (case partition_at (CHR ''%'') (fst (u_hostinfo u)) of (h, pc, zone) \<Rightarrow>
        str_lower h @ (if pc then ''%'' else []) @ zone)"

definition u_port :: "url \<Rightarrow> nat option res" where
  "u_port u =
     (let p = snd (u_hostinfo u) in
      if p = [] then Inr None
      else if all_digits p \<and> digits_val p \<le> 65535 then Inr (Some (digits_val p))
      else Inl (ValueError ''port''))"

section \<open>Path components, rounds and filters\<close>

definition windows_reserved :: "string list" where
  "windows_reserved =
     [''CON'', ''PRN'', ''AUX'', ''NUL'']
     @ concat (map (\<lambda>p. map (\<lambda>n. p @ show_nat n) [1..<10]) [''COM'', ''LPT''])"

definition safe_component :: "pyval \<Rightarrow> string \<Rightarrow> string res" where
  "safe_component v field =
     (case v of
        PStr s \<Rightarrow>
          (let text = str_strip s; stem = str_upper (hd (split_on (CHR ''.'') text)) in
           if text = [] \<or> text \<in> {''.'', ''..''} \<or> ends_with ''.'' text \<or> ends_with '' '' text
              \<or> stem \<in> set windows_reserved \<or> slug text \<noteq> text
           then Inl (ValueError (field @ '' must use only letters, numbers, dot, underscore, or hyphen''))
           else Inr text)
      | _ \<Rightarrow> Inl (ValueError (field @ '' must be a string'')))"

definition key_text :: "jobj \<Rightarrow> string" where
  "key_text model = (case jget_or model ''key'' (PStr ''model'') of PStr s \<Rightarrow> s | _ \<Rightarrow> ''model'')"

definition model_err :: "jobj \<Rightarrow> string \<Rightarrow> exn" where
  "model_err model msg = ValueError (key_text model @ '': '' @ msg)"

text \<open>\<open>[int(x) for x in raw]\<close> with both exceptions turned into one \<open>ValueError\<close>.\<close>

definition ints_of :: "exn \<Rightarrow> pyval list \<Rightarrow> int list res" where
  "ints_of e vs = (case res_map py_int vs of Inl _ \<Rightarrow> Inl e | Inr is \<Rightarrow> Inr is)"

definition model_rounds :: "jobj \<Rightarrow> int list \<Rightarrow> int list res" where
  "model_rounds model campaign_rounds =
     (case jget_or model ''rounds'' (PList (map PInt campaign_rounds)) of
        PList raw \<Rightarrow>
          res_bind (ints_of (model_err model ''rounds must contain integers'') raw) (\<lambda>selected.
            if selected = [] \<or> \<not> set selected \<subseteq> set campaign_rounds
            then Inl (model_err model ''model rounds must be a non-empty subset of campaign rounds'')
            else if \<not> distinct selected then Inl (model_err model ''model rounds contain duplicates'')
            else Inr selected)
      | _ \<Rightarrow> Inl (model_err model ''rounds must be a JSON list''))"

definition item_filter :: "jobj \<Rightarrow> int \<Rightarrow> pyval" where
  "item_filter model n =
     (case jget_or model ''item_filters'' (PDict []) of PDict d \<Rightarrow> jget d (show_int n) | _ \<Rightarrow> PNone)"

definition CANONICAL_TASKS :: "string list" where
  "CANONICAL_TASKS =
     [''q26_hidden_tests'', ''q27_race'', ''q28_false_hypothesis'',
      ''q29_multiturn'', ''q30v2_policy_conflict'', ''q31_approval_followup'']"

text \<open>The ids of a question bank; \<open>bank\<close> is \<open>load_json\<close> on a path below \<open>rounds/\<close>.\<close>

definition entry_ids :: "pyval \<Rightarrow> int list res" where
  "entry_ids v =
     res_bind (py_iter v) (\<lambda>items.
       res_map (\<lambda>it. case it of PDict d \<Rightarrow> res_bind (jitem d ''id'') py_int
                       | _ \<Rightarrow> Inl (TypeError ''indices must be integers'')) items)"

definition round_item_ids :: "(string \<Rightarrow> pyval res) \<Rightarrow> int \<Rightarrow> int list res" where
  "round_item_ids bank n =
     map_sum id remdups
       (if n \<in> {1, 2} then res_bind (bank (''round'' @ show_int n @ ''/questions.json'')) entry_ids
        else if n = 3
        then res_bind (bank ''round3/problems_v3.json'') (\<lambda>v. case v of
               PDict d \<Rightarrow> res_bind (jitem d ''questions'') entry_ids
             | _ \<Rightarrow> Inl (TypeError ''indices must be integers''))
        else Inl (ValueError (''unsupported round '' @ show_int n)))"

definition round_units :: "(string \<Rightarrow> pyval res) \<Rightarrow> int \<Rightarrow> nat res" where
  "round_units bank n = map_sum id length (round_item_ids bank n)"

section \<open>Validation of one model\<close>

abbreviation str_in :: "pyval \<Rightarrow> string list \<Rightarrow> bool" where
  "str_in v ws \<equiv> v \<in> set (map PStr ws)"

definition DEFAULT_URL :: pyval where
  "DEFAULT_URL = PStr ''http://127.0.0.1:8000/v1''"

definition provider_of :: "jobj \<Rightarrow> pyval" where
  "provider_of model = jget_or model ''codex_provider'' (PStr ''custom'')"

definition check_transport :: "jobj \<Rightarrow> unit res" where
  "check_transport model = res_seq
     [fail_if (case jget model ''model'' of PStr s \<Rightarrow> str_strip s = [] | _ \<Rightarrow> True) (model_err model ''model is required''),
      fail_if (\<not> str_in (jget model ''transport'') [''openai_compat'', ''codex_cli'']) (model_err model ''unsupported transport''),
      fail_if (\<not> str_in (jget_or model ''agent_backend'' (PStr ''codex_cli'')) [''codex_cli'', ''opencode_cli'', ''pi_cli''])
        (model_err model ''unsupported agent_backend''),
      fail_if (\<not> str_in (provider_of model) [''custom'', ''openai'']) (model_err model ''unsupported codex_provider''),
      fail_if (str_in (jget model ''agent_backend'') [''opencode_cli'', ''pi_cli''] \<and> provider_of model \<noteq> PStr ''custom'')
        (model_err model ''agent_backend requires a configured base_url'')]"

definition check_base_url :: "(string \<Rightarrow> bool) \<Rightarrow> jobj \<Rightarrow> unit res" where
  "check_base_url ip_ok model =
     (if jget model ''transport'' = PStr ''openai_compat'' \<or> provider_of model = PStr ''custom''
      then (case jget_or model ''base_url'' DEFAULT_URL of
              PStr s \<Rightarrow>
                res_bind (urlparse ip_ok s) (\<lambda>u. res_seq
                  [fail_if (u_scheme u \<notin> {''http'', ''https''} \<or> u_netloc u = []) (model_err model ''base_url must be an http(s) URL''),
                   fail_if (u_username u \<noteq> [] \<or> u_password u \<noteq> [] \<or> u_query u \<noteq> [] \<or> u_fragment u \<noteq> [])
                     (model_err model ''base_url cannot contain credentials, query, or fragment'')])
            | _ \<Rightarrow> Inl (model_err model ''base_url must be a string''))
      else Inr ())"

definition env_name :: "string \<Rightarrow> bool" where
  "env_name s \<longleftrightarrow>
     (case s of [] \<Rightarrow> False
      | c # r \<Rightarrow> (ch_alpha c \<or> c = CHR ''_'') \<and> list_all (\<lambda>x. ch_alnum x \<or> x = CHR ''_'') r)"

definition check_api_key_env :: "jobj \<Rightarrow> unit res" where
  "check_api_key_env model =
     fail_if (case jget model ''api_key_env'' of PNone \<Rightarrow> False | PStr s \<Rightarrow> \<not> env_name s | _ \<Rightarrow> True)
       (model_err model ''api_key_env must be a portable variable name'')"

definition bad_architecture :: "pyval \<Rightarrow> bool" where
  "bad_architecture v =
     (case v of PNone \<Rightarrow> False
      | PStr s \<Rightarrow> str_strip s = [] \<or> 32 < length s \<or> list_ex (\<lambda>c. ch_code c < 32) s
      | _ \<Rightarrow> True)"

definition check_serving :: "jobj \<Rightarrow> unit res" where
  "check_serving model =
     (case jget model ''public_serving_environment'' of
        PNone \<Rightarrow> Inr ()
      | PDict d \<Rightarrow>
          if \<not> set (dict_keys d) \<subseteq> {''scope'', ''os'', ''architecture''}
          then Inl (model_err model ''public_serving_environment is invalid'')
          else res_bind (in_str_set (jget d ''scope'') [''same_host'', ''remote'', ''unreported'']) (\<lambda>known. res_seq
            [fail_if (\<not> known) (model_err model ''public_serving_environment is invalid''),
             fail_if (jget d ''scope'' = PStr ''unreported'' \<and> (jget d ''os'' \<noteq> PNone \<or> jget d ''architecture'' \<noteq> PNone))
               (model_err model ''unreported serving environment cannot have coordinates''),
             fail_if (jget d ''os'' \<noteq> PNone \<and> \<not> str_in (jget d ''os'') [''Linux'', ''Darwin'', ''Windows'', ''Other''])
               (model_err model ''serving environment os is invalid''),
             fail_if (bad_architecture (jget d ''architecture'')) (model_err model ''serving environment architecture is invalid''),
             fail_if (jget d ''scope'' = PStr ''same_host'' \<and> jget model ''transport'' = PStr ''codex_cli''
                      \<and> jget model ''codex_provider'' = PStr ''openai'')
               (model_err model ''signed-in OpenAI Codex cannot be same_host'')])
      | _ \<Rightarrow> Inl (model_err model ''public_serving_environment is invalid''))"

definition positive_int :: "pyval \<Rightarrow> bool" where
  "positive_int v = (case v of PInt i \<Rightarrow> 1 \<le> i | _ \<Rightarrow> False)"

definition check_limits :: "jobj \<Rightarrow> unit res" where
  "check_limits model =
     res_all (\<lambda>field. fail_if (dict_has model field \<and> \<not> positive_int (jget model field))
                        (model_err model (field @ '' must be a positive integer'')))
       [''context_window'', ''max_tokens'']"

definition check_filter ::
  "(pyval \<Rightarrow> string) \<Rightarrow> (string \<Rightarrow> pyval res) \<Rightarrow> jobj \<Rightarrow> int list \<Rightarrow> string \<times> pyval \<Rightarrow> unit res" where
  "check_filter strf bank model selected kv =
     (case kv of (round_text, values) \<Rightarrow>
        (case parse_int round_text of
           None \<Rightarrow> Inl (model_err model ''invalid item-filter round'')
         | Some n \<Rightarrow>
             if round_text \<noteq> show_int n
             then Inl (model_err model ''item-filter round keys must be canonical strings'')
             else (case values of
                PList vs \<Rightarrow>
                  if n \<notin> set selected \<or> vs = []
                  then Inl (model_err model ''item filter must be non-empty and target a selected round'')
                  else if \<not> distinct (map (jstr strf) vs) then Inl (model_err model ''item filter contains duplicates'')
                  else if n \<in> {1, 2, 3}
                  then res_bind (round_item_ids bank n) (\<lambda>available.
                         fail_if (list_ex (\<lambda>v. case v of PInt i \<Rightarrow> i \<notin> set available | _ \<Rightarrow> True) vs)
                           (model_err model (''unknown round '' @ show_int n @ '' item'')))
                  else fail_if (\<not> list_all (\<lambda>v. str_in v CANONICAL_TASKS) vs) (model_err model ''unknown round 4 task'')
              | _ \<Rightarrow> Inl (model_err model ''item filter must be non-empty and target a selected round''))))"

definition check_filters :: "(pyval \<Rightarrow> string) \<Rightarrow> (string \<Rightarrow> pyval res) \<Rightarrow> int list \<Rightarrow> jobj \<Rightarrow> unit res" where
  "check_filters strf bank rounds model =
     res_bind (model_rounds model rounds) (\<lambda>selected.
       case jget model ''item_filters'' of
         PNone \<Rightarrow> Inr ()
       | PDict d \<Rightarrow> res_all (check_filter strf bank model selected) d
       | _ \<Rightarrow> Inl (model_err model ''item_filters must be a JSON object''))"

definition check_model ::
  "(pyval \<Rightarrow> string) \<Rightarrow> (string \<Rightarrow> bool) \<Rightarrow> (string \<Rightarrow> pyval res) \<Rightarrow> int list \<Rightarrow> jobj \<Rightarrow> unit res" where
  "check_model strf ip_ok bank rounds model = res_seq
     [check_transport model, check_base_url ip_ok model, check_api_key_env model, check_serving model,
      check_limits model, check_filters strf bank rounds model]"

section \<open>Validation of a campaign\<close>

definition models_of :: "jobj \<Rightarrow> jobj list res" where
  "models_of config =
     (case jget config ''models'' of
        PList ms \<Rightarrow>
          if ms = [] then Inl (ValueError ''config.models must contain at least one model'')
          else res_map (\<lambda>m. case m of PDict d \<Rightarrow> Inr d
                 | _ \<Rightarrow> Inl (ValueError ''every config.models item must be a JSON object'')) ms
      | _ \<Rightarrow> Inl (ValueError ''config.models must contain at least one model''))"

definition check_keys :: "jobj list \<Rightarrow> unit res" where
  "check_keys models =
     (let keys = map (\<lambda>m. jget m ''key'') models in
      if list_ex (\<lambda>k. \<not> truthy k) keys then Inl (ValueError ''every model requires a unique non-empty key'')
      else if \<not> list_all hashable keys then Inl (TypeError ''unhashable type'')
      else if \<not> py_distinct keys then Inl (ValueError ''every model requires a unique non-empty key'')
      else res_bind (res_map (\<lambda>k. safe_component k ''model key'') keys) (\<lambda>norm.
             fail_if (\<not> distinct norm) (ValueError ''model keys must remain unique after filesystem normalization'')))"

definition timeout_of :: "jobj \<Rightarrow> pyval" where
  "timeout_of config = jget_or config ''timeout_seconds'' (PInt 3600)"

definition check_numbers :: "jobj \<Rightarrow> unit res" where
  "check_numbers config =
     (if is_bool (jget config ''repetitions'') then Inl (ValueError ''repetitions must be an integer of at least 1'')
      else case ints_of (ValueError ''repetitions and timeout_seconds must be integers'')
                  [jget_or config ''repetitions'' (PInt 0), timeout_of config] of
        Inr [reps, secs] \<Rightarrow> res_seq
          [fail_if (reps < 1) (ValueError ''repetitions must be at least 1''),
           fail_if (is_bool (timeout_of config) \<or> secs < 1) (ValueError ''timeout_seconds must be at least 1'')]
      | Inr _ \<Rightarrow> Inr ()
      | Inl e \<Rightarrow> Inl e)"

definition rounds_of :: "jobj \<Rightarrow> int list res" where
  "rounds_of config =
     (case jget_or config ''rounds'' (PList []) of
        PList raw \<Rightarrow>
          res_bind (ints_of (ValueError ''rounds must contain integers from 1 to 4'') raw) (\<lambda>rounds.
            if rounds = [] \<or> \<not> set rounds \<subseteq> {1, 2, 3, 4} then Inl (ValueError ''rounds must be a non-empty subset of [1,2,3,4]'')
            else if \<not> distinct rounds then Inl (ValueError ''rounds must not contain duplicates'')
            else Inr rounds)
      | _ \<Rightarrow> Inl (ValueError ''rounds must be a JSON list''))"

definition check_tasks :: "jobj \<Rightarrow> unit res" where
  "check_tasks config =
     (case jget config ''round4_tasks'' of
        PNone \<Rightarrow> Inr ()
      | PList ts \<Rightarrow> res_seq
          [fail_if (ts = [] \<or> \<not> list_all is_str ts) (ValueError ''round4_tasks must be a non-empty JSON list of task names''),
           fail_if (\<not> distinct ts) (ValueError ''round4_tasks must not contain duplicates''),
           fail_if (\<not> set ts \<subseteq> PStr ` set CANONICAL_TASKS) (ValueError ''unknown round4_tasks'')]
      | _ \<Rightarrow> Inl (ValueError ''round4_tasks must be a non-empty JSON list of task names''))"

definition SEATBELT :: jobj where
  "SEATBELT =
     [(''mode'', PStr ''macos_seatbelt''), (''fail_closed'', PBool True), (''attempt_state'', PStr ''isolated''),
      (''network'', PStr ''model_endpoint_only''), (''post_run_audit'', PBool True)]"

text \<open>\<open>urlparse\<close> on a value that was not checked to be a string: a falsy value reads as the
  empty URL, any other one has no \<open>decode\<close>.\<close>

definition url_arg :: "pyval \<Rightarrow> string res" where
  "url_arg v =
     (case v of PStr s \<Rightarrow> Inr s | _ \<Rightarrow> if truthy v then Inl (AttributeError ''decode'') else Inr [])"

definition check_endpoint :: "(string \<Rightarrow> bool) \<Rightarrow> int list \<Rightarrow> jobj \<Rightarrow> unit res" where
  "check_endpoint ip_ok rounds model =
     res_bind (model_rounds model rounds) (\<lambda>selected.
       if 4 \<notin> set selected then Inr ()
       else res_bind (url_arg (jget_or model ''base_url'' DEFAULT_URL)) (\<lambda>s.
            res_bind (urlparse ip_ok s) (\<lambda>u.
              case u_port u of
                Inl _ \<Rightarrow> Inl (model_err model ''isolation endpoint port is invalid'')
              | Inr port \<Rightarrow>
                  fail_if (provider_of model \<noteq> PStr ''custom'' \<or> u_hostname u \<notin> {''127.0.0.1'', ''localhost'', ''::1''} \<or> port = None)
                    (model_err model ''model_endpoint_only isolation requires a loopback model endpoint with an explicit port''))))"

record host =
  h_system :: string
  h_which :: "string \<Rightarrow> bool"

definition check_isolation :: "(string \<Rightarrow> bool) \<Rightarrow> host option \<Rightarrow> jobj \<Rightarrow> jobj list \<Rightarrow> int list \<Rightarrow> unit res" where
  "check_isolation ip_ok runtime config models rounds =
     (case jget config ''round4_isolation'' of
        PNone \<Rightarrow> Inr ()
      | PDict d \<Rightarrow>
          if \<not> set (dict_keys d) \<subseteq> {''mode'', ''fail_closed'', ''attempt_state'', ''network'', ''post_run_audit''}
          then Inl (ValueError ''round4_isolation has unknown or invalid fields'')
          else (let mode = jget_or d ''mode'' (PStr ''none''); seatbelt = (mode = PStr ''macos_seatbelt'') in
            res_bind (in_str_set mode [''none'', ''macos_seatbelt'']) (\<lambda>known. res_seq
              [fail_if (\<not> known) (ValueError ''round4_isolation.mode is unsupported''),
               fail_if (mode = PStr ''none'' \<and> \<not> py_eq (PDict d) (PDict [(''mode'', PStr ''none'')]))
                 (ValueError ''round4_isolation mode none accepts no active isolation fields''),
               fail_if (seatbelt \<and> \<not> py_eq (PDict d) (PDict SEATBELT))
                 (ValueError ''macos_seatbelt requires the complete fail-closed isolation contract''),
               (if seatbelt then res_all (check_endpoint ip_ok rounds) models else Inr ()),
               fail_if (seatbelt \<and> (case runtime of None \<Rightarrow> False
                          | Some h \<Rightarrow> h_system h \<noteq> ''Darwin'' \<or> \<not> h_which h ''sandbox-exec''))
                 (ValueError ''macos_seatbelt was requested but is unavailable'')]))
      | _ \<Rightarrow> Inl (ValueError ''round4_isolation has unknown or invalid fields''))"

text \<open>\<open>any(...)\<close> over the models, with the exceptions of \<open>_model_rounds\<close>.\<close>

definition runs_round4 :: "int list \<Rightarrow> jobj \<Rightarrow> bool" where
  "runs_round4 rounds model = (case model_rounds model rounds of Inr rs \<Rightarrow> 4 \<in> set rs | Inl _ \<Rightarrow> False)"

definition check_runtime :: "host option \<Rightarrow> jobj list \<Rightarrow> int list \<Rightarrow> unit res" where
  "check_runtime runtime models rounds =
     (case runtime of
        None \<Rightarrow> Inr ()
      | Some h \<Rightarrow> res_seq
          [fail_if (list_ex (\<lambda>m. jget m ''transport'' = PStr ''codex_cli'' \<or> runs_round4 rounds m
                       \<and> jget_or m ''agent_backend'' (PStr ''codex_cli'') = PStr ''codex_cli'') models \<and> \<not> h_which h ''codex'')
             (ValueError ''selected Codex transport or round 4 requires the codex CLI on PATH''),
           fail_if (list_ex (\<lambda>m. runs_round4 rounds m \<and> jget m ''agent_backend'' = PStr ''opencode_cli'') models \<and> \<not> h_which h ''opencode'')
             (ValueError ''selected Round 4 opencode_cli backend requires opencode on PATH''),
           fail_if (list_ex (\<lambda>m. runs_round4 rounds m \<and> jget m ''agent_backend'' = PStr ''pi_cli'') models \<and> \<not> h_which h ''pi'')
             (ValueError ''selected Round 4 pi_cli backend requires pi on PATH'')])"

text \<open>\<open>runtime\<close> is \<open>None\<close> for \<open>check_runtime=False\<close>.\<close>

definition validate_config ::
  "(pyval \<Rightarrow> string) \<Rightarrow> (string \<Rightarrow> bool) \<Rightarrow> (string \<Rightarrow> pyval res) \<Rightarrow> host option \<Rightarrow> pyval \<Rightarrow> unit res" where
  "validate_config strf ip_ok bank runtime cfg =
     (case cfg of
        PDict config \<Rightarrow>
          res_bind (models_of config) (\<lambda>models.
          res_bind (check_keys models) (\<lambda>_.
          res_bind (check_numbers config) (\<lambda>_.
          res_bind (rounds_of config) (\<lambda>rounds.
          res_bind (safe_component (jget_or config ''name'' (PStr ''campaign'')) ''campaign name'') (\<lambda>_. res_seq
            [res_all (check_model strf ip_ok bank rounds) models, check_tasks config,
             check_isolation ip_ok runtime config models rounds, check_runtime runtime models rounds])))))
      | _ \<Rightarrow> Inl (ValueError ''configuration must be a JSON object''))"

section \<open>Units of a campaign\<close>

definition need :: "jobj \<Rightarrow> string \<Rightarrow> pyval list res" where
  "need d k = res_bind (jitem d k) py_iter"

definition plan_tasks :: "jobj \<Rightarrow> pyval" where
  "plan_tasks config = py_or (jget config ''round4_tasks'') (PList (map PStr CANONICAL_TASKS))"

definition py_len :: "pyval \<Rightarrow> nat res" where
  "py_len v = (case v of PList xs \<Rightarrow> Inr (length xs) | PStr s \<Rightarrow> Inr (length s) | PDict d \<Rightarrow> Inr (length d)
     | _ \<Rightarrow> Inl (TypeError ''object has no len()''))"

definition model_round_units :: "(string \<Rightarrow> pyval res) \<Rightarrow> pyval \<Rightarrow> jobj \<Rightarrow> int \<Rightarrow> nat res" where
  "model_round_units bank tasks model n =
     (case item_filter model n of
        PNone \<Rightarrow> if n = 4 then py_len tasks else round_units bank n
      | selected \<Rightarrow> py_len selected)"

definition model_units :: "(string \<Rightarrow> pyval res) \<Rightarrow> pyval \<Rightarrow> int \<Rightarrow> int list \<Rightarrow> jobj \<Rightarrow> int res" where
  "model_units bank tasks reps rounds model =
     res_bind (model_rounds model rounds) (\<lambda>selected.
     res_bind (res_map (model_round_units bank tasks model) selected) (\<lambda>us. Inr (reps * int (sum_list us))))"

definition campaign_units :: "(string \<Rightarrow> pyval res) \<Rightarrow> jobj \<Rightarrow> int res" where
  "campaign_units bank config =
     res_bind (res_bind (jitem config ''repetitions'') py_int) (\<lambda>reps.
     res_bind (res_bind (need config ''rounds'') (res_map py_int)) (\<lambda>rounds.
     res_bind (need config ''models'') (\<lambda>ms.
     res_bind (res_map (\<lambda>m. case m of PDict d \<Rightarrow> model_units bank (plan_tasks config) reps rounds d
                         | _ \<Rightarrow> Inl (AttributeError ''get'')) ms) (\<lambda>us. Inr (sum_list us)))))"

section \<open>Properties\<close>

lemma rstrip_by_decomp: "\<exists>w. u = rstrip_by p u @ w"
proof -
  have "u = rev (dropWhile p (rev u)) @ rev (takeWhile p (rev u))"
    by (metis rev_append rev_rev_ident takeWhile_dropWhile_id)
  then show ?thesis unfolding rstrip_by_def by blast
qed

lemma lstrip_strip: "lstrip_by p (strip_by p s) = strip_by p s"
proof (cases "strip_by p s")
  case Nil
  then show ?thesis by (simp add: lstrip_by_def)
next
  case (Cons c r)
  obtain w where "dropWhile p s = strip_by p s @ w"
    using rstrip_by_decomp [of "dropWhile p s" p] unfolding strip_by_def lstrip_by_def by blast
  then have "dropWhile p s = c # r @ w" using Cons by simp
  then have "\<not> p c" using hd_dropWhile [of p s] by (metis list.distinct(1) list.sel(1))
  then show ?thesis using Cons by (simp add: lstrip_by_def)
qed

lemma dropWhile_idem [simp]: "dropWhile p (dropWhile p s) = dropWhile p s"
  by (induction s) auto

lemma strip_by_idem [simp]: "strip_by p (strip_by p s) = strip_by p s"
  unfolding strip_by_def [of p "strip_by p s"] lstrip_strip
  by (simp add: strip_by_def rstrip_by_def)

lemma str_strip_idem [simp]: "str_strip (str_strip s) = str_strip s"
  by (simp add: str_strip_def)

lemma slug_str_strip: "slug (str_strip s) = slug s"
  by (simp add: slug_def)

lemma safe_component_Inr:
  assumes "safe_component v f = Inr t"
  shows "\<exists>s. v = PStr s \<and> t = slug s \<and> t \<notin> {[], ''.'', ''..''} \<and> str_strip s = t"
  using assms unfolding safe_component_def
  by (auto simp: Let_def slug_str_strip split: pyval.splits if_splits)

lemma model_rounds_Inr:
  assumes "model_rounds m rounds = Inr sel"
  shows "sel \<noteq> [] \<and> distinct sel \<and> set sel \<subseteq> set rounds"
  using assms unfolding model_rounds_def
  by (auto simp: res_bind_Inr_iff split: pyval.splits if_splits)

lemma rounds_of_Inr:
  assumes "rounds_of config = Inr rounds"
  shows "rounds \<noteq> [] \<and> distinct rounds \<and> set rounds \<subseteq> {1, 2, 3, 4}
    \<and> (\<exists>raw. jitem config ''rounds'' = Inr (PList raw) \<and> res_map py_int raw = Inr rounds)"
  using assms unfolding rounds_of_def
  by (auto simp: res_bind_Inr_iff ints_of_def jget_or_def dict_get_def jitem_def
      split: pyval.splits if_splits sum.splits option.splits)

lemma check_numbers_Inr:
  assumes "check_numbers config = Inr ()"
  shows "\<exists>v reps. jitem config ''repetitions'' = Inr v \<and> py_int v = Inr reps \<and> 1 \<le> reps"
proof -
  let ?v = "jget_or config ''repetitions'' (PInt 0)"
  obtain reps where r: "py_int ?v = Inr reps" "1 \<le> reps"
    using assms unfolding check_numbers_def ints_of_def
    by (auto split: if_splits sum.splits)
  have "jitem config ''repetitions'' = Inr ?v"
    using r by (auto simp: jget_or_def dict_get_def jitem_def py_int_def split: option.splits)
  with r show ?thesis by blast
qed

lemma models_of_Inr:
  assumes "models_of config = Inr ms"
  shows "jitem config ''models'' = Inr (PList (map PDict ms)) \<and> ms \<noteq> []"
proof -
  obtain vs where vs: "jget config ''models'' = PList vs" "vs \<noteq> []"
    and m: "res_map (\<lambda>m. case m of PDict d \<Rightarrow> Inr d
                 | _ \<Rightarrow> Inl (ValueError ''every config.models item must be a JSON object'')) vs = Inr ms"
    using assms unfolding models_of_def by (auto split: pyval.splits if_splits)
  have "vs = map PDict ms"
    using res_map_Inr_all2 [OF m] by (induction rule: list_all2_induct) (auto split: pyval.splits)
  then show ?thesis using vs
    by (auto simp: jget_def dict_get_def jitem_def split: option.splits)
qed

lemma show_nat_inj: "show_nat a = show_nat b \<Longrightarrow> a = b"
  by (metis digits_val_show_nat)

lemma show_nat_minus: "show_nat n \<noteq> CHR ''-'' # r"
  using show_nat_not_minus [of n "CHR ''-''" r] by (auto simp: ch_digit_def ch_code_def)

lemma show_int_inj: "show_int a = show_int b \<Longrightarrow> a = b"
  using show_nat_minus [of "nat a" "show_nat (nat (- b))"] show_nat_minus [of "nat b" "show_nat (nat (- a))"]
  by (auto simp: show_int_def dest!: show_nat_inj split: if_splits)

lemma list_ex_not_ints:
  "\<not> list_ex (\<lambda>v. case v of PInt i \<Rightarrow> i \<notin> A | _ \<Rightarrow> True) vs \<longleftrightarrow> (\<exists>is. vs = map PInt is \<and> set is \<subseteq> A)"
proof (induction vs)
  case (Cons v vs)
  show ?case
  proof
    assume *: "\<not> list_ex (\<lambda>v. case v of PInt i \<Rightarrow> i \<notin> A | _ \<Rightarrow> True) (v # vs)"
    then obtain i js where "v = PInt i" "i \<in> A" "vs = map PInt js" "set js \<subseteq> A"
      using Cons by (auto split: pyval.splits)
    then show "\<exists>is. v # vs = map PInt is \<and> set is \<subseteq> A" by (intro exI [of _ "i # js"]) simp
  next
    assume "\<exists>is. v # vs = map PInt is \<and> set is \<subseteq> A"
    then show "\<not> list_ex (\<lambda>v. case v of PInt i \<Rightarrow> i \<notin> A | _ \<Rightarrow> True) (v # vs)"
      using Cons by (auto simp: Cons_eq_map_conv)
  qed
qed simp

lemma str_list_exists: "list_all (\<lambda>v. str_in v ws) vs \<Longrightarrow> \<exists>ts. vs = map PStr ts \<and> set ts \<subseteq> set ws"
proof (induction vs)
  case (Cons v vs)
  then obtain t ts where "v = PStr t" "t \<in> set ws" "vs = map PStr ts" "set ts \<subseteq> set ws" by auto
  then show ?case by (intro exI [of _ "t # ts"]) simp
qed simp

text \<open>What a validated filter of a model selects in round \<open>n\<close>.\<close>

definition filter_ok :: "(string \<Rightarrow> pyval res) \<Rightarrow> jobj \<Rightarrow> int \<Rightarrow> bool" where
  "filter_ok bank model n \<longleftrightarrow>
     (case item_filter model n of
        PNone \<Rightarrow> True
      | PList vs \<Rightarrow> vs \<noteq> [] \<and>
          (if n \<in> {1, 2, 3}
           then (\<exists>av is. round_item_ids bank n = Inr av \<and> vs = map PInt is \<and> set is \<subseteq> set av \<and> distinct is)
           else (\<exists>ts. vs = map PStr ts \<and> set ts \<subseteq> set CANONICAL_TASKS \<and> distinct ts))
      | _ \<Rightarrow> False)"

lemma check_filter_Inr:
  assumes "check_filter strf bank model sel (show_int n, v) = Inr ()"
  shows "\<exists>vs. v = PList vs \<and> vs \<noteq> [] \<and> n \<in> set sel \<and>
     (if n \<in> {1, 2, 3}
      then (\<exists>av is. round_item_ids bank n = Inr av \<and> vs = map PInt is \<and> set is \<subseteq> set av \<and> distinct is)
      else (\<exists>ts. vs = map PStr ts \<and> set ts \<subseteq> set CANONICAL_TASKS \<and> distinct ts))"
proof -
  obtain m where m: "parse_int (show_int n) = Some m" and sh: "show_int n = show_int m"
    using assms by (auto simp: check_filter_def split: option.splits if_splits)
  have mn: "m = n" using show_int_inj [OF sh] by simp
  obtain vs where v: "v = PList vs" using assms m mn by (auto simp: check_filter_def split: pyval.splits)
  have c: "n \<in> set sel" "vs \<noteq> []" "distinct (map (jstr strf) vs)"
    using assms m mn v by (auto simp: check_filter_def split: if_splits)
  show ?thesis
  proof (cases "n \<in> {1, 2, 3}")
    case True
    then obtain av where "round_item_ids bank n = Inr av"
      and "\<not> list_ex (\<lambda>v. case v of PInt i \<Rightarrow> i \<notin> set av | _ \<Rightarrow> True) vs"
      using assms m mn v c by (auto simp: check_filter_def res_bind_Inr_iff)
    then show ?thesis using True v c by (auto simp: list_ex_not_ints distinct_map)
  next
    case False
    then have "list_all (\<lambda>v. str_in v CANONICAL_TASKS) vs"
      using assms m mn v c by (simp add: check_filter_def)
    from str_list_exists [OF this] show ?thesis using False v c by (auto simp: distinct_map)
  qed
qed

lemma check_filters_Inr:
  assumes "check_filters strf bank rounds model = Inr ()"
  shows "\<exists>sel. model_rounds model rounds = Inr sel \<and> (\<forall>n. filter_ok bank model n)"
proof -
  obtain sel where sel: "model_rounds model rounds = Inr sel"
    and f: "(case jget model ''item_filters'' of PNone \<Rightarrow> Inr ()
       | PDict d \<Rightarrow> res_all (check_filter strf bank model sel) d
       | _ \<Rightarrow> Inl (model_err model ''item_filters must be a JSON object'')) = Inr ()"
    using assms by (auto simp: check_filters_def res_bind_Inr_iff)
  have "filter_ok bank model n" for n
  proof (cases "jget model ''item_filters''")
    case (PDict d)
    then have d: "item_filter model n = jget d (show_int n)"
      by (auto simp: item_filter_def jget_or_def jget_def dict_get_def split: option.splits)
    show ?thesis
    proof (cases "map_of d (show_int n)")
      case None
      then show ?thesis using d by (simp add: filter_ok_def jget_def dict_get_def)
    next
      case (Some v)
      then have "check_filter strf bank model sel (show_int n, v) = Inr ()"
        using f PDict map_of_SomeD by (fastforce simp: res_all_Inr_iff)
      from check_filter_Inr [OF this] show ?thesis
        using d Some by (auto simp: filter_ok_def jget_def dict_get_def)
    qed
  qed (use f in \<open>auto simp: filter_ok_def item_filter_def jget_or_def jget_def dict_get_def split: option.splits\<close>)
  with sel show ?thesis by blast
qed

lemma validate_config_Inr:
  assumes "validate_config strf ip_ok bank runtime cfg = Inr ()"
  obtains config models rounds where "cfg = PDict config" and "models_of config = Inr models"
    and "check_keys models = Inr ()" and "check_numbers config = Inr ()" and "rounds_of config = Inr rounds"
    and "\<forall>m \<in> set models. check_model strf ip_ok bank rounds m = Inr ()" and "check_tasks config = Inr ()"
    and "check_isolation ip_ok runtime config models rounds = Inr ()"
    and "\<exists>nm. safe_component (jget_or config ''name'' (PStr ''campaign'')) ''campaign name'' = Inr nm"
  using assms unfolding validate_config_def
  by (auto simp: res_bind_Inr_iff res_all_Inr_iff split: pyval.splits)

lemma check_keys_Inr:
  assumes "check_keys models = Inr ()"
  shows "distinct (map (\<lambda>m. slug (key_text m)) models)
    \<and> (\<forall>m \<in> set models. slug (key_text m) \<notin> {[], ''.'', ''..''})"
proof -
  obtain norm where n: "res_map (\<lambda>k. safe_component k ''model key'') (map (\<lambda>m. jget m ''key'') models) = Inr norm"
    and d: "distinct norm"
    using assms by (auto simp: check_keys_def Let_def res_bind_Inr_iff split: if_splits)
  have *: "slug (key_text m) = t \<and> slug (key_text m) \<notin> {[], ''.'', ''..''}"
    if "safe_component (jget m ''key'') ''model key'' = Inr t" for m t
    using safe_component_Inr [OF that]
    by (auto simp: key_text_def jget_def jget_or_def dict_get_def split: option.splits)
  have all2: "list_all2 (\<lambda>m t. safe_component (jget m ''key'') ''model key'' = Inr t) models norm"
    using res_map_Inr_all2 [OF n] by (simp add: list_all2_map1)
  then have "norm = map (\<lambda>m. slug (key_text m)) models"
    by (induction rule: list_all2_induct) (auto dest!: *)
  moreover have "\<forall>m \<in> set models. \<exists>t. safe_component (jget m ''key'') ''model key'' = Inr t"
    using all2 by (auto simp: list_all2_conv_all_nth in_set_conv_nth)
  ultimately show ?thesis using d * by blast
qed

lemma check_model_Inr:
  assumes "check_model strf ip_ok bank rounds m = Inr ()"
  shows "\<exists>sel. model_rounds m rounds = Inr sel \<and> (\<forall>n. filter_ok bank m n)"
  by (rule check_filters_Inr [of strf]) (use assms in \<open>simp add: check_model_def\<close>)

lemma model_round_units_pos:
  assumes "filter_ok bank model n" and "n \<in> {1, 2, 3, 4}"
    and "n \<noteq> 4 \<Longrightarrow> \<exists>av. round_item_ids bank n = Inr av \<and> av \<noteq> []" and "\<exists>ts. tasks = PList ts \<and> ts \<noteq> []"
  shows "\<exists>u. model_round_units bank tasks model n = Inr u \<and> 0 < u"
  using assms unfolding model_round_units_def filter_ok_def
  by (fastforce simp: py_len_def round_units_def split: pyval.splits)

lemma res_map_pos:
  assumes "\<forall>x \<in> set xs. \<exists>u. f x = Inr u \<and> (0 :: nat) < u"
  shows "\<exists>us. res_map f xs = Inr us \<and> length xs \<le> sum_list us"
  using assms
proof (induction xs)
  case (Cons x xs)
  then obtain u us where "f x = Inr u" "0 < u" "res_map f xs = Inr us" "length xs \<le> sum_list us" by auto
  then show ?case by auto
qed simp

text \<open>C12. A campaign that passes validation writes where it should and asks for what exists: the
  directory names of its models are distinct, non-empty, made of safe characters and no dot
  paths, every model runs a non-empty set of distinct rounds between 1 and 4, and its item
  filters name only existing questions and tasks, without repetition.\<close>

theorem validate_config_sound:
  assumes "validate_config strf ip_ok bank runtime (PDict config) = Inr ()"
  shows "\<exists>models rounds. models_of config = Inr models \<and> models \<noteq> [] \<and> rounds_of config = Inr rounds
    \<and> distinct (map (\<lambda>m. slug (key_text m)) models)
    \<and> (\<forall>m \<in> set models. list_all slug_ch (slug (key_text m)) \<and> slug (key_text m) \<notin> {[], ''.'', ''..''}
         \<and> (\<exists>sel. model_rounds m rounds = Inr sel \<and> sel \<noteq> [] \<and> distinct sel \<and> set sel \<subseteq> {1, 2, 3, 4})
         \<and> (\<forall>n. filter_ok bank m n))"
proof -
  from assms obtain models rounds where v: "models_of config = Inr models" "check_keys models = Inr ()"
    "rounds_of config = Inr rounds" "\<forall>m \<in> set models. check_model strf ip_ok bank rounds m = Inr ()"
    by (rule validate_config_Inr) simp
  have sel: "\<exists>sel. model_rounds m rounds = Inr sel \<and> sel \<noteq> [] \<and> distinct sel \<and> set sel \<subseteq> {1, 2, 3, 4}"
    and flt: "\<forall>n. filter_ok bank m n" if m: "m \<in> set models" for m
  proof -
    obtain sel where s: "model_rounds m rounds = Inr sel" "\<forall>n. filter_ok bank m n"
      using check_model_Inr [OF bspec [OF v(4) m]] by blast
    show "\<exists>sel. model_rounds m rounds = Inr sel \<and> sel \<noteq> [] \<and> distinct sel \<and> set sel \<subseteq> {1, 2, 3, 4}"
      using model_rounds_Inr [OF s(1)] rounds_of_Inr [OF v(3)] s(1) by (intro exI [of _ sel]) auto
    show "\<forall>n. filter_ok bank m n" by (rule s(2))
  qed
  show ?thesis
    by (rule exI [of _ models], rule exI [of _ rounds])
      (use v(1,3) models_of_Inr [OF v(1)] check_keys_Inr [OF v(2)] sel flt slug_chars in auto)
qed

lemma campaign_units_pos:
  assumes v: "validate_config strf ip_ok bank runtime (PDict config) = Inr ()"
    and b: "\<forall>n \<in> {1, 2, 3}. \<exists>av. round_item_ids bank n = Inr av \<and> av \<noteq> []"
  shows "\<exists>n models. campaign_units bank config = Inr n \<and> models_of config = Inr models \<and> int (length models) \<le> n"
proof -
  from v obtain models rounds where v: "models_of config = Inr models" "check_numbers config = Inr ()"
    "rounds_of config = Inr rounds" "\<forall>m \<in> set models. check_model strf ip_ok bank rounds m = Inr ()"
    "check_tasks config = Inr ()"
    by (rule validate_config_Inr) simp
  obtain rv reps where reps: "jitem config ''repetitions'' = Inr rv" "py_int rv = Inr reps" "1 \<le> reps"
    using check_numbers_Inr [OF v(2)] by blast
  obtain raw where raw: "jitem config ''rounds'' = Inr (PList raw)" "res_map py_int raw = Inr rounds"
    and sub: "set rounds \<subseteq> {1, 2, 3, 4}"
    using rounds_of_Inr [OF v(3)] by blast
  have tasks: "\<exists>ts. plan_tasks config = PList ts \<and> ts \<noteq> []"
    using v(5) by (auto simp: check_tasks_def plan_tasks_def py_or_def CANONICAL_TASKS_def split: pyval.splits)
  have unit: "\<exists>u. model_units bank (plan_tasks config) reps rounds m = Inr u \<and> 1 \<le> u" if m: "m \<in> set models" for m
  proof -
    obtain sel where s: "model_rounds m rounds = Inr sel" and f: "\<forall>n. filter_ok bank m n"
      using check_model_Inr [OF bspec [OF v(4) m]] by blast
    have s': "sel \<noteq> []" "set sel \<subseteq> {1, 2, 3, 4}" using model_rounds_Inr [OF s] sub by auto
    have "\<forall>n \<in> set sel. \<exists>u. model_round_units bank (plan_tasks config) m n = Inr u \<and> 0 < u"
      using s'(2) b tasks f by (intro ballI model_round_units_pos) auto
    from res_map_pos [OF this] obtain us where "res_map (model_round_units bank (plan_tasks config) m) sel = Inr us"
      "length sel \<le> sum_list us" by blast
    moreover have "1 \<le> reps * int (sum_list us)"
    proof -
      have "1 \<le> int (sum_list us)" using s'(1) calculation(2) by (cases sel) auto
      then show ?thesis using reps(3) mult_mono [of 1 reps 1 "int (sum_list us)"] by simp
    qed
    ultimately show ?thesis using s by (simp add: model_units_def)
  qed
  have "\<exists>us. res_map (model_units bank (plan_tasks config) reps rounds) ms = Inr us \<and> int (length ms) \<le> sum_list us"
    if "set ms \<subseteq> set models" for ms
    using that
  proof (induction ms)
    case (Cons m ms)
    then show ?case using unit [of m] by auto
  qed simp
  then obtain us where us: "res_map (model_units bank (plan_tasks config) reps rounds) models = Inr us"
    "int (length models) \<le> sum_list us" by blast
  have "res_map (\<lambda>m. case m of PDict d \<Rightarrow> model_units bank (plan_tasks config) reps rounds d
      | _ \<Rightarrow> Inl (AttributeError ''get'')) (map PDict ms)
    = res_map (model_units bank (plan_tasks config) reps rounds) ms" for ms
    by (induction ms) (auto split: sum.splits)
  then show ?thesis
    using reps raw models_of_Inr [OF v(1)] us v(1)
    by (auto simp: campaign_units_def need_def py_iter_def)
qed

definition demo_bank :: "string \<Rightarrow> pyval res" where
  "demo_bank path =
     (let qs = PList [PDict [(''id'', PInt 1)], PDict [(''id'', PInt 2)]] in
      Inr (if path = ''round3/problems_v3.json'' then PDict [(''questions'', qs)] else qs))"

definition demo_model :: jobj where
  "demo_model =
     [(''key'', PStr ''m1''), (''model'', PStr ''x''), (''transport'', PStr ''openai_compat''),
      (''base_url'', PStr ''http://localhost:8000/v1''), (''rounds'', PList [PInt 1, PInt 4]),
      (''item_filters'', PDict [(''1'', PList [PInt 2])])]"

definition demo_config :: jobj where
  "demo_config =
     [(''name'', PStr ''trial''), (''models'', PList [PDict demo_model]), (''repetitions'', PInt 2),
      (''rounds'', PList [PInt 1, PInt 4]), (''round4_tasks'', PList [PStr ''q27_race'']),
      (''round4_isolation'', PDict SEATBELT)]"

definition demo_host :: host where
  "demo_host = \<lparr>h_system = ''Darwin'', h_which = (\<lambda>p. p \<in> {''codex'', ''sandbox-exec''})\<rparr>"

lemma demo_checks:
  "models_of demo_config = Inr [demo_model]" "check_keys [demo_model] = Inr ()" "check_numbers demo_config = Inr ()"
  "rounds_of demo_config = Inr [1, 4]"
  "safe_component (jget_or demo_config ''name'' (PStr ''campaign'')) ''campaign name'' = Inr ''trial''"
  "check_transport demo_model = Inr ()" "check_api_key_env demo_model = Inr ()" "check_serving demo_model = Inr ()"
  "check_limits demo_model = Inr ()" "check_tasks demo_config = Inr ()"
  by code_simp+

definition demo_url :: url where
  "demo_url = \<lparr>u_scheme = ''http'', u_netloc = ''localhost:8000'', u_query = [], u_fragment = []\<rparr>"

lemma demo_url_facts:
  "jget_or demo_model ''base_url'' DEFAULT_URL = PStr ''http://localhost:8000/v1''"
  "u_scheme demo_url = ''http''" "u_netloc demo_url = ''localhost:8000''" "u_username demo_url = []"
  "u_password demo_url = []" "u_query demo_url = []" "u_fragment demo_url = []"
  "u_hostname demo_url = ''localhost''"
  by code_simp+

lemma demo_port: "u_port demo_url = Inr (Some 8000)"
proof -
  have "u_hostinfo demo_url = (''localhost'', ''8000'')" "all_digits ''8000''" by code_simp+
  then show ?thesis by (simp add: u_port_def digits_val_def digit_val_def ch_code_def)
qed

lemma demo_url_parse: "urlparse (\<lambda>_. True) ''http://localhost:8000/v1'' = Inr demo_url"
  by code_simp

lemma demo_rounds: "model_rounds demo_model [1, 4] = Inr [1, 4]"
  by code_simp

lemma demo_ids: "round_item_ids demo_bank 1 = Inr [1, 2]"
  by code_simp

lemma demo_filter: "check_filter (\<lambda>_. []) demo_bank demo_model [1, 4] (''1'', PList [PInt 2]) = Inr ()"
proof -
  have "parse_int ''1'' = Some 1" "show_int 1 = ''1''" by code_simp+
  then show ?thesis by (simp add: check_filter_def demo_ids)
qed

lemma demo_url_ok: "check_base_url (\<lambda>_. True) demo_model = Inr ()"
  by (simp add: check_base_url_def demo_url_facts demo_url_parse)

lemma demo_filters_ok: "check_filters (\<lambda>_. []) demo_bank [1, 4] demo_model = Inr ()"
proof -
  have "jget demo_model ''item_filters'' = PDict [(''1'', PList [PInt 2])]" by code_simp
  then show ?thesis by (simp add: check_filters_def demo_rounds demo_filter)
qed

lemma demo_endpoint: "check_endpoint (\<lambda>_. True) [1, 4] demo_model = Inr ()"
proof -
  have "provider_of demo_model = PStr ''custom''" by code_simp
  then show ?thesis by (simp add: check_endpoint_def demo_rounds demo_url_facts demo_url_parse demo_port url_arg_def)
qed

lemma demo_isolation_ok: "check_isolation (\<lambda>_. True) (Some demo_host) demo_config [demo_model] [1, 4] = Inr ()"
proof -
  have "jget demo_config ''round4_isolation'' = PDict SEATBELT" "jget_or SEATBELT ''mode'' (PStr ''none'') = PStr ''macos_seatbelt''"
    "py_eq (PDict SEATBELT) (PDict SEATBELT)" "in_str_set (PStr ''macos_seatbelt'') [''none'', ''macos_seatbelt''] = Inr True"
    "set (dict_keys SEATBELT) \<subseteq> {''mode'', ''fail_closed'', ''attempt_state'', ''network'', ''post_run_audit''}"
    "h_system demo_host = ''Darwin''" "h_which demo_host ''sandbox-exec''"
    by code_simp+
  then show ?thesis by (simp add: check_isolation_def demo_endpoint)
qed

lemma demo_runtime_ok: "check_runtime (Some demo_host) [demo_model] [1, 4] = Inr ()"
proof -
  have "h_which demo_host ''codex''" "jget demo_model ''agent_backend'' = PNone" by code_simp+
  then show ?thesis by (simp add: check_runtime_def)
qed

lemma demo_valid: "validate_config (\<lambda>_. []) (\<lambda>_. True) demo_bank (Some demo_host) (PDict demo_config) = Inr ()"
  by (simp add: validate_config_def demo_checks check_model_def demo_url_ok demo_filters_ok demo_isolation_ok demo_runtime_ok)

theorem validate_config_sound_witness:
  "\<exists>models rounds. models_of demo_config = Inr models \<and> models \<noteq> [] \<and> rounds_of demo_config = Inr rounds
    \<and> distinct (map (\<lambda>m. slug (key_text m)) models) \<and> filter_ok demo_bank (hd models) 1"
  using validate_config_sound [OF demo_valid] by fastforce


lemma demo_bank_ids: "\<forall>n \<in> {1, 2, 3}. \<exists>av. round_item_ids demo_bank n = Inr av \<and> av \<noteq> []"
proof -
  have "round_item_ids demo_bank 2 = Inr [1, 2]" "round_item_ids demo_bank 3 = Inr [1, 2]" by code_simp+
  then show ?thesis using demo_ids by auto
qed


definition loopback_model :: "(string \<Rightarrow> bool) \<Rightarrow> jobj \<Rightarrow> bool" where
  "loopback_model ip_ok m \<longleftrightarrow> provider_of m = PStr ''custom''
     \<and> (\<exists>s u port. jget_or m ''base_url'' DEFAULT_URL = PStr s \<and> urlparse ip_ok s = Inr u
          \<and> u_hostname u \<in> {''127.0.0.1'', ''localhost'', ''::1''} \<and> u_port u = Inr (Some port))"

lemma check_endpoint_Inr:
  assumes "check_endpoint ip_ok rounds m = Inr ()" and "model_rounds m rounds = Inr sel" and "4 \<in> set sel"
  shows "loopback_model ip_ok m"
proof -
  obtain s u where s: "url_arg (jget_or m ''base_url'' DEFAULT_URL) = Inr s" "urlparse ip_ok s = Inr u"
    and c: "(case u_port u of Inl _ \<Rightarrow> Inl (model_err m ''isolation endpoint port is invalid'')
              | Inr port \<Rightarrow>
                  fail_if (provider_of m \<noteq> PStr ''custom'' \<or> u_hostname u \<notin> {''127.0.0.1'', ''localhost'', ''::1''} \<or> port = None)
                    (model_err m ''model_endpoint_only isolation requires a loopback model endpoint with an explicit port'')) = Inr ()"
    using assms by (auto simp: check_endpoint_def res_bind_Inr_iff)
  obtain port where p: "u_port u = Inr (Some port)" "provider_of m = PStr ''custom''"
    "u_hostname u \<in> {''127.0.0.1'', ''localhost'', ''::1''}"
    using c by (cases "u_port u") (auto simp del: insert_iff)
  have "u_hostname u \<noteq> []" using p(3) by auto
  have "jget_or m ''base_url'' DEFAULT_URL = PStr s"
  proof (cases "jget_or m ''base_url'' DEFAULT_URL")
    case (PStr t)
    then show ?thesis using s by (simp add: url_arg_def)
  qed (use s \<open>u_hostname u \<noteq> []\<close> in \<open>auto simp: url_arg_def urlparse_def url_clean_def split_scheme_def partition_at_def
        starts_with_def u_hostname_def u_hostinfo_def rpartition_at_def str_lower_def split: if_splits\<close>)
  then show ?thesis using p s unfolding loopback_model_def by blast
qed

lemma check_isolation_Inr:
  assumes "check_isolation ip_ok runtime config models rounds = Inr ()"
    and "jget config ''round4_isolation'' = PDict d" and "jget_or d ''mode'' (PStr ''none'') \<noteq> PStr ''none''"
  shows "py_eq (PDict d) (PDict SEATBELT) \<and> (\<forall>m \<in> set models. check_endpoint ip_ok rounds m = Inr ())
    \<and> (\<forall>h. runtime = Some h \<longrightarrow> h_system h = ''Darwin'' \<and> h_which h ''sandbox-exec'')"
  using assms unfolding check_isolation_def in_str_set_def
  by (auto simp: Let_def res_bind_Inr_iff res_all_Inr_iff split: if_splits)

text \<open>C13. Isolation fails closed: when a validated campaign asks for any isolation mode, it is the
  complete seatbelt contract, every model that runs round 4 talks to a loopback endpoint with an
  explicit port, and on a real run the host provides the sandbox.\<close>

theorem isolation_fails_closed:
  assumes "validate_config strf ip_ok bank runtime (PDict config) = Inr ()"
    and "jget config ''round4_isolation'' = PDict d" and "jget_or d ''mode'' (PStr ''none'') \<noteq> PStr ''none''"
  shows "py_eq (PDict d) (PDict SEATBELT)
    \<and> (\<forall>h. runtime = Some h \<longrightarrow> h_system h = ''Darwin'' \<and> h_which h ''sandbox-exec'')
    \<and> (\<exists>models rounds. models_of config = Inr models \<and> rounds_of config = Inr rounds
         \<and> (\<forall>m \<in> set models. \<forall>sel. model_rounds m rounds = Inr sel \<and> 4 \<in> set sel \<longrightarrow> loopback_model ip_ok m))"
proof -
  from assms(1) obtain models rounds where v: "models_of config = Inr models" "rounds_of config = Inr rounds"
    "check_isolation ip_ok runtime config models rounds = Inr ()"
    by (rule validate_config_Inr) simp
  note iso = check_isolation_Inr [OF v(3) assms(2,3)]
  show ?thesis
    using v(1,2) iso check_endpoint_Inr by (intro conjI exI [of _ models] exI [of _ rounds]) blast+
qed

theorem isolation_fails_closed_witness:
  "jget demo_config ''round4_isolation'' = PDict SEATBELT \<and> h_system demo_host = ''Darwin''"
proof -
  have d: "jget demo_config ''round4_isolation'' = PDict SEATBELT" by code_simp
  have m: "jget_or SEATBELT ''mode'' (PStr ''none'') \<noteq> PStr ''none''" by code_simp
  show ?thesis using isolation_fails_closed [OF demo_valid d m] d by blast
qed

end
