(* ===== verification/Campaign.thy ===== *)
theory Campaign
  imports Config
begin

text \<open>
  Running a campaign: the progress dashboard (\<open>src/llm_hardtest/progress.py\<close>) and the
  orchestrator's \<open>_progress_callback\<close>, \<open>_execute\<close> and \<open>run\<close>
  (\<open>src/llm_hardtest/orchestrator.py\<close>).

  The state of a campaign is what lies in the run directory (the \<open>result.json\<close> of every model,
  round and attempt, the \<open>run.json\<close> of every model's round 4) and the dashboard. A step returns
  the new state and the exception it raised, if any: what was written before an exception stays
  written. The runners of the rounds are parameters that return the progress events they send
  and the payload they save; \<open>std_runner\<close> instantiates them with the models of rounds 1 to 3.
  The screen is redrawn by a background thread at any time; \<open>render\<close> gives the lines it draws
  from a state, \<open>d_stream\<close> holds what the line-oriented fallback prints.
\<close>

section \<open>The dashboard\<close>

record dashboard =
  d_campaign :: string
  d_total :: int
  d_run_dir :: string
  d_enabled :: bool
  d_completed :: int
  d_passed :: int
  d_failed :: int
  d_review :: int
  d_incomplete :: int
  d_invalid :: int
  d_skipped :: int
  d_current :: string
  d_latest :: string
  d_stream :: "string list"

definition pad2 :: "nat \<Rightarrow> string" where
  "pad2 n = (if n < 10 then CHR ''0'' # show_nat n else show_nat n)"

definition duration :: "rat option \<Rightarrow> string" where
  "duration s =
     (case s of
        None \<Rightarrow> ''--:--''
      | Some q \<Rightarrow>
          (let t = nat (if 0 \<le> q then \<lfloor>q\<rfloor> else \<lceil>q\<rceil>); hours = t div 3600; r = t mod 3600 in
           (if hours \<noteq> 0 then pad2 hours @ '':'' else []) @ pad2 (r div 60) @ '':'' @ pad2 (r mod 60)))"

text \<open>\<open>f"{q:.1f}"\<close>.\<close>

definition fmt1 :: "rat \<Rightarrow> string" where
  "fmt1 q =
     (let k = round_half_even (10 * \<bar>q\<bar>) in
      (if q < 0 then ''-'' else []) @ show_int (k div 10) @ ''.'' @ show_int (k mod 10))"

definition new_dashboard :: "string \<Rightarrow> int \<Rightarrow> string \<Rightarrow> string \<Rightarrow> bool \<Rightarrow> dashboard res" where
  "new_dashboard campaign units run_dir mode tty =
     (if mode \<notin> {''auto'', ''dashboard'', ''plain''}
      then Inl (ValueError ''progress mode must be auto, dashboard, or plain'')
      else Inr \<lparr>d_campaign = campaign, d_total = units, d_run_dir = run_dir,
        d_enabled = (mode = ''dashboard'' \<or> mode = ''auto'' \<and> tty), d_completed = 0, d_passed = 0, d_failed = 0,
        d_review = 0, d_incomplete = 0, d_invalid = 0, d_skipped = 0, d_current = ''Preparing campaign'',
        d_latest = ''Validating execution plan'', d_stream = []\<rparr>)"

definition print_line :: "string \<Rightarrow> dashboard \<Rightarrow> dashboard" where
  "print_line s d = (if d_enabled d then d else d\<lparr>d_stream := d_stream d @ [s]\<rparr>)"

definition unit_label :: "string \<Rightarrow> int \<Rightarrow> int \<Rightarrow> int \<Rightarrow> string \<Rightarrow> string" where
  "unit_label model n attempt attempts item =
     model @ '' | Round '' @ show_int n @ '' | attempt '' @ show_int attempt @ ''/'' @ show_int attempts @ '' | '' @ item"

definition dash_start :: "string \<Rightarrow> int \<Rightarrow> int \<Rightarrow> int \<Rightarrow> string \<Rightarrow> dashboard \<Rightarrow> dashboard" where
  "dash_start model n attempt attempts item d =
     d\<lparr>d_current := unit_label model n attempt attempts item, d_latest := ''Running''\<rparr>"

definition bump :: "status \<Rightarrow> dashboard \<Rightarrow> dashboard" where
  "bump st d =
     (case st of
        PASS \<Rightarrow> d\<lparr>d_passed := d_passed d + 1\<rparr>
      | FAIL \<Rightarrow> d\<lparr>d_failed := d_failed d + 1\<rparr>
      | REVIEW \<Rightarrow> d\<lparr>d_review := d_review d + 1\<rparr>
      | INCOMPLETE \<Rightarrow> d\<lparr>d_incomplete := d_incomplete d + 1\<rparr>
      | INVALID \<Rightarrow> d\<lparr>d_invalid := d_invalid d + 1\<rparr>)"

definition dash_record :: "string \<Rightarrow> string \<Rightarrow> int \<Rightarrow> int \<Rightarrow> int \<Rightarrow> string \<Rightarrow> pyval \<Rightarrow> dashboard \<Rightarrow> dashboard res" where
  "dash_record status model n attempt attempts item wall d =
     (case status_of_name (str_upper status) of
        None \<Rightarrow> Inl (ValueError (''unsupported progress status '' @ status))
      | Some st \<Rightarrow>
          (let d = bump st (d\<lparr>d_completed := d_completed d + 1\<rparr>);
               timing = (case py_num wall of Some q \<Rightarrow> '' in '' @ fmt1 q @ ''s'' | None \<Rightarrow> []);
               d = d\<lparr>d_current := unit_label model n attempt attempts item,
                     d_latest := item @ '': '' @ status_name st @ timing\<rparr>
           in Inr (print_line (''    r'' @ show_int n @ '' '' @ item @ '': '' @ status_name st) d)))"

definition dash_skip :: "int \<Rightarrow> string \<Rightarrow> dashboard \<Rightarrow> dashboard" where
  "dash_skip k description d =
     print_line (''[resume] '' @ description)
       (d\<lparr>d_completed := d_completed d + max 0 k, d_skipped := d_skipped d + max 0 k,
          d_current := description,
          d_latest := ''Resumed '' @ show_int k @ '' completed item'' @ (if k \<noteq> 1 then ''s'' else [])\<rparr>)"

definition dash_message :: "string \<Rightarrow> dashboard \<Rightarrow> dashboard" where
  "dash_message text d = print_line text (d\<lparr>d_latest := text\<rparr>)"

definition dash_complete_plan :: "dashboard \<Rightarrow> dashboard" where
  "dash_complete_plan d =
     d\<lparr>d_completed := d_total d, d_current := ''Dry-run plan complete'', d_latest := ''No model was called''\<rparr>"

definition dash_finish :: "bool \<Rightarrow> string option \<Rightarrow> dashboard \<Rightarrow> dashboard" where
  "dash_finish success text d =
     d\<lparr>d_current := (if success then ''Campaign complete'' else ''Campaign stopped''),
       d_latest := (case text of Some (c # s) \<Rightarrow> c # s
                    | _ \<Rightarrow> if success then ''Report generated'' else ''See the error below'')\<rparr>"

text \<open>The seven lines on the screen, for the elapsed time and the width of the terminal.\<close>

definition bar_fill :: "dashboard \<Rightarrow> int \<Rightarrow> nat" where
  "bar_fill d width =
     (let percent = (if d_total d \<noteq> 0 then of_int (100 * d_completed d) / of_int (d_total d) else (100 :: rat)) in
      nat (min width (round_half_even (of_int width * min percent 100 / 100))))"

definition render :: "rat \<Rightarrow> int \<Rightarrow> dashboard \<Rightarrow> string list" where
  "render elapsed terminal d =
     (let percent = (if d_total d \<noteq> 0 then of_int (100 * d_completed d) / of_int (d_total d) else (100 :: rat));
          rate = (if 0 < elapsed then of_int (d_completed d) / elapsed else 0);
          remaining = max 0 (d_total d - d_completed d);
          eta = (if 0 < rate \<and> d_completed d \<noteq> 0 then Some (of_int remaining / rate) else None);
          columns = max 20 terminal;
          width = min 32 (max 10 (columns - 49));
          filled = bar_fill d width;
          bar = replicate filled (CHR ''#'') @ replicate (nat width - filled) (CHR ''-'')
      in map (take (nat (columns - 1)))
           [''LLM Hardtest | '' @ d_campaign d,
            ''['' @ bar @ ''] '' @ show_int (d_completed d) @ ''/'' @ show_int (d_total d) @ '' ('' @ rjust 5 (fmt1 percent) @ ''%)'',
            ''Elapsed '' @ duration (Some elapsed) @ '' | ETA '' @ duration eta,
            d_current d,
            ''PASS '' @ show_int (d_passed d) @ '' | FAIL '' @ show_int (d_failed d) @ '' | INCOMPLETE '' @ show_int (d_incomplete d)
              @ '' | REVIEW '' @ show_int (d_review d) @ '' | INVALID '' @ show_int (d_invalid d) @ '' | RESUMED '' @ show_int (d_skipped d),
            d_latest d,
            ''Output: '' @ d_run_dir d])"

section \<open>Executing a campaign\<close>

record campaign =
  c_results :: "(string \<times> int \<times> int, jobj) dict"
  c_runs :: "(string, jobj) dict"
  c_dash :: dashboard

text \<open>A loop over steps that may raise: the state at the exception is kept.\<close>

fun run_all :: "('s \<Rightarrow> 'a \<Rightarrow> 's \<times> exn option) \<Rightarrow> 's \<Rightarrow> 'a list \<Rightarrow> 's \<times> exn option" where
  "run_all f s [] = (s, None)"
| "run_all f s (x # xs) = (case f s x of (t, Some e) \<Rightarrow> (t, Some e) | (t, None) \<Rightarrow> run_all f t xs)"

text \<open>A progress event may carry the attempt it belongs to.\<close>

type_synonym campaign_event = "int option \<times> progress_event"

definition progress_callback :: "string \<Rightarrow> int \<Rightarrow> int \<Rightarrow> int \<Rightarrow> dashboard \<Rightarrow> campaign_event \<Rightarrow> dashboard \<times> exn option" where
  "progress_callback key n attempt attempts d ev =
     (case ev of (a, e) \<Rightarrow>
        (let event_attempt = (case a of Some k \<Rightarrow> k | None \<Rightarrow> attempt) in
         case e of
           Started item \<Rightarrow> (dash_start key n event_attempt attempts item d, None)
         | Completed item status wall \<Rightarrow>
             (case dash_record status key n event_attempt attempts item wall d of
                Inl x \<Rightarrow> (d, Some x) | Inr d' \<Rightarrow> (d', None))))"

definition send_events :: "string \<Rightarrow> int \<Rightarrow> int \<Rightarrow> int \<Rightarrow> campaign_event list \<Rightarrow> campaign \<Rightarrow> campaign \<times> exn option" where
  "send_events key n attempt attempts evs st =
     (case run_all (progress_callback key n attempt attempts) (c_dash st) evs of (d, x) \<Rightarrow> (st\<lparr>c_dash := d\<rparr>, x))"

definition say :: "string \<Rightarrow> campaign \<Rightarrow> campaign" where
  "say text st = st\<lparr>c_dash := dash_message text (c_dash st)\<rparr>"

definition clean_result :: "jobj \<Rightarrow> bool" where
  "clean_result saved \<longleftrightarrow> \<not> truthy (jget saved ''infrastructure_errors'') \<and> \<not> truthy (jget saved ''incomplete'')"

definition planned_of :: "(string \<Rightarrow> pyval res) \<Rightarrow> int \<Rightarrow> jobj \<Rightarrow> int res" where
  "planned_of bank n saved =
     res_bind (round_units bank n) (\<lambda>u. py_int (jget_or saved ''planned'' (PInt (int u))))"

definition question_filter :: "pyval \<Rightarrow> int list option" where
  "question_filter v = (case v of PList (x # xs) \<Rightarrow> Some (List.map_filter as_int (x # xs)) | _ \<Rightarrow> None)"

text \<open>What a runner of rounds 1 to 3 does: the model, the round, the attempt and the filter give
  the events it sends and the payload it saves or the exception it raises.\<close>

type_synonym runner = "jobj \<Rightarrow> int \<Rightarrow> int \<Rightarrow> int list option \<Rightarrow> progress_event list \<times> jobj res"

definition attempt_label :: "string \<Rightarrow> int \<Rightarrow> int \<Rightarrow> string" where
  "attempt_label key n attempt = key @ '' round '' @ show_int n @ '' attempt '' @ show_int attempt"

definition run_attempt :: "runner \<Rightarrow> bool \<Rightarrow> int \<Rightarrow> jobj \<Rightarrow> int \<Rightarrow> campaign \<Rightarrow> int \<Rightarrow> campaign \<times> exn option" where
  "run_attempt runner dry reps model n st attempt =
     (let key = key_text model; st = say (''[run] '' @ attempt_label key n attempt @ ''/'' @ show_int reps) st in
      if dry then (st, None)
      else case runner model n attempt (question_filter (item_filter model n)) of (evs, out) \<Rightarrow>
        (case send_events key n attempt reps (map (Pair None) evs) st of
           (st', Some e) \<Rightarrow> (st', Some e)
         | (st', None) \<Rightarrow>
             (case out of
                Inl e \<Rightarrow> (st', Some e)
              | Inr payload \<Rightarrow> (st'\<lparr>c_results := AList.update (key, n, attempt) payload (c_results st')\<rparr>, None))))"

definition exec_attempt ::
  "(string \<Rightarrow> pyval res) \<Rightarrow> runner \<Rightarrow> bool \<Rightarrow> int \<Rightarrow> jobj \<Rightarrow> int \<Rightarrow> campaign \<Rightarrow> int \<Rightarrow> campaign \<times> exn option" where
  "exec_attempt bank runner dry reps model n st attempt =
     (let key = key_text model in
      case map_of (c_results st) (key, n, attempt) of
        None \<Rightarrow> run_attempt runner dry reps model n st attempt
      | Some saved \<Rightarrow>
          if clean_result saved
          then (case planned_of bank n saved of
                  Inl e \<Rightarrow> (st, Some e)
                | Inr k \<Rightarrow> (st\<lparr>c_dash := dash_skip k (attempt_label key n attempt) (c_dash st)\<rparr>, None))
          else run_attempt runner dry reps model n
                 (say (''[retry] '' @ attempt_label key n attempt @ '' has incomplete or infrastructure-invalid items'') st)
                 attempt)"

text \<open>Round 4 runs all attempts of all tasks at once: its runner returns the events, the
  \<open>run.json\<close> it wrote, if it got that far, and its exit code.\<close>

type_synonym runner4 = "jobj \<Rightarrow> int \<Rightarrow> pyval \<Rightarrow> campaign_event list \<times> jobj option \<times> int res"

definition round4_model :: "jobj \<Rightarrow> jobj \<Rightarrow> jobj" where
  "round4_model config model =
     (if jget config ''round4_isolation'' \<noteq> PNone
      then AList.update ''round4_isolation'' (jget config ''round4_isolation'') model else model)"

definition skip4 :: "jobj \<Rightarrow> int \<Rightarrow> jobj \<Rightarrow> int res" where
  "skip4 config reps saved =
     res_bind (py_int (jget_or saved ''attempts'' (PInt reps))) (\<lambda>a.
     res_bind (py_len (jget_or saved ''tasks'' (plan_tasks config))) (\<lambda>k. Inr (a * int k)))"

definition run_round4 :: "runner4 \<Rightarrow> bool \<Rightarrow> jobj \<Rightarrow> int \<Rightarrow> jobj \<Rightarrow> campaign \<Rightarrow> campaign \<times> exn option" where
  "run_round4 run4 dry config reps model st =
     (let key = key_text model; st = say (''[run] '' @ key @ '' round 4 x'' @ show_int reps) st in
      if dry then (st, None)
      else case run4 (round4_model config model) reps (py_or (item_filter model 4) (jget config ''round4_tasks'')) of
        (evs, written, code) \<Rightarrow>
          (case send_events key 4 1 reps evs st of
             (st', Some e) \<Rightarrow> (st', Some e)
           | (st', None) \<Rightarrow>
               (let st'' = (case written of None \<Rightarrow> st'
                            | Some d \<Rightarrow> st'\<lparr>c_runs := AList.update key d (c_runs st')\<rparr>) in
                case code of
                  Inl e \<Rightarrow> (st'', Some e)
                | Inr c \<Rightarrow> (st'', if c \<noteq> 0 then Some (RuntimeError (''round 4 failed with exit code '' @ show_int c)) else None))))"

definition exec_round4 :: "runner4 \<Rightarrow> bool \<Rightarrow> jobj \<Rightarrow> int \<Rightarrow> jobj \<Rightarrow> campaign \<Rightarrow> campaign \<times> exn option" where
  "exec_round4 run4 dry config reps model st =
     (let key = key_text model in
      case map_of (c_runs st) key of
        None \<Rightarrow> run_round4 run4 dry config reps model st
      | Some saved \<Rightarrow>
          if \<not> truthy (jget saved ''errors'')
          then (case skip4 config reps saved of
                  Inl e \<Rightarrow> (st, Some e)
                | Inr k \<Rightarrow> (st\<lparr>c_dash := dash_skip k (key @ '' round 4'') (c_dash st)\<rparr>, None))
          else run_round4 run4 dry config reps model
                 (say (''[retry] '' @ key @ '' round 4 has infrastructure errors'') st))"

definition and_then :: "'s \<times> exn option \<Rightarrow> ('s \<Rightarrow> 's \<times> exn option) \<Rightarrow> 's \<times> exn option" where
  "and_then r f = (case r of (s, Some e) \<Rightarrow> (s, Some e) | (s, None) \<Rightarrow> f s)"

definition exec_round ::
  "(string \<Rightarrow> pyval res) \<Rightarrow> runner \<Rightarrow> bool \<Rightarrow> int \<Rightarrow> jobj \<Rightarrow> campaign \<Rightarrow> int \<Rightarrow> campaign \<times> exn option" where
  "exec_round bank runner dry reps model st n =
     run_all (exec_attempt bank runner dry reps model n) st (map int [1..<Suc (nat reps)])"

definition slugged :: "jobj \<Rightarrow> jobj" where
  "slugged model = AList.update ''key'' (PStr (slug (key_text model))) model"

definition exec_model ::
  "(string \<Rightarrow> pyval res) \<Rightarrow> runner \<Rightarrow> runner4 \<Rightarrow> bool \<Rightarrow> jobj \<Rightarrow> int \<Rightarrow> int list \<Rightarrow> campaign \<Rightarrow> jobj \<Rightarrow> campaign \<times> exn option" where
  "exec_model bank runner run4 dry config reps rounds st model =
     (let model = slugged model in
      case model_rounds model rounds of
        Inl e \<Rightarrow> (st, Some e)
      | Inr selected \<Rightarrow>
          and_then (run_all (exec_round bank runner dry reps model) st (filter (\<lambda>n. n \<in> {1, 2, 3}) selected)) (\<lambda>st.
            if 4 \<in> set selected then exec_round4 run4 dry config reps model st else (st, None)))"

text \<open>The repetitions, the rounds and the models of a configuration.\<close>

definition plan_of :: "jobj \<Rightarrow> (int \<times> int list \<times> jobj list) res" where
  "plan_of config =
     res_bind (res_bind (jitem config ''repetitions'') py_int) (\<lambda>reps.
     res_bind (res_bind (need config ''rounds'') (res_map py_int)) (\<lambda>rounds.
     res_bind (models_of config) (\<lambda>models. Inr (reps, rounds, models))))"

definition execute ::
  "(string \<Rightarrow> pyval res) \<Rightarrow> runner \<Rightarrow> runner4 \<Rightarrow> bool \<Rightarrow> jobj \<Rightarrow> campaign \<Rightarrow> campaign \<times> exn option" where
  "execute bank runner run4 dry config st =
     (case plan_of config of
        Inl e \<Rightarrow> (st, Some e)
      | Inr (reps, rounds, models) \<Rightarrow> run_all (exec_model bank runner run4 dry config reps rounds) st models)"

text \<open>The whole run directory: the saved configuration and the campaign; \<open>report\<close> is the report
  generator.\<close>

record run_dir =
  rd_config :: "pyval option"
  rd_campaign :: campaign

definition finish_run :: "bool \<Rightarrow> (campaign \<Rightarrow> unit res) \<Rightarrow> campaign \<times> exn option \<Rightarrow> campaign \<times> exn option" where
  "finish_run dry report r =
     (case and_then r (\<lambda>st. if dry then (st, None) else case report st of Inl e \<Rightarrow> (st, Some e) | Inr _ \<Rightarrow> (st, None)) of
        (st, Some e) \<Rightarrow> (st\<lparr>c_dash := dash_finish False None (c_dash st)\<rparr>, Some e)
      | (st, None) \<Rightarrow>
          (st\<lparr>c_dash := dash_finish True (Some (if dry then ''Dry-run plan complete'' else ''Report generated''))
                (if dry then dash_complete_plan (c_dash st) else c_dash st)\<rparr>, None))"

definition start_run ::
  "(string \<Rightarrow> pyval res) \<Rightarrow> runner \<Rightarrow> runner4 \<Rightarrow> (campaign \<Rightarrow> unit res) \<Rightarrow> string \<Rightarrow> bool \<Rightarrow> string \<Rightarrow> bool \<Rightarrow> jobj
     \<Rightarrow> run_dir \<Rightarrow> run_dir \<times> exn option" where
  "start_run bank runner run4 report mode tty dir dry config rd =
     (case res_bind (campaign_units bank config) (\<lambda>units.
           new_dashboard (jstr (\<lambda>_. []) (jget_or config ''name'' (PStr ''campaign''))) units dir mode tty) of
        Inl e \<Rightarrow> (rd, Some e)
      | Inr d \<Rightarrow>
          (case finish_run dry report (execute bank runner run4 dry config (rd_campaign rd\<lparr>c_dash := d\<rparr>)) of
             (st, x) \<Rightarrow> (rd\<lparr>rd_campaign := st\<rparr>, x)))"

definition run_campaign ::
  "(pyval \<Rightarrow> string) \<Rightarrow> (string \<Rightarrow> bool) \<Rightarrow> (string \<Rightarrow> pyval res) \<Rightarrow> host \<Rightarrow> runner \<Rightarrow> runner4 \<Rightarrow> (campaign \<Rightarrow> unit res)
     \<Rightarrow> string \<Rightarrow> bool \<Rightarrow> string \<Rightarrow> bool \<Rightarrow> jobj \<Rightarrow> run_dir \<Rightarrow> run_dir \<times> exn option" where
  "run_campaign strf ip_ok bank host runner run4 report mode tty dir dry config rd =
     (case validate_config strf ip_ok bank (Some host) (PDict config) of
        Inl e \<Rightarrow> (rd, Some e)
      | Inr _ \<Rightarrow>
          (case rd_config rd of
             Some old \<Rightarrow> if \<not> py_eq old (PDict config)
                         then (rd, Some (ValueError ''resume config does not match the saved config.json''))
                         else start_run bank runner run4 report mode tty dir dry config rd
           | None \<Rightarrow> start_run bank runner run4 report mode tty dir dry config (rd\<lparr>rd_config := Some (PDict config)\<rparr>)))"

section \<open>The runners of rounds 1 to 3\<close>

text \<open>The events are sent while the questions are answered, before the payload is put together.\<close>

definition r12_trace ::
  "question list \<Rightarrow> int list option \<Rightarrow> (nat \<Rightarrow> message list \<Rightarrow> jobj res) \<Rightarrow> (nat \<Rightarrow> rat) \<Rightarrow> progress_event list" where
  "r12_trace questions flt ask elapsed =
     (let qs = r12_questions questions flt in
      concat (map (\<lambda>(i, q). r12_events q (r12_answer ask elapsed i q)) (enumerate 0 qs)))"

definition r3_trace ::
  "question3 list \<Rightarrow> string \<Rightarrow> int list option \<Rightarrow> (nat \<Rightarrow> message list \<Rightarrow> jobj res) \<Rightarrow> (nat \<Rightarrow> rat) \<Rightarrow> (string \<Rightarrow> string)
     \<Rightarrow> progress_event list" where
  "r3_trace questions instruction flt ask elapsed read_text =
     concat (map (\<lambda>(i, q). let row = r3_answer ask elapsed read_text instruction i q in
         [Started (item_name (q3_id q)), Completed (item_name (q3_id q)) (status_name (r3_mark row)) (jget row ''wall'')])
       (enumerate 0 (r3_questions questions flt)))"

record bank_data =
  b_questions :: "int \<Rightarrow> question list"
  b_round3 :: "question3 list"
  b_instruction :: string
  b_files :: "string \<Rightarrow> string"

text \<open>A backend for every model, round and attempt: replies and times, by question.\<close>

type_synonym backend = "jobj \<Rightarrow> int \<Rightarrow> int \<Rightarrow> (nat \<Rightarrow> message list \<Rightarrow> jobj res) \<times> (nat \<Rightarrow> rat)"

definition std_runner :: "bank_data \<Rightarrow> backend \<Rightarrow> runner" where
  "std_runner b backend model n attempt flt =
     (let key = key_text model; mid = (case jget model ''model'' of PStr s \<Rightarrow> s | _ \<Rightarrow> []);
          (ask, elapsed) = backend model n attempt in
      if n \<in> {1, 2}
      then (r12_trace (b_questions b n) flt ask elapsed,
            map_sum id fst (r12_run n key mid attempt (b_questions b n) flt ask elapsed))
      else (r3_trace (b_round3 b) (b_instruction b) flt ask elapsed (b_files b),
            map_sum id fst (r3_run key mid attempt (b_round3 b) (b_instruction b) flt ask elapsed (b_files b))))"

section \<open>The dashboard adds up\<close>

definition dash_inv :: "dashboard \<Rightarrow> bool" where
  "dash_inv d \<longleftrightarrow>
     d_completed d = d_passed d + d_failed d + d_review d + d_incomplete d + d_invalid d + d_skipped d
     \<and> 0 \<le> d_passed d \<and> 0 \<le> d_failed d \<and> 0 \<le> d_review d \<and> 0 \<le> d_incomplete d \<and> 0 \<le> d_invalid d \<and> 0 \<le> d_skipped d"

lemma dash_inv_new: "new_dashboard c n r m t = Inr d \<Longrightarrow> dash_inv d \<and> d_completed d = 0 \<and> d_total d = n"
  by (auto simp: new_dashboard_def dash_inv_def split: if_splits)

lemma print_line_simps [simp]:
  "d_completed (print_line s d) = d_completed d" "d_total (print_line s d) = d_total d"
  "dash_inv (print_line s d) = dash_inv d"
  by (simp_all add: print_line_def dash_inv_def)

lemma dash_start_simps [simp]:
  "d_completed (dash_start m n a b i d) = d_completed d" "d_total (dash_start m n a b i d) = d_total d"
  "dash_inv (dash_start m n a b i d) = dash_inv d"
  by (simp_all add: dash_start_def dash_inv_def)

lemma dash_message_simps [simp]:
  "d_completed (dash_message s d) = d_completed d" "d_total (dash_message s d) = d_total d"
  "dash_inv (dash_message s d) = dash_inv d"
  by (simp_all add: dash_message_def print_line_def dash_inv_def)

lemma dash_skip_simps [simp]:
  "d_completed (dash_skip k s d) = d_completed d + max 0 k" "d_total (dash_skip k s d) = d_total d"
  "dash_inv d \<Longrightarrow> dash_inv (dash_skip k s d)"
  by (simp_all add: dash_skip_def print_line_def dash_inv_def)

lemma dash_finish_simps [simp]:
  "d_completed (dash_finish b s d) = d_completed d" "d_total (dash_finish b s d) = d_total d"
  "dash_inv (dash_finish b s d) = dash_inv d"
  by (simp_all add: dash_finish_def dash_inv_def)

lemma dash_record_Inr:
  assumes "dash_record s m n a b i w d = Inr d'"
  shows "d_completed d' = d_completed d + 1 \<and> d_total d' = d_total d \<and> (dash_inv d \<longrightarrow> dash_inv d')"
  using assms unfolding dash_record_def
  by (auto simp: Let_def bump_def dash_inv_def print_line_def split: option.splits status.splits)

fun is_completed :: "progress_event \<Rightarrow> bool" where
  "is_completed (Started i) = False"
| "is_completed (Completed i s w) = True"

definition completions :: "campaign_event list \<Rightarrow> int" where
  "completions evs = int (length (filter (\<lambda>e. is_completed (snd e)) evs))"

lemma progress_callback_facts:
  assumes "progress_callback k n a b d ev = (d', x)"
  shows "(dash_inv d \<longrightarrow> dash_inv d') \<and> d_total d' = d_total d
     \<and> (x = None \<longrightarrow> d_completed d' = d_completed d + completions [ev])"
  using assms unfolding progress_callback_def completions_def
  by (auto simp: Let_def split: prod.splits progress_event.splits sum.splits dest: dash_record_Inr)

lemma run_all_invariant:
  assumes "run_all f s xs = (t, x)" and "I s" and "\<And>s x t e. x \<in> set xs \<Longrightarrow> I s \<Longrightarrow> f s x = (t, e) \<Longrightarrow> I t"
  shows "I t"
  using assms
proof (induction xs arbitrary: s)
  case (Cons y ys)
  obtain u e where u: "f s y = (u, e)" by (cases "f s y")
  have "I u" using Cons.prems(2,3) u by auto
  then show ?case using Cons.prems(1) u Cons.IH [of u] Cons.prems(3) by (cases e) auto
qed simp

lemma send_dash:
  assumes "run_all (progress_callback k n a b) d evs = (d', x)"
  shows "(dash_inv d \<longrightarrow> dash_inv d') \<and> d_total d' = d_total d
     \<and> (x = None \<longrightarrow> d_completed d' = d_completed d + completions evs)"
  using assms
proof (induction evs arbitrary: d)
  case Nil
  then show ?case by (simp add: completions_def)
next
  case (Cons ev evs)
  obtain u e where u: "progress_callback k n a b d ev = (u, e)" by (cases "progress_callback k n a b d ev")
  note f = progress_callback_facts [OF u]
  show ?case
  proof (cases e)
    case None
    then have "run_all (progress_callback k n a b) u evs = (d', x)" using Cons.prems u by simp
    from Cons.IH [OF this] f None show ?thesis by (simp add: completions_def)
  qed (use Cons.prems u f in auto)
qed

lemma send_events_facts:
  assumes "send_events k n a b evs st = (st', x)"
  shows "(dash_inv (c_dash st) \<longrightarrow> dash_inv (c_dash st')) \<and> c_results st' = c_results st \<and> c_runs st' = c_runs st
     \<and> d_total (c_dash st') = d_total (c_dash st)
     \<and> (x = None \<longrightarrow> d_completed (c_dash st') = d_completed (c_dash st) + completions evs)"
  using assms unfolding send_events_def by (auto split: prod.splits dest: send_dash)

lemma say_simps [simp]:
  "c_results (say t st) = c_results st" "c_runs (say t st) = c_runs st"
  "d_completed (c_dash (say t st)) = d_completed (c_dash st)" "d_total (c_dash (say t st)) = d_total (c_dash st)"
  "dash_inv (c_dash (say t st)) = dash_inv (c_dash st)"
  by (simp_all add: say_def)

section \<open>What is on disk\<close>

text \<open>A slot is one saved file: the attempt of a round of a model, and (key, 4, 0) for the
  \<open>run.json\<close> of its round 4.\<close>

type_synonym slot = "string \<times> int \<times> int"

definition look :: "campaign \<Rightarrow> slot \<Rightarrow> jobj option" where
  "look st sl = (case sl of (k, n, a) \<Rightarrow> if n = 4 then (if a = 0 then map_of (c_runs st) k else None) else map_of (c_results st) (k, n, a))"

definition slot_ok :: "slot \<Rightarrow> jobj \<Rightarrow> bool" where
  "slot_ok sl d \<longleftrightarrow>
     (if fst (snd sl) = 4
      then (\<exists>a ts. jget d ''attempts'' = PInt a \<and> 0 \<le> a \<and> jget d ''tasks'' = PList ts)
      else (\<exists>p. jget d ''planned'' = PInt p \<and> 0 \<le> p))"

definition slot_units :: "slot \<Rightarrow> jobj \<Rightarrow> int" where
  "slot_units sl d =
     (if fst (snd sl) = 4
      then (case (jget d ''attempts'', jget d ''tasks'') of (PInt a, PList ts) \<Rightarrow> a * int (length ts) | _ \<Rightarrow> 0)
      else (case jget d ''planned'' of PInt p \<Rightarrow> p | _ \<Rightarrow> 0))"

definition slot_clean :: "slot \<Rightarrow> jobj \<Rightarrow> bool" where
  "slot_clean sl d \<longleftrightarrow> (if fst (snd sl) = 4 then \<not> truthy (jget d ''errors'') else clean_result d)"

definition store_ok :: "campaign \<Rightarrow> bool" where
  "store_ok st \<longleftrightarrow> (\<forall>sl d. look st sl = Some d \<longrightarrow> slot_ok sl d)"

definition model_slots :: "int \<Rightarrow> int list \<Rightarrow> jobj \<Rightarrow> slot list" where
  "model_slots reps rounds model =
     (let key = slug (key_text model) in
      concat (map (\<lambda>n. if n = 4 then [(key, 4, 0)] else map (\<lambda>a. (key, n, int a)) [1..<Suc (nat reps)])
        (case model_rounds model rounds of Inr sel \<Rightarrow> sel | Inl _ \<Rightarrow> [])))"

lemma jget_jget_or: "jget d k \<noteq> PNone \<Longrightarrow> jget_or d k v = jget d k"
  by (auto simp: jget_def jget_or_def dict_get_def split: option.splits)

lemma look_say [simp]: "look (say t st) = look st"
  by (simp add: look_def fun_eq_iff split: prod.splits)

lemma look_dash [simp]: "look (st\<lparr>c_dash := d\<rparr>) = look st"
  by (simp add: look_def fun_eq_iff split: prod.splits)

lemma look_results:
  "n \<noteq> 4 \<Longrightarrow> c_results st = R \<Longrightarrow> look (st\<lparr>c_results := AList.update (k, n, a) p R\<rparr>) = (look st)((k, n, a) \<mapsto> p)"
  by (auto simp: look_def fun_eq_iff map_of_dict_update split: prod.splits)

lemma look_runs: "c_runs st = R \<Longrightarrow> look (st\<lparr>c_runs := AList.update k p R\<rparr>) (k', n, a) =
    (if n = 4 \<and> a = 0 \<and> k' = k then Some p else look st (k', n, a))"
  by (auto simp: look_def map_of_dict_update)

lemma look_send: "send_events k n a b evs st = (st', x) \<Longrightarrow> look st' = look st"
  by (drule send_events_facts) (auto simp: look_def fun_eq_iff split: prod.splits)

text \<open>One step of a campaign that owns the slots \<open>A\<close>: whatever happens, it keeps the dashboard
  and the store well formed and leaves the other slots alone; if it returns, its slots are on disk
  and the dashboard has advanced by their units.\<close>

definition step_frame :: "slot set \<Rightarrow> campaign \<Rightarrow> campaign \<Rightarrow> bool" where
  "step_frame A s t \<longleftrightarrow> (store_ok s \<longrightarrow> store_ok t) \<and> (dash_inv (c_dash s) \<longrightarrow> dash_inv (c_dash t))
     \<and> d_total (c_dash t) = d_total (c_dash s) \<and> (\<forall>sl. sl \<notin> A \<longrightarrow> look t sl = look s sl)"

definition units_on :: "slot set \<Rightarrow> campaign \<Rightarrow> int" where
  "units_on A t = (\<Sum>sl\<in>A. slot_units sl (the (look t sl)))"

definition step_done :: "slot set \<Rightarrow> campaign \<Rightarrow> campaign \<Rightarrow> bool" where
  "step_done A s t \<longleftrightarrow> (\<forall>sl \<in> A. look t sl \<noteq> None) \<and> d_completed (c_dash t) = d_completed (c_dash s) + units_on A t"

lemma step_frame_refl: "step_frame A s s"
  by (simp add: step_frame_def)

lemma step_frame_trans: "step_frame A s t \<Longrightarrow> step_frame B t u \<Longrightarrow> step_frame (A \<union> B) s u"
  by (auto simp: step_frame_def)

lemma step_frame_mono: "step_frame A s t \<Longrightarrow> A \<subseteq> B \<Longrightarrow> step_frame B s t"
  by (auto simp: step_frame_def)

lemma step_done_trans:
  assumes "step_done A s t" and "step_done B t u" and "step_frame B t u" and "A \<inter> B = {}" and "finite A" and "finite B"
  shows "step_done (A \<union> B) s u"
proof -
  have same: "look u sl = look t sl" if "sl \<in> A" for sl
    using assms(3,4) that unfolding step_frame_def by blast
  have "units_on A u = units_on A t" unfolding units_on_def by (rule sum.cong) (auto simp: same)
  moreover have "units_on (A \<union> B) u = units_on A u + units_on B u"
    unfolding units_on_def using assms(4-6) by (simp add: sum.union_disjoint)
  ultimately show ?thesis using assms(1,2) same by (auto simp: step_done_def)
qed

lemma run_all_frame:
  assumes "run_all f s xs = (t, e)" and "\<And>s x t e. x \<in> set xs \<Longrightarrow> f s x = (t, e) \<Longrightarrow> step_frame (A x) s t"
  shows "step_frame (\<Union>x\<in>set xs. A x) s t"
  using assms
proof (induction xs arbitrary: s)
  case (Cons y ys)
  obtain u e' where u: "f s y = (u, e')" by (cases "f s y")
  have fr: "step_frame (A y) s u" using Cons.prems(2) u by simp
  show ?case
  proof (cases e')
    case None
    then have r: "run_all f u ys = (t, e)" using Cons.prems(1) u by simp
    have "step_frame (\<Union>x\<in>set ys. A x) u t" by (rule Cons.IH [OF r]) (use Cons.prems(2) in auto)
    from step_frame_trans [OF fr this] show ?thesis by simp
  qed (use Cons.prems(1) u fr in \<open>auto intro: step_frame_mono\<close>)
qed (simp add: step_frame_refl)

lemma run_all_done:
  assumes "run_all f s xs = (t, None)" and "store_ok s" and "distinct xs"
    and "\<And>x y. x \<in> set xs \<Longrightarrow> y \<in> set xs \<Longrightarrow> x \<noteq> y \<Longrightarrow> A x \<inter> A y = {}" and "\<And>x. x \<in> set xs \<Longrightarrow> finite (A x)"
    and "\<And>s x t e. x \<in> set xs \<Longrightarrow> f s x = (t, e) \<Longrightarrow> step_frame (A x) s t"
    and "\<And>s x t. x \<in> set xs \<Longrightarrow> store_ok s \<Longrightarrow> f s x = (t, None) \<Longrightarrow> step_done (A x) s t"
  shows "step_done (\<Union>x\<in>set xs. A x) s t"
  using assms
proof (induction xs arbitrary: s)
  case Nil
  then show ?case by (simp add: step_done_def units_on_def)
next
  case (Cons y ys)
  obtain u where u: "f s y = (u, None)" and r: "run_all f u ys = (t, None)"
    using Cons.prems(1) by (auto split: prod.splits option.splits)
  have ok: "store_ok u" using Cons.prems(2) Cons.prems(6) [OF _ u] by (simp add: step_frame_def)
  have d1: "step_done (A y) s u" using Cons.prems(2,7) u by simp
  have d2: "step_done (\<Union>x\<in>set ys. A x) u t"
    by (rule Cons.IH [OF r ok]) (use Cons.prems(3-7) in auto)
  have fr: "step_frame (\<Union>x\<in>set ys. A x) u t"
    by (rule run_all_frame [OF r]) (use Cons.prems(6) in auto)
  have "A y \<inter> (\<Union>x\<in>set ys. A x) = {}" using Cons.prems(3,4) by auto
  from step_done_trans [OF d1 d2 fr this] show ?case using Cons.prems(5) by simp
qed

section \<open>The contract of the runners\<close>

text \<open>What the orchestrator relies on: a round reports one completion for every item that its
  payload calls planned, and a round 4 that exits cleanly has written a \<open>run.json\<close> whose attempts
  times tasks is the number of completions it reported.\<close>

locale round_runner =
  fixes runner :: runner
  assumes runner_planned: "runner m n a f = (evs, Inr p) \<Longrightarrow>
    jget p ''planned'' = PInt (completions (map (Pair None) evs))"
begin

lemma run_attempt_frame:
  assumes "run_attempt runner dry reps m n st a = (t, e)" and "n \<noteq> 4"
  shows "step_frame {(key_text m, n, a)} st t"
proof -
  have stored: "step_frame {(key_text m, n, a)} st (u\<lparr>c_results := AList.update (key_text m, n, a) p (c_results u)\<rparr>)"
    if "send_events k n a b (map (Pair None) evs) (say w st) = (u, x)" "runner m n a f = (evs, Inr p)" for k b evs u x w f p
  proof -
    have "slot_ok (key_text m, n, a) p"
      using runner_planned [OF that(2)] assms(2) by (simp add: slot_ok_def completions_def)
    then show ?thesis
      using send_events_facts [OF that(1)] look_send [OF that(1)] assms(2)
      by (auto simp: step_frame_def store_ok_def look_results simp del: split_paired_All)
  qed
  have other: "step_frame {(key_text m, n, a)} st u"
    if "send_events k n a b evs (say w st) = (u, x)" for k b evs u x w
    using send_events_facts [OF that] look_send [OF that] by (auto simp: step_frame_def store_ok_def)
  show ?thesis
    using assms(1) unfolding run_attempt_def
    by (auto simp: Let_def intro: stored other split: if_splits prod.splits option.splits sum.splits)
      (simp add: step_frame_def store_ok_def)
qed

lemma run_attempt_done:
  assumes "run_attempt runner False reps m n st a = (t, None)" and "n \<noteq> 4"
  shows "step_done {(key_text m, n, a)} st t"
proof -
  obtain evs p u w where r: "runner m n a (question_filter (item_filter m n)) = (evs, Inr p)"
    and s: "send_events (key_text m) n a reps (map (Pair None) evs) (say w st) = (u, None)"
    and t: "t = u\<lparr>c_results := AList.update (key_text m, n, a) p (c_results u)\<rparr>"
    using assms(1) unfolding run_attempt_def
    by (auto simp: Let_def split: prod.splits option.splits sum.splits)
  show ?thesis
    using runner_planned [OF r] send_events_facts [OF s] assms(2)
    by (simp add: t step_done_def units_on_def look_results slot_units_def)
qed

lemma exec_attempt_frame:
  assumes "exec_attempt bank runner dry reps m n st a = (t, e)" and "n \<noteq> 4"
  shows "step_frame {(key_text m, n, a)} st t"
proof -
  have retry: "step_frame {(key_text m, n, a)} st t" if "run_attempt runner dry reps m n (say w st) a = (t, e)" for w
    using run_attempt_frame [OF that assms(2)] by (simp add: step_frame_def store_ok_def)
  have skip: "step_frame {(key_text m, n, a)} st (st\<lparr>c_dash := dash_skip k w (c_dash st)\<rparr>)" for k w
    by (simp add: step_frame_def store_ok_def)
  show ?thesis
    using assms(1) unfolding exec_attempt_def
    by (auto simp: Let_def intro: run_attempt_frame [OF _ assms(2)] retry skip step_frame_refl
        split: option.splits if_splits sum.splits)
qed

lemma exec_attempt_done:
  assumes "exec_attempt bank runner False reps m n st a = (t, None)" and "n \<noteq> 4" and "store_ok st"
  shows "step_done {(key_text m, n, a)} st t"
proof (cases "map_of (c_results st) (key_text m, n, a)")
  case None
  then show ?thesis using assms by (auto simp: exec_attempt_def Let_def intro: run_attempt_done)
next
  case (Some saved)
  then have l: "look st (key_text m, n, a) = Some saved" using assms(2) by (simp add: look_def)
  then obtain p where p: "jget saved ''planned'' = PInt p" "0 \<le> p"
    using assms(2,3) unfolding store_ok_def slot_ok_def by fastforce
  show ?thesis
  proof (cases "clean_result saved")
    case True
    then obtain k where k: "planned_of bank n saved = Inr k"
      and t: "t = st\<lparr>c_dash := dash_skip k (attempt_label (key_text m) n a) (c_dash st)\<rparr>"
      using assms(1) Some by (auto simp: exec_attempt_def Let_def split: sum.splits)
    have "k = p" using k p by (auto simp: planned_of_def res_bind_Inr_iff jget_jget_or py_int_def)
    then show ?thesis using l p assms(2) by (simp add: t step_done_def units_on_def slot_units_def)
  next
    case False
    then obtain w where "run_attempt runner False reps m n (say w st) a = (t, None)"
      using assms(1) Some by (auto simp: exec_attempt_def Let_def)
    from run_attempt_done [OF this assms(2)] show ?thesis by (simp add: step_done_def)
  qed
qed

end

lemma key_text_slugged [simp]: "key_text (slugged m) = slug (key_text m)"
  by (simp add: key_text_def slugged_def jget_or_def dict_get_def map_of_dict_update)

lemma model_rounds_slugged [simp]: "model_rounds (slugged m) r = Inr sel \<longleftrightarrow> model_rounds m r = Inr sel"
proof -
  have "jget_or (slugged m) ''rounds'' v = jget_or m ''rounds'' v" for v
    by (simp add: slugged_def jget_or_def dict_get_def map_of_dict_update)
  then show ?thesis
    by (auto simp: model_rounds_def res_bind_Inr_iff ints_of_def split: pyval.splits sum.splits if_splits)
qed

definition round_slots :: "string \<Rightarrow> int \<Rightarrow> int \<Rightarrow> slot set" where
  "round_slots key reps n = (\<lambda>a. (key, n, a)) ` set (map int [1..<Suc (nat reps)])"

lemma finite_round_slots [simp]: "finite (round_slots k r n)"
  by (simp add: round_slots_def)

lemma set_model_slots:
  assumes "model_rounds m rounds = Inr sel"
  shows "set (model_slots reps rounds m) =
    (\<Union>n \<in> set (filter (\<lambda>n. n \<noteq> 4) sel). round_slots (slug (key_text m)) reps n)
    \<union> (if 4 \<in> set sel then {(slug (key_text m), 4, 0)} else {})"
  using assms by (auto simp: model_slots_def Let_def round_slots_def image_image split: if_splits)

lemma filter_123: "set sel \<subseteq> {1, 2, 3, 4 :: int} \<Longrightarrow> filter (\<lambda>n. n \<in> {1, 2, 3}) sel = filter (\<lambda>n. n \<noteq> 4) sel"
  by (rule filter_cong) auto

context round_runner
begin

lemma exec_round_frame:
  assumes "exec_round bank runner dry reps m st n = (t, e)" and "n \<noteq> 4"
  shows "step_frame (round_slots (key_text m) reps n) st t"
proof -
  have "step_frame (\<Union>a \<in> set (map int [1..<Suc (nat reps)]). {(key_text m, n, a)}) st t"
    by (rule run_all_frame [OF assms(1) [unfolded exec_round_def]]) (rule exec_attempt_frame [OF _ assms(2)])
  moreover have "(\<Union>a \<in> set (map int [1..<Suc (nat reps)]). {(key_text m, n, a)}) = round_slots (key_text m) reps n"
    by (auto simp: round_slots_def)
  ultimately show ?thesis by simp
qed

lemma exec_round_done:
  assumes "exec_round bank runner False reps m st n = (t, None)" and "n \<noteq> 4" and "store_ok st"
  shows "step_done (round_slots (key_text m) reps n) st t"
proof -
  have "step_done (\<Union>a \<in> set (map int [1..<Suc (nat reps)]). {(key_text m, n, a)}) st t"
    by (rule run_all_done [OF assms(1) [unfolded exec_round_def] assms(3)])
      (auto simp: distinct_map assms(2) intro: exec_attempt_frame exec_attempt_done)
  moreover have "(\<Union>a \<in> set (map int [1..<Suc (nat reps)]). {(key_text m, n, a)}) = round_slots (key_text m) reps n"
    by (auto simp: round_slots_def)
  ultimately show ?thesis by simp
qed

end

locale campaign_runners = round_runner +
  fixes run4 :: runner4
  assumes run4_written: "run4 m reps ts = (evs, Some d, c) \<Longrightarrow> 0 \<le> reps \<Longrightarrow> slot_ok (k, 4, 0) d"
    and run4_units: "run4 m reps ts = (evs, w, Inr 0) \<Longrightarrow> 0 \<le> reps \<Longrightarrow> \<exists>d. w = Some d \<and> slot_units (k, 4, 0) d = completions evs"
begin

lemma run_round4_frame:
  assumes "run_round4 run4 dry config reps m st = (t, e)" and "0 \<le> reps"
  shows "step_frame {(key_text m, 4, 0)} st t"
proof -
  have stored: "step_frame {(key_text m, 4, 0)} st (u\<lparr>c_runs := AList.update (key_text m) d (c_runs u)\<rparr>)"
    if "send_events k n a b evs (say w st) = (u, x)" "run4 m' reps ts = (evs', Some d, c)" for k n a b evs u x w m' ts evs' d c
    using send_events_facts [OF that(1)] look_send [OF that(1)] run4_written [OF that(2) assms(2)]
    by (auto simp: step_frame_def store_ok_def look_runs slot_ok_def split: if_splits)
  have other: "step_frame {(key_text m, 4, 0)} st u" if "send_events k n a b evs (say w st) = (u, x)" for k n a b evs u x w
    using send_events_facts [OF that] look_send [OF that] by (auto simp: step_frame_def store_ok_def)
  show ?thesis
    using assms(1) unfolding run_round4_def
    by (auto simp: Let_def intro: stored other split: if_splits prod.splits option.splits sum.splits)
      (simp add: step_frame_def store_ok_def)
qed

lemma run_round4_done:
  assumes "run_round4 run4 False config reps m st = (t, None)" and "0 \<le> reps"
  shows "step_done {(key_text m, 4, 0)} st t"
proof -
  obtain m' ts evs d u w c where r: "run4 m' reps ts = (evs, c, Inr 0)"
    and s: "send_events (key_text m) 4 1 reps evs (say w st) = (u, None)"
    and t: "t = (case c of None \<Rightarrow> u | Some d \<Rightarrow> u\<lparr>c_runs := AList.update (key_text m) d (c_runs u)\<rparr>)"
    using assms(1) unfolding run_round4_def
    by (auto simp: Let_def split: prod.splits option.splits sum.splits if_splits)
  obtain d where d: "c = Some d" "slot_units (key_text m, 4, 0) d = completions evs"
    using run4_units [OF r assms(2)] by blast
  show ?thesis
    using send_events_facts [OF s] d by (simp add: t step_done_def units_on_def look_runs)
qed

lemma exec_round4_frame:
  assumes "exec_round4 run4 dry config reps m st = (t, e)" and "0 \<le> reps"
  shows "step_frame {(key_text m, 4, 0)} st t"
proof -
  have retry: "step_frame {(key_text m, 4, 0)} st t" if "run_round4 run4 dry config reps m (say w st) = (t, e)" for w
    using run_round4_frame [OF that assms(2)] by (simp add: step_frame_def store_ok_def)
  have skip: "step_frame {(key_text m, 4, 0)} st (st\<lparr>c_dash := dash_skip k w (c_dash st)\<rparr>)" for k w
    by (simp add: step_frame_def store_ok_def)
  show ?thesis
    using assms(1) unfolding exec_round4_def
    by (auto simp: Let_def intro: run_round4_frame [OF _ assms(2)] retry skip step_frame_refl
        split: option.splits if_splits sum.splits)
qed

lemma exec_round4_done:
  assumes "exec_round4 run4 False config reps m st = (t, None)" and "0 \<le> reps" and "store_ok st"
  shows "step_done {(key_text m, 4, 0)} st t"
proof (cases "map_of (c_runs st) (key_text m)")
  case None
  then show ?thesis using assms by (auto simp: exec_round4_def Let_def intro: run_round4_done)
next
  case (Some saved)
  then have l: "look st (key_text m, 4, 0) = Some saved" by (simp add: look_def)
  then obtain a ts where p: "jget saved ''attempts'' = PInt a" "0 \<le> a" "jget saved ''tasks'' = PList ts"
    using assms(3) unfolding store_ok_def slot_ok_def by fastforce
  show ?thesis
  proof (cases "truthy (jget saved ''errors'')")
    case False
    then have t: "t = st\<lparr>c_dash := dash_skip (a * int (length ts)) (key_text m @ '' round 4'') (c_dash st)\<rparr>"
      using assms(1) Some p by (simp add: exec_round4_def Let_def skip4_def jget_jget_or py_int_def py_len_def)
    then show ?thesis using l p by (simp add: step_done_def units_on_def slot_units_def)
  next
    case True
    then obtain w where "run_round4 run4 False config reps m (say w st) = (t, None)"
      using assms(1) Some by (auto simp: exec_round4_def Let_def)
    from run_round4_done [OF this assms(2)] show ?thesis by (simp add: step_done_def)
  qed
qed

end

definition campaign_slots :: "int \<Rightarrow> int list \<Rightarrow> jobj list \<Rightarrow> slot list" where
  "campaign_slots reps rounds models = concat (map (model_slots reps rounds) models)"

lemma round_slots_disjoint: "n \<noteq> n' \<Longrightarrow> round_slots k r n \<inter> round_slots k r n' = {}"
  by (auto simp: round_slots_def)

lemma model_slots_key: "sl \<in> set (model_slots reps rounds m) \<Longrightarrow> fst sl = slug (key_text m)"
  by (auto simp: model_slots_def Let_def split: if_splits)

context campaign_runners
begin

lemma exec_model_frame:
  assumes "exec_model bank runner run4 dry config reps rounds st m = (t, e)" and "0 \<le> reps" and "set rounds \<subseteq> {1, 2, 3, 4}"
  shows "step_frame (set (model_slots reps rounds m)) st t"
proof (cases "model_rounds m rounds")
  case (Inl x)
  then obtain y where "model_rounds (slugged m) rounds = Inl y" by (cases "model_rounds (slugged m) rounds") auto
  then show ?thesis using assms(1) by (auto simp: exec_model_def Let_def step_frame_refl)
next
  case (Inr sel)
  then have sl: "model_rounds (slugged m) rounds = Inr sel" by simp
  have sub: "set sel \<subseteq> {1, 2, 3, 4}" using model_rounds_Inr [OF Inr] assms(3) by auto
  let ?k = "slug (key_text m)" and ?ns = "filter (\<lambda>n. n \<noteq> 4) sel"
  obtain u x where u: "run_all (exec_round bank runner dry reps (slugged m)) st ?ns = (u, x)"
    by (cases "run_all (exec_round bank runner dry reps (slugged m)) st ?ns")
  have fr: "step_frame (\<Union>n\<in>set ?ns. round_slots ?k reps n) st u"
    by (rule run_all_frame [OF u]) (auto dest: exec_round_frame)
  have t: "and_then (u, x) (\<lambda>st. if 4 \<in> set sel then exec_round4 run4 dry config reps (slugged m) st else (st, None)) = (t, e)"
    using assms(1) sl u by (simp add: exec_model_def Let_def filter_123 [OF sub, simplified])
  show ?thesis
  proof (cases "x = None \<and> 4 \<in> set sel")
    case True
    then have "exec_round4 run4 dry config reps (slugged m) u = (t, e)" using t by (simp add: and_then_def)
    from step_frame_trans [OF fr exec_round4_frame [OF this assms(2)]] show ?thesis
      using True by (simp add: set_model_slots [OF Inr])
  next
    case False
    then have "t = u" using t by (auto simp: and_then_def split: option.splits if_splits)
    with fr show ?thesis by (auto simp: set_model_slots [OF Inr] intro: step_frame_mono)
  qed
qed

lemma exec_model_done:
  assumes "exec_model bank runner run4 False config reps rounds st m = (t, None)" and "0 \<le> reps"
    and "set rounds \<subseteq> {1, 2, 3, 4}" and "store_ok st"
  shows "step_done (set (model_slots reps rounds m)) st t"
proof -
  obtain sel where Inr: "model_rounds m rounds = Inr sel"
    using assms(1) by (auto simp: exec_model_def Let_def split: sum.splits)
  then have sl: "model_rounds (slugged m) rounds = Inr sel" by simp
  have sub: "set sel \<subseteq> {1, 2, 3, 4}" "distinct sel" using model_rounds_Inr [OF Inr] assms(3) by auto
  let ?k = "slug (key_text m)" and ?ns = "filter (\<lambda>n. n \<noteq> 4) sel"
  let ?A = "\<Union>n\<in>set ?ns. round_slots ?k reps n"
  obtain u where u: "run_all (exec_round bank runner False reps (slugged m)) st ?ns = (u, None)"
    and t: "(if 4 \<in> set sel then exec_round4 run4 False config reps (slugged m) u else (u, None)) = (t, None)"
    using assms(1) sl by (auto simp: exec_model_def Let_def filter_123 [OF sub(1), simplified] and_then_def split: prod.splits option.splits)
  have fr: "step_frame ?A st u"
    by (rule run_all_frame [OF u]) (auto dest: exec_round_frame)
  have dn: "step_done ?A st u"
    by (rule run_all_done [OF u assms(4)]) (use sub in \<open>auto dest: exec_round_frame exec_round_done round_slots_disjoint\<close>)
  have ok: "store_ok u" using fr assms(4) by (simp add: step_frame_def)
  show ?thesis
  proof (cases "4 \<in> set sel")
    case True
    then have x: "exec_round4 run4 False config reps (slugged m) u = (t, None)" using t by simp
    have "step_done (?A \<union> {(?k, 4, 0)}) st t"
      using step_done_trans [OF dn exec_round4_done [OF x assms(2) ok] exec_round4_frame [OF x assms(2)]]
      by (auto simp: round_slots_def)
    then show ?thesis using True by (simp add: set_model_slots [OF Inr])
  next
    case False
    then show ?thesis using t dn by (simp add: set_model_slots [OF Inr])
  qed
qed

lemma exec_models_frame:
  assumes "run_all (exec_model bank runner run4 dry config reps rounds) st models = (t, e)" and "0 \<le> reps"
    and "set rounds \<subseteq> {1, 2, 3, 4}"
  shows "step_frame (set (campaign_slots reps rounds models)) st t"
proof -
  have "step_frame (\<Union>m \<in> set models. set (model_slots reps rounds m)) st t"
    by (rule run_all_frame [OF assms(1)]) (rule exec_model_frame [OF _ assms(2,3)])
  then show ?thesis by (simp add: campaign_slots_def)
qed

lemma exec_models_done:
  assumes "run_all (exec_model bank runner run4 False config reps rounds) st models = (t, None)" and "0 \<le> reps"
    and "set rounds \<subseteq> {1, 2, 3, 4}" and "store_ok st" and "distinct (map (\<lambda>m. slug (key_text m)) models)"
  shows "step_done (set (campaign_slots reps rounds models)) st t"
proof -
  have dj: "set (model_slots reps rounds m) \<inter> set (model_slots reps rounds m') = {}"
    if "m \<in> set models" "m' \<in> set models" "m \<noteq> m'" for m m'
    using assms(5) that model_slots_key by (fastforce simp: distinct_map inj_on_def)
  have "step_done (\<Union>m \<in> set models. set (model_slots reps rounds m)) st t"
    by (rule run_all_done [OF assms(1,4)])
      (use assms(5) dj in \<open>auto simp: distinct_map intro: exec_model_frame [OF _ assms(2,3)] exec_model_done [OF _ assms(2,3)]\<close>)
  then show ?thesis by (simp add: campaign_slots_def)
qed

end

section \<open>Resuming\<close>

text \<open>On a store whose slots are all present, well formed and clean, a step only moves the
  dashboard, whatever the runners do.\<close>

definition resumes :: "slot list \<Rightarrow> campaign \<Rightarrow> campaign \<times> exn option \<Rightarrow> bool" where
  "resumes A s r \<longleftrightarrow>
     (\<exists>d. r = (s\<lparr>c_dash := d\<rparr>, None)
        \<and> d_completed d = d_completed (c_dash s) + (\<Sum>sl\<leftarrow>A. slot_units sl (the (look s sl))))"

definition saved_clean :: "campaign \<Rightarrow> slot \<Rightarrow> bool" where
  "saved_clean s sl \<longleftrightarrow> (\<exists>d. look s sl = Some d \<and> slot_ok sl d \<and> slot_clean sl d)"

lemma saved_clean_dash [simp]: "saved_clean (s\<lparr>c_dash := d\<rparr>) = saved_clean s"
  by (simp add: saved_clean_def fun_eq_iff)

lemma run_all_resumes:
  assumes "\<And>x s. x \<in> set xs \<Longrightarrow> (\<forall>sl \<in> set (A x). saved_clean s sl) \<Longrightarrow> resumes (A x) s (f s x)"
    and "\<forall>sl \<in> set (concat (map A xs)). saved_clean s sl"
  shows "resumes (concat (map A xs)) s (run_all f s xs)"
  using assms
proof (induction xs arbitrary: s)
  case Nil
  then show ?case by (auto simp: resumes_def intro: exI [of _ "c_dash s"])
next
  case (Cons y ys)
  have "resumes (A y) s (f s y)" by (rule Cons.prems(1)) (use Cons.prems(2) in auto)
  then obtain d where d: "f s y = (s\<lparr>c_dash := d\<rparr>, None)"
    and c: "d_completed d = d_completed (c_dash s) + (\<Sum>sl\<leftarrow>A y. slot_units sl (the (look s sl)))"
    unfolding resumes_def by blast
  have "resumes (concat (map A ys)) (s\<lparr>c_dash := d\<rparr>) (run_all f (s\<lparr>c_dash := d\<rparr>) ys)"
    by (rule Cons.IH) (use Cons.prems in auto)
  then show ?case using d c by (auto simp: resumes_def)
qed

lemma exec_attempt_resumes:
  assumes "saved_clean st (key_text m, n, a)" and "n \<noteq> 4" and "round_units bank n = Inr u"
  shows "resumes [(key_text m, n, a)] st (exec_attempt bank runner dry reps m n st a)"
proof -
  obtain d p where d: "map_of (c_results st) (key_text m, n, a) = Some d" "clean_result d"
    "jget d ''planned'' = PInt p" "0 \<le> p"
    using assms(1,2) by (auto simp: saved_clean_def look_def slot_ok_def slot_clean_def)
  then have "planned_of bank n d = Inr p" using assms(3) by (simp add: planned_of_def jget_jget_or py_int_def)
  then show ?thesis
    using d assms(2) by (auto simp: resumes_def exec_attempt_def Let_def look_def slot_units_def)
qed

lemma exec_round4_resumes:
  assumes "saved_clean st (key_text m, 4, 0)"
  shows "resumes [(key_text m, 4, 0)] st (exec_round4 run4 dry config reps m st)"
proof -
  obtain d a ts where d: "map_of (c_runs st) (key_text m) = Some d" "\<not> truthy (jget d ''errors'')"
    "jget d ''attempts'' = PInt a" "0 \<le> a" "jget d ''tasks'' = PList ts"
    using assms by (auto simp: saved_clean_def look_def slot_ok_def slot_clean_def)
  then show ?thesis
    by (auto simp: resumes_def exec_round4_def Let_def look_def slot_units_def skip4_def jget_jget_or py_int_def py_len_def)
qed

lemma exec_round_resumes:
  assumes "\<forall>sl \<in> set (map (\<lambda>a. (key_text m, n, int a)) [1..<Suc (nat reps)]). saved_clean st sl"
    and "n \<noteq> 4" and "round_units bank n = Inr u"
  shows "resumes (map (\<lambda>a. (key_text m, n, int a)) [1..<Suc (nat reps)]) st (exec_round bank runner dry reps m st n)"
proof -
  have eq: "concat (map (\<lambda>a. [(key_text m, n, a)]) (map int [1..<Suc (nat reps)]))
      = map (\<lambda>a. (key_text m, n, int a)) [1..<Suc (nat reps)]"
    by (simp add: concat_map_singleton comp_def)
  have "resumes (concat (map (\<lambda>a. [(key_text m, n, a)]) (map int [1..<Suc (nat reps)]))) st
      (run_all (exec_attempt bank runner dry reps m n) st (map int [1..<Suc (nat reps)]))"
    by (rule run_all_resumes) (use assms in \<open>auto intro: exec_attempt_resumes\<close>)
  then show ?thesis unfolding eq exec_round_def .
qed

lemma resumes_and_then:
  assumes "resumes A s r" and "\<And>d. resumes B (s\<lparr>c_dash := d\<rparr>) (f (s\<lparr>c_dash := d\<rparr>))"
  shows "resumes (A @ B) s (and_then r f)"
proof -
  obtain d where d: "r = (s\<lparr>c_dash := d\<rparr>, None)"
    "d_completed d = d_completed (c_dash s) + (\<Sum>sl\<leftarrow>A. slot_units sl (the (look s sl)))"
    using assms(1) by (auto simp: resumes_def)
  with assms(2) [of d] show ?thesis by (auto simp: resumes_def and_then_def)
qed

lemma resumes_mset:
  assumes "resumes A s r" and "mset A = mset B"
  shows "resumes B s r"
proof -
  have "(\<Sum>sl\<leftarrow>A. f sl) = (\<Sum>sl\<leftarrow>B. f sl)" for f :: "slot \<Rightarrow> int"
    using assms(2) by (metis mset_map sum_mset_sum_list)
  then show ?thesis using assms(1) by (simp add: resumes_def)
qed

definition key_round_slots :: "string \<Rightarrow> int \<Rightarrow> int \<Rightarrow> slot list" where
  "key_round_slots key reps n = (if n = 4 then [(key, 4, 0)] else map (\<lambda>a. (key, n, int a)) [1..<Suc (nat reps)])"

lemma model_slots_eq:
  "model_rounds m rounds = Inr sel \<Longrightarrow> model_slots reps rounds m = concat (map (key_round_slots (slug (key_text m)) reps) sel)"
  by (simp add: model_slots_def Let_def key_round_slots_def [abs_def])

lemma mset_concat_split:
  "distinct sel \<Longrightarrow> mset (concat (map g (filter (\<lambda>n. n \<noteq> x) sel)) @ (if x \<in> set sel then g x else [])) = mset (concat (map g sel))"
  by (induction sel) auto

lemma exec_model_resumes:
  assumes "\<forall>sl \<in> set (model_slots reps rounds m). saved_clean st sl" and "model_rounds m rounds = Inr sel"
    and "set rounds \<subseteq> {1, 2, 3, 4}" and "\<And>n. n \<in> {1, 2, 3} \<Longrightarrow> \<exists>u. round_units bank n = Inr u"
  shows "resumes (model_slots reps rounds m) st (exec_model bank runner run4 dry config reps rounds st m)"
proof -
  have sub: "set sel \<subseteq> {1, 2, 3, 4}" "distinct sel" using model_rounds_Inr [OF assms(2)] assms(3) by auto
  let ?g = "key_round_slots (slug (key_text m)) reps" and ?ns = "filter (\<lambda>n. n \<noteq> 4) sel"
  have cl: "saved_clean st sl" if "n \<in> set sel" "sl \<in> set (?g n)" for n sl
    using assms(1) that by (auto simp: model_slots_eq [OF assms(2)])
  have rounds: "resumes (concat (map ?g ?ns)) st (run_all (exec_round bank runner dry reps (slugged m)) st ?ns)"
  proof (rule run_all_resumes)
    fix n s assume n: "n \<in> set ?ns" and c: "\<forall>sl \<in> set (?g n). saved_clean s sl"
    obtain u where "round_units bank n = Inr u" using assms(4) [of n] n sub(1) by auto
    then show "resumes (?g n) s (exec_round bank runner dry reps (slugged m) s n)"
      using exec_round_resumes [of "slugged m" n reps s bank u] n c by (simp add: key_round_slots_def)
  next
    show "\<forall>sl \<in> set (concat (map ?g ?ns)). saved_clean st sl" using cl by auto
  qed
  have four: "resumes (if 4 \<in> set sel then ?g 4 else []) (st\<lparr>c_dash := d\<rparr>)
      (if 4 \<in> set sel then exec_round4 run4 dry config reps (slugged m) (st\<lparr>c_dash := d\<rparr>) else (st\<lparr>c_dash := d\<rparr>, None))" for d
  proof (cases "4 \<in> set sel")
    case True
    then have "saved_clean (st\<lparr>c_dash := d\<rparr>) (key_text (slugged m), 4, 0)" using cl [of 4] by (simp add: key_round_slots_def)
    from exec_round4_resumes [OF this] show ?thesis using True by (simp add: key_round_slots_def)
  qed (auto simp: resumes_def intro: exI [of _ d])
  have "exec_model bank runner run4 dry config reps rounds st m =
      and_then (run_all (exec_round bank runner dry reps (slugged m)) st ?ns)
        (\<lambda>st. if 4 \<in> set sel then exec_round4 run4 dry config reps (slugged m) st else (st, None))"
    by (simp add: exec_model_def Let_def model_rounds_slugged [THEN iffD2, OF assms(2)] filter_123 [OF sub(1), simplified])
  then show ?thesis
    using resumes_mset [OF resumes_and_then [OF rounds four] mset_concat_split [OF sub(2)]]
    by (simp add: model_slots_eq [OF assms(2)])
qed

lemma exec_models_resumes:
  assumes "\<forall>sl \<in> set (campaign_slots reps rounds models). saved_clean st sl"
    and "\<forall>m \<in> set models. \<exists>sel. model_rounds m rounds = Inr sel"
    and "set rounds \<subseteq> {1, 2, 3, 4}" and "\<And>n. n \<in> {1, 2, 3} \<Longrightarrow> \<exists>u. round_units bank n = Inr u"
  shows "resumes (campaign_slots reps rounds models) st (run_all (exec_model bank runner run4 dry config reps rounds) st models)"
  unfolding campaign_slots_def
proof (rule run_all_resumes)
  fix m s assume "m \<in> set models" and "\<forall>sl \<in> set (model_slots reps rounds m). saved_clean s sl"
  then show "resumes (model_slots reps rounds m) s (exec_model bank runner run4 dry config reps rounds s m)"
    using assms(2) exec_model_resumes [OF _ _ assms(3,4)] by blast
qed (use assms(1) in \<open>simp add: campaign_slots_def\<close>)

section \<open>The standard runners meet the contract\<close>

lemma r12_run_planned:
  "r12_run n k mid a qs flt ask el = Inr (p, evs) \<Longrightarrow> jget p ''planned'' = PInt (int (length (r12_questions qs flt)))"
  by (auto simp: r12_run_def r12_payload_def Let_def res_bind_Inr_iff jget_def dict_get_def)

lemma r12_trace_completions:
  "completions (map (Pair None) (r12_trace qs flt ask el)) = int (length (r12_questions qs flt))"
proof -
  have *: "length (filter is_completed (concat (map (\<lambda>(i, q). r12_events q (g i q)) xs))) = length xs"
    for g :: "nat \<Rightarrow> question \<Rightarrow> jobj" and xs
    by (induction xs) (auto simp: r12_events_def)
  show ?thesis
    using * [of "r12_answer ask el" "enumerate 0 (r12_questions qs flt)"]
    by (simp add: completions_def r12_trace_def comp_def filter_map Let_def)
qed

lemma r3_run_planned:
  "r3_run k mid a qs ins flt ask el files = Inr (p, evs) \<Longrightarrow> jget p ''planned'' = PInt (int (length (r3_questions qs flt)))"
  unfolding r3_run_def r3_payload_def Let_def r3_questions_def [symmetric]
  by (auto simp: res_bind_Inr_iff jget_def dict_get_def)

lemma r3_trace_completions:
  "completions (map (Pair None) (r3_trace qs ins flt ask el files)) = int (length (r3_questions qs flt))"
proof -
  have *: "length (filter is_completed (concat (map (\<lambda>(i, q). let row = g i q in [Started (h q), Completed (h q) (s row) (w row)]) xs)))
      = length xs" for g :: "nat \<Rightarrow> question3 \<Rightarrow> jobj" and h :: "question3 \<Rightarrow> string" and s :: "jobj \<Rightarrow> string" and w xs
    by (induction xs) (auto simp: Let_def)
  show ?thesis
    using * [of "r3_answer ask el files ins" "\<lambda>q. item_name (q3_id q)" "\<lambda>row. status_name (r3_mark row)"
        "\<lambda>row. jget row ''wall''" "enumerate 0 (r3_questions qs flt)"]
    by (simp add: completions_def r3_trace_def comp_def filter_map)
qed

interpretation std: round_runner "std_runner b backend" for b backend
proof
  fix m n a f evs p
  assume *: "std_runner b backend m n a f = (evs, Inr p)"
  obtain ask el where "backend m n a = (ask, el)" by (cases "backend m n a")
  with * show "jget p ''planned'' = PInt (completions (map (Pair None) evs))"
    by (auto simp: std_runner_def Let_def r12_trace_completions r3_trace_completions r12_run_planned r3_run_planned
        map_sum_def split: if_splits sum.splits)
qed

section \<open>Validated campaigns\<close>

definition slots_of :: "jobj \<Rightarrow> slot list" where
  "slots_of config =
     (case plan_of config of Inr (reps, rounds, models) \<Rightarrow> campaign_slots reps rounds models | Inl _ \<Rightarrow> [])"

lemma plan_valid:
  assumes "validate_config strf ip_ok bank runtime (PDict config) = Inr ()"
  obtains reps rounds models where "plan_of config = Inr (reps, rounds, models)" and "1 \<le> reps"
    and "set rounds \<subseteq> {1, 2, 3, 4}" and "distinct (map (\<lambda>m. slug (key_text m)) models)"
    and "\<forall>m \<in> set models. \<exists>sel. model_rounds m rounds = Inr sel"
proof -
  from assms obtain models rounds where v: "models_of config = Inr models" "check_keys models = Inr ()"
    "check_numbers config = Inr ()" "rounds_of config = Inr rounds"
    "\<forall>m \<in> set models. check_model strf ip_ok bank rounds m = Inr ()"
    by (rule validate_config_Inr) simp
  obtain rv reps where reps: "jitem config ''repetitions'' = Inr rv" "py_int rv = Inr reps" "1 \<le> reps"
    using check_numbers_Inr [OF v(3)] by blast
  obtain raw where raw: "jitem config ''rounds'' = Inr (PList raw)" "res_map py_int raw = Inr rounds"
    and sub: "set rounds \<subseteq> {1, 2, 3, 4}"
    using rounds_of_Inr [OF v(4)] by blast
  have "plan_of config = Inr (reps, rounds, models)"
    using reps raw v(1) by (simp add: plan_of_def need_def py_iter_def)
  moreover have "\<forall>m \<in> set models. \<exists>sel. model_rounds m rounds = Inr sel"
    using v(5) check_model_Inr by blast
  ultimately show thesis using that reps(3) sub check_keys_Inr [OF v(2)] by blast
qed

lemma distinct_key_round_slots: "distinct (key_round_slots k reps n)"
  by (simp add: key_round_slots_def distinct_map inj_on_def)

lemma distinct_model_slots:
  assumes "model_rounds m rounds = Inr sel"
  shows "distinct (model_slots reps rounds m)"
proof -
  have "distinct (concat (map (key_round_slots k reps) sel))" if "distinct sel" for sel k
    using that
  proof (induction sel)
    case (Cons n sel)
    have "set (key_round_slots k reps n) \<inter> set (key_round_slots k reps n') = {}" if "n' \<in> set sel" for n'
      using Cons.prems that by (auto simp: key_round_slots_def split: if_splits)
    then show ?case using Cons distinct_key_round_slots by auto
  qed simp
  then show ?thesis using model_rounds_Inr [OF assms] by (simp add: model_slots_eq [OF assms])
qed

lemma distinct_campaign_slots:
  assumes "distinct (map (\<lambda>m. slug (key_text m)) models)" and "\<forall>m \<in> set models. \<exists>sel. model_rounds m rounds = Inr sel"
  shows "distinct (campaign_slots reps rounds models)"
  using assms unfolding campaign_slots_def
proof (induction models)
  case (Cons m ms)
  have "set (model_slots reps rounds m) \<inter> set (model_slots reps rounds m') = {}" if "m' \<in> set ms" for m'
    using Cons.prems(1) that model_slots_key by fastforce
  then show ?case using Cons distinct_model_slots by auto
qed simp

context campaign_runners
begin

lemma execute_accounts:
  assumes v: "validate_config strf ip_ok bank runtime (PDict config) = Inr ()"
    and e: "execute bank runner run4 False config st = (st', None)" and ok: "store_ok st"
  shows "step_done (set (slots_of config)) st st'" and "step_frame (set (slots_of config)) st st'"
proof -
  from v obtain reps rounds models where p: "plan_of config = Inr (reps, rounds, models)" "1 \<le> reps"
    "set rounds \<subseteq> {1, 2, 3, 4}" "distinct (map (\<lambda>m. slug (key_text m)) models)"
    by (rule plan_valid)
  have r: "run_all (exec_model bank runner run4 False config reps rounds) st models = (st', None)"
    using e p(1) by (simp add: execute_def)
  show "step_done (set (slots_of config)) st st'"
    using exec_models_done [OF r _ p(3) ok p(4)] p(1,2) by (simp add: slots_of_def)
  show "step_frame (set (slots_of config)) st st'"
    using exec_models_frame [OF r _ p(3)] p(1,2) by (simp add: slots_of_def)
qed

lemma execute_keeps:
  assumes "validate_config strf ip_ok bank runtime (PDict config) = Inr ()"
    and "execute bank runner run4 dry config st = (st', x)"
  shows "step_frame (set (slots_of config)) st st'"
proof -
  from assms(1) obtain reps rounds models where p: "plan_of config = Inr (reps, rounds, models)" "1 \<le> reps"
    "set rounds \<subseteq> {1, 2, 3, 4}"
    by (rule plan_valid)
  have r: "run_all (exec_model bank runner run4 dry config reps rounds) st models = (st', x)"
    using assms(2) p(1) by (simp add: execute_def)
  show ?thesis using exec_models_frame [OF r _ p(3)] p(1,2) by (simp add: slots_of_def)
qed

end

lemma execute_resumes:
  assumes v: "validate_config strf ip_ok bank runtime (PDict config) = Inr ()"
    and c: "\<forall>sl \<in> set (slots_of config). saved_clean st sl"
    and b: "\<forall>n \<in> {1, 2, 3}. \<exists>u. round_units bank n = Inr u"
  shows "\<exists>d. execute bank runner run4 dry config st = (st\<lparr>c_dash := d\<rparr>, None)
    \<and> d_completed d = d_completed (c_dash st) + units_on (set (slots_of config)) st"
proof -
  from v obtain reps rounds models where p: "plan_of config = Inr (reps, rounds, models)"
    "set rounds \<subseteq> {1, 2, 3, 4}" "distinct (map (\<lambda>m. slug (key_text m)) models)"
    "\<forall>m \<in> set models. \<exists>sel. model_rounds m rounds = Inr sel"
    by (rule plan_valid)
  have s: "slots_of config = campaign_slots reps rounds models" using p(1) by (simp add: slots_of_def)
  have "resumes (campaign_slots reps rounds models) st (run_all (exec_model bank runner run4 dry config reps rounds) st models)"
    by (rule exec_models_resumes) (use c s p b in auto)
  then obtain d where d: "run_all (exec_model bank runner run4 dry config reps rounds) st models = (st\<lparr>c_dash := d\<rparr>, None)"
    "d_completed d = d_completed (c_dash st) + (\<Sum>sl\<leftarrow>campaign_slots reps rounds models. slot_units sl (the (look st sl)))"
    by (auto simp: resumes_def)
  have "(\<Sum>sl\<leftarrow>campaign_slots reps rounds models. slot_units sl (the (look st sl))) = units_on (set (slots_of config)) st"
    using distinct_campaign_slots [OF p(3,4), of reps] by (simp add: units_on_def s sum_list_distinct_conv_sum_set)
  then show ?thesis using d p(1) by (auto simp: execute_def)
qed

end
