(* ===== verification/Inspect.thy ===== *)
theory Inspect
  imports Runner
begin

text \<open>
  Reading a run directory back: \<open>src/llm_hardtest/inspection.py\<close> lists the unresolved items of a
  campaign.

  The run directory is the saved configuration with the store of \<open>Campaign\<close>; it holds no symbolic
  links, so a key that is its own slug names a directory inside it. \<open>strf\<close> is \<open>str()\<close> of floats and
  containers. The second section ties the list to the counts of the saved results: \<open>inspect_tally\<close>.
\<close>

section \<open>Unresolved items\<close>

record item =
  it_model :: string
  it_round :: int
  it_attempt :: pyval
  it_item :: string
  it_id :: pyval
  it_status :: status
  it_expected :: pyval
  it_extracted :: pyval
  it_finish :: pyval
  it_error :: pyval
  it_wall :: pyval

definition UNRESOLVED :: "status list" where
  "UNRESOLVED = [FAIL, INCOMPLETE, REVIEW, INVALID]"

text \<open>\<open>sorted(glob("attempt-*/result.json"))\<close>: by the text of the path.\<close>

definition attempt_dir :: "int \<Rightarrow> string" where
  "attempt_dir a = ''attempt-'' @ show_int a"

definition saved_results :: "campaign \<Rightarrow> string \<Rightarrow> int \<Rightarrow> (int \<times> jobj) list" where
  "saved_results st key n =
     sort_key (\<lambda>(a, _). attempt_dir a)
       (List.map_filter (\<lambda>((k, m, a), p). if k = key \<and> m = n then Some (a, p) else None) (c_results st))"

definition row_item :: "(pyval \<Rightarrow> string) \<Rightarrow> string \<Rightarrow> int \<Rightarrow> int \<Rightarrow> jobj \<Rightarrow> item" where
  "row_item strf key n attempt row =
     \<lparr>it_model = key, it_round = n, it_attempt = PInt attempt,
      it_item = CHR ''q'' # jstr strf (jget_or row ''id'' (PStr ''?'')), it_id = jget row ''id'',
      it_status = item_status row, it_expected = jget row ''expected'', it_extracted = jget row ''extracted'',
      it_finish = jget row ''finish_reason'', it_error = jget row ''error'', it_wall = jget row ''wall''\<rparr>"

definition payload_items :: "(pyval \<Rightarrow> string) \<Rightarrow> string \<Rightarrow> int \<Rightarrow> int \<times> jobj \<Rightarrow> item list res" where
  "payload_items strf key n ap =
     (case ap of (a, payload) \<Rightarrow>
        res_bind (py_int (py_or (jget payload ''attempt'') (PStr (last (split_on (CHR ''-'') (attempt_dir a)))))) (\<lambda>attempt.
        res_bind (py_iter (jget_or payload ''results'' (PList []))) (\<lambda>rows.
        res_bind (res_map item_row rows) (\<lambda>ds.
          Inr (map (row_item strf key n attempt) (filter (\<lambda>d. item_status d \<in> set UNRESOLVED) ds))))))"

definition as_obj :: "pyval \<Rightarrow> jobj res" where
  "as_obj v = (case v of PDict d \<Rightarrow> Inr d | _ \<Rightarrow> Inl (AttributeError ''get''))"

text \<open>One grade of a \<open>run.json\<close>: nothing for a pass, otherwise the item and the pair that marks it
  as graded.\<close>

definition grade_item :: "(pyval \<Rightarrow> string) \<Rightarrow> string \<Rightarrow> pyval \<Rightarrow> (item \<times> pyval \<times> pyval) option res" where
  "grade_item strf key v =
     res_bind (as_obj v) (\<lambda>g.
     res_bind (as_obj (jget_or g ''flags'' (PDict []))) (\<lambda>flags.
       if truthy (jget flags ''attempt_pass'') then Inr None
       else res_bind (as_obj (jget_or g ''run_meta'' (PDict []))) (\<lambda>meta.
         let task = jget_or g ''task'' (jget g ''qid''); timed = truthy (jget flags ''model_timed_out'') in
         if \<not> hashable task \<or> \<not> hashable (jget meta ''attempt'') then Inl (TypeError ''unhashable type'')
         else Inr (Some
          (\<lparr>it_model = key, it_round = 4, it_attempt = jget meta ''attempt'',
            it_item = jstr strf (jget_or g ''task'' (jget_or g ''qid'' (PStr ''unknown''))), it_id = task,
            it_status = (if timed then INVALID else FAIL), it_expected = PNone, it_extracted = PNone,
            it_finish = (if timed then PStr ''timeout'' else PNone), it_error = PNone, it_wall = jget meta ''wall''\<rparr>,
           task, jget meta ''attempt'')))))"

definition error_item :: "(pyval \<Rightarrow> string) \<Rightarrow> string \<Rightarrow> (pyval \<times> pyval) list \<Rightarrow> pyval \<Rightarrow> item option res" where
  "error_item strf key graded v =
     res_bind (as_obj v) (\<lambda>e.
       let task = jget e ''task''; attempt = jget e ''attempt'' in
       if \<not> hashable task \<or> \<not> hashable attempt then Inl (TypeError ''unhashable type'')
       else if list_ex (\<lambda>(t, a). py_eq task t \<and> py_eq attempt a) graded then Inr None
       else Inr (Some
         \<lparr>it_model = key, it_round = 4, it_attempt = attempt, it_item = jstr strf (jget_or e ''task'' (PStr ''unknown'')),
          it_id = task, it_status = INVALID, it_expected = PNone, it_extracted = PNone, it_finish = PNone,
          it_error = jget e ''error'', it_wall = PNone\<rparr>))"

definition somes :: "'a option list \<Rightarrow> 'a list" where
  "somes xs = List.map_filter id xs"

definition run4_items :: "(pyval \<Rightarrow> string) \<Rightarrow> string \<Rightarrow> jobj \<Rightarrow> item list res" where
  "run4_items strf key payload =
     res_bind (py_iter (jget_or payload ''grades'' (PList []))) (\<lambda>gs.
     res_bind (res_map (grade_item strf key) gs) (\<lambda>gis.
     res_bind (py_iter (jget_or payload ''errors'' (PList []))) (\<lambda>es.
     res_bind (res_map (error_item strf key (map snd (somes gis))) es) (\<lambda>eis.
       Inr (map fst (somes gis) @ somes eis)))))"

definition model_items :: "(pyval \<Rightarrow> string) \<Rightarrow> campaign \<Rightarrow> pyval \<Rightarrow> item list res" where
  "model_items strf st v =
     res_bind (as_obj v) (\<lambda>model.
       case jget_or model ''key'' (PStr ''model'') of
         PStr key \<Rightarrow>
           if key \<in> {'''', ''.'', ''..''} \<or> slug key \<noteq> key then Inl (ValueError ''unsafe model key in saved config'')
           else res_bind (res_map (\<lambda>n. res_map (payload_items strf key n) (saved_results st key n)) [1, 2, 3]) (\<lambda>is.
                res_bind (case map_of (c_runs st) key of None \<Rightarrow> Inr [] | Some p \<Rightarrow> run4_items strf key p) (\<lambda>four.
                  Inr (concat (concat is) @ four)))
       | _ \<Rightarrow> Inl (ValueError ''unsafe model key in saved config''))"

record inspection =
  in_run_id :: string
  in_items :: "item list"

definition in_counts :: "inspection \<Rightarrow> (status \<times> nat) list" where
  "in_counts ins = map (\<lambda>st. (st, length (filter (\<lambda>i. it_status i = st) (in_items ins)))) [FAIL, INCOMPLETE, INVALID, REVIEW]"

definition inspect_run :: "(pyval \<Rightarrow> string) \<Rightarrow> string \<Rightarrow> pyval option \<Rightarrow> campaign \<Rightarrow> inspection res" where
  "inspect_run strf run_id saved st =
     (case saved of
        None \<Rightarrow> Inl (ValueError ''run directory has no config.json'')
      | Some v \<Rightarrow>
          res_bind (as_obj v) (\<lambda>config.
          res_bind (py_iter (jget_or config ''models'' (PList []))) (\<lambda>ms.
          res_bind (res_map (model_items strf st) ms) (\<lambda>is.
            Inr \<lparr>in_run_id = run_id, in_items = concat is\<rparr>))))"

definition tab :: char where "tab = CHR 0x09"

definition or_empty :: "pyval \<Rightarrow> pyval" where
  "or_empty v = py_or v (PStr [])"

definition item_detail :: "(pyval \<Rightarrow> string) \<Rightarrow> item \<Rightarrow> string" where
  "item_detail strf i =
     (let d = (if it_extracted i \<noteq> PNone \<and> it_extracted i \<noteq> PStr []
               then ''extracted='' @ jstr strf (it_extracted i)
               else jstr strf (py_or (it_error i) (or_empty (it_finish i)))) in
      str_replace_ch newline '' '' (str_replace_ch tab '' '' d))"

definition item_line :: "(pyval \<Rightarrow> string) \<Rightarrow> item \<Rightarrow> string" where
  "item_line strf i =
     str_join [tab] [it_model i, show_int (it_round i), jstr strf (py_or (it_attempt i) (PStr ''-'')), it_item i,
       status_name (it_status i), item_detail strf i]"

definition render_inspection :: "(pyval \<Rightarrow> string) \<Rightarrow> inspection \<Rightarrow> string" where
  "render_inspection strf ins =
     (if in_items ins = [] then in_run_id ins @ '': no unresolved items''
      else str_join [newline]
        ([in_run_id ins @ '': '' @ show_nat (length (in_items ins)) @ '' unresolved item(s)'',
          str_join [tab] [''MODEL'', ''ROUND'', ''ATTEMPT'', ''ITEM'', ''STATUS'', ''DETAIL'']]
         @ map (item_line strf) (in_items ins)))"

section \<open>What is found\<close>

text \<open>\<open>tally\<close> counts the items of a model, round and verdict; \<open>saved_count\<close> is what
  \<open>result_counts\<close> says about the saved results of that model and round.\<close>

definition tally :: "item list \<Rightarrow> string \<Rightarrow> int \<Rightarrow> status \<Rightarrow> int" where
  "tally is key n s = int (length (filter (\<lambda>i. it_model i = key \<and> it_round i = n \<and> it_status i = s) is))"

definition counted :: "jobj \<Rightarrow> status \<Rightarrow> int" where
  "counted p s = (case result_counts p of Inr c \<Rightarrow> c s | Inl _ \<Rightarrow> 0)"

definition saved_count :: "campaign \<Rightarrow> string \<Rightarrow> int \<Rightarrow> status \<Rightarrow> int" where
  "saved_count st key n s = (\<Sum>(a, p)\<leftarrow>saved_results st key n. counted p s)"

definition has_rows :: "jobj \<Rightarrow> bool" where
  "has_rows p = (case jget p ''results'' of PList vs \<Rightarrow> vs \<noteq> [] \<and> list_all is_dict vs | _ \<Rightarrow> False)"

lemma tally_append [simp]: "tally (xs @ ys) key n s = tally xs key n s + tally ys key n s"
  by (simp add: tally_def)

lemma tally_Nil [simp]: "tally [] key n s = 0"
  by (simp add: tally_def)

lemma tally_concat: "tally (concat xss) key n s = (\<Sum>xs\<leftarrow>xss. tally xs key n s)"
  by (induction xss) simp_all

lemma tally_none: "(\<And>i. i \<in> set is \<Longrightarrow> it_model i \<noteq> key \<or> it_round i \<noteq> n) \<Longrightarrow> tally is key n s = 0"
  by (auto simp: tally_def filter_empty_conv)

lemma tally_other:
  assumes "\<forall>i \<in> set is. it_model i = key \<and> it_round i = k" and "k \<noteq> n"
  shows "tally is key n s = 0"
proof (rule tally_none)
  fix i assume "i \<in> set is"
  then have "it_round i = k" using assms(1) by blast
  then show "it_model i \<noteq> key \<or> it_round i \<noteq> n" using assms(2) by simp
qed

lemma dict_list: "list_all is_dict vs \<Longrightarrow> \<exists>ds. vs = map PDict ds"
proof (induction vs)
  case (Cons v vs)
  then obtain ds where "vs = map PDict ds" by auto
  moreover obtain d where "v = PDict d" using Cons.prems by (cases v) simp_all
  ultimately have "v # vs = map PDict (d # ds)" by simp
  then show ?case by (rule exI)
qed simp

lemma has_rows_E:
  assumes "has_rows p"
  obtains ds where "jget p ''results'' = PList (map PDict ds)" "ds \<noteq> []" "jget_or p ''results'' (PList []) = PList (map PDict ds)"
proof -
  obtain vs where v: "jget p ''results'' = PList vs" "vs \<noteq> []" "list_all is_dict vs"
    using assms by (auto simp: has_rows_def split: pyval.splits)
  then obtain ds where ds: "vs = map PDict ds" using dict_list by blast
  have "jget_or p ''results'' (PList []) = PList vs"
    using v(1) by (auto simp: jget_def jget_or_def dict_get_def split: option.splits)
  then show thesis using that [of ds] v ds by simp
qed

lemma payload_items_tally:
  assumes "has_rows p" and "payload_items strf key n (a, p) = Inr is"
  shows "\<forall>i \<in> set is. it_model i = key \<and> it_round i = n"
    and "s \<in> set UNRESOLVED \<Longrightarrow> tally is key n s = counted p s"
proof -
  obtain ds where ds: "jget p ''results'' = PList (map PDict ds)" "ds \<noteq> []" "jget_or p ''results'' (PList []) = PList (map PDict ds)"
    using assms(1) by (rule has_rows_E)
  have rows: "res_map item_row (map PDict ds) = Inr ds"
    by (induction ds) (simp_all add: item_row_def)
  obtain k where items: "is = map (row_item strf key n k) (filter (\<lambda>d. item_status d \<in> set UNRESOLVED) ds)"
    using assms(2) unfolding payload_items_def by (auto simp: res_bind_Inr_iff ds(3) py_iter_def rows)
  show "\<forall>i \<in> set is. it_model i = key \<and> it_round i = n"
    by (auto simp: items row_item_def)
  assume s: "s \<in> set UNRESOLVED"
  have "filter (\<lambda>d. item_status d \<in> set UNRESOLVED \<and> item_status d = s) ds = filter (\<lambda>d. item_status d = s) ds"
    by (rule filter_cong) (use s in auto)
  then show "tally is key n s = counted p s"
    using result_counts_rows [OF ds(1,2)]
    by (simp add: items tally_def counted_def row_item_def filter_map o_def conj_commute)
qed

lemma run4_items_model:
  assumes "run4_items strf key p = Inr is" and "i \<in> set is"
  shows "it_model i = key \<and> it_round i = 4"
proof -
  have g: "it_model (fst t) = key \<and> it_round (fst t) = 4" if "grade_item strf key v = Inr (Some t)" for v t
    using that unfolding grade_item_def by (auto simp: res_bind_Inr_iff Let_def split: if_splits)
  have e: "it_model t = key \<and> it_round t = 4" if "error_item strf key gr v = Inr (Some t)" for gr v t
    using that unfolding error_item_def by (auto simp: res_bind_Inr_iff Let_def split: if_splits)
  obtain gs gis es eis where r: "res_map (grade_item strf key) gs = Inr gis"
      "res_map (error_item strf key (map snd (somes gis))) es = Inr eis" "is = map fst (somes gis) @ somes eis"
    using assms(1) unfolding run4_items_def by (auto simp: res_bind_Inr_iff)
  have g': "it_model (fst t) = key \<and> it_round (fst t) = 4" if "t \<in> set (somes gis)" for t
  proof -
    have "Some t \<in> set gis" using that by (force simp: somes_def map_filter_def)
    then obtain v where "grade_item strf key v = Inr (Some t)" using res_map_Inr_set [OF r(1)] by blast
    then show ?thesis by (rule g)
  qed
  have e': "it_model t = key \<and> it_round t = 4" if "t \<in> set (somes eis)" for t
  proof -
    have "Some t \<in> set eis" using that by (force simp: somes_def map_filter_def)
    then obtain v where "error_item strf key (map snd (somes gis)) v = Inr (Some t)" using res_map_Inr_set [OF r(2)] by blast
    then show ?thesis by (rule e)
  qed
  show ?thesis using assms(2) unfolding r(3) set_append set_map using g' e' by blast
qed

definition results_ok :: "campaign \<Rightarrow> bool" where
  "results_ok st = list_all (\<lambda>(_, p). has_rows p) (c_results st)"

lemma saved_results_in:
  "(a, p) \<in> set (saved_results st key n) \<Longrightarrow> ((key, n, a), p) \<in> set (c_results st)"
  by (auto simp: saved_results_def map_filter_def split: if_splits)

lemma saved_has_rows: "results_ok st \<Longrightarrow> (a, p) \<in> set (saved_results st key n) \<Longrightarrow> has_rows p"
  using saved_results_in by (fastforce simp: results_ok_def list_all_iff)

lemma res_map_sum:
  assumes "res_map f xs = Inr ys" and "\<And>x y. x \<in> set xs \<Longrightarrow> f x = Inr y \<Longrightarrow> h y = (g x :: int)"
  shows "(\<Sum>y\<leftarrow>ys. h y) = (\<Sum>x\<leftarrow>xs. g x)"
  using assms by (induction xs arbitrary: ys) (auto split: sum.splits)

definition model_key :: "jobj \<Rightarrow> string" where
  "model_key m = (case jget_or m ''key'' (PStr ''model'') of PStr k \<Rightarrow> k | _ \<Rightarrow> [])"

lemma round_items_tally:
  assumes "results_ok st" and "res_map (payload_items strf key n) (saved_results st key n) = Inr iss"
  shows "\<forall>i \<in> set (concat iss). it_model i = key \<and> it_round i = n"
    and "s \<in> set UNRESOLVED \<Longrightarrow> tally (concat iss) key n s = saved_count st key n s"
proof -
  show "\<forall>i \<in> set (concat iss). it_model i = key \<and> it_round i = n"
  proof
    fix i assume "i \<in> set (concat iss)"
    then obtain is' where i: "is' \<in> set iss" "i \<in> set is'" by auto
    obtain ap where ap: "ap \<in> set (saved_results st key n)" "payload_items strf key n ap = Inr is'"
      using res_map_Inr_set [OF assms(2) i(1)] by blast
    obtain a p where "ap = (a, p)" by (cases ap)
    then show "it_model i = key \<and> it_round i = n"
      using payload_items_tally(1) [OF saved_has_rows [OF assms(1)]] ap i(2) by simp
  qed
  assume s: "s \<in> set UNRESOLVED"
  show "tally (concat iss) key n s = saved_count st key n s"
    unfolding tally_concat saved_count_def
  proof (rule res_map_sum [OF assms(2)])
    fix ap is' assume ap: "ap \<in> set (saved_results st key n)" "payload_items strf key n ap = Inr is'"
    obtain a p where "ap = (a, p)" by (cases ap)
    then show "tally is' key n s = (case ap of (a, p) \<Rightarrow> counted p s)"
      using payload_items_tally(2) [OF saved_has_rows [OF assms(1)] _ s] ap by simp
  qed
qed

lemma model_items_tally:
  assumes "results_ok st" and "model_items strf st (PDict m) = Inr is"
  shows "\<forall>i \<in> set is. it_model i = model_key m"
    and "n \<in> {1, 2, 3} \<Longrightarrow> s \<in> set UNRESOLVED \<Longrightarrow> tally is (model_key m) n s = saved_count st (model_key m) n s"
proof -
  obtain key where key: "jget_or m ''key'' (PStr ''model'') = PStr key"
    using assms(2) by (cases "jget_or m ''key'' (PStr ''model'')") (simp_all add: model_items_def as_obj_def)
  define i where "i = (\<lambda>n. res_map (payload_items strf key n) (saved_results st key n))"
  define bad where "bad = (key \<in> {'''', ''.'', ''..''} \<or> slug key \<noteq> key)"
  define four' where "four' = (case map_of (c_runs st) key of None \<Rightarrow> Inr [] | Some p \<Rightarrow> run4_items strf key p)"
  have "(if bad then Inl (ValueError ''unsafe model key in saved config'')
      else res_bind (res_map i [1, 2, 3]) (\<lambda>xs. res_bind four' (\<lambda>four. Inr (concat (concat xs) @ four)))) = Inr is"
    using assms(2) unfolding model_items_def as_obj_def pyval.case res_bind.simps(2) key i_def bad_def four'_def .
  then obtain xs four where xs: "res_map i [1, 2, 3] = Inr xs" and items: "is = concat (concat xs) @ four"
    and four: "four' = Inr four"
    by (cases bad) (auto simp: res_bind_Inr_iff simp del: res_map.simps)
  obtain i1 i2 i3 where r: "i 1 = Inr i1" "i 2 = Inr i2" "i 3 = Inr i3" and xs': "xs = [i1, i2, i3]"
    using xs by (auto split: sum.splits)
  note r = r [unfolded i_def] and four = four [unfolded four'_def]
  have k: "model_key m = key" by (simp add: model_key_def key)
  note a = r [THEN round_items_tally(1) [OF assms(1)]]
  note b = r [THEN round_items_tally(2) [OF assms(1)]]
  have f: "\<forall>i \<in> set four. it_model i = key \<and> it_round i = 4"
  proof (cases "map_of (c_runs st) key")
    case None then show ?thesis using four by simp
  next
    case (Some p)
    then have "run4_items strf key p = Inr four" using four by simp
    then show ?thesis using run4_items_model by blast
  qed
  show "\<forall>i \<in> set is. it_model i = model_key m"
    using a f unfolding items xs' k by auto
  assume n: "n \<in> {1, 2, 3}" and s: "s \<in> set UNRESOLVED"
  have z: "tally (concat i1) key 2 s = 0" "tally (concat i1) key 3 s = 0" "tally (concat i2) key 1 s = 0"
    "tally (concat i2) key 3 s = 0" "tally (concat i3) key 1 s = 0" "tally (concat i3) key 2 s = 0"
    by (rule tally_other [OF a(1)] tally_other [OF a(2)] tally_other [OF a(3)], simp)+
  have z4: "tally four key n s = 0" by (rule tally_other [OF f]) (use n in auto)
  show "tally is (model_key m) n s = saved_count st (model_key m) n s"
    using n b [OF s] z z4 unfolding items xs' k by auto
qed

lemma inspect_tally:
  assumes "results_ok st" and "jget config ''models'' = PList (map PDict ms)" and "distinct (map model_key ms)"
    and "inspect_run strf run_id (Some (PDict config)) st = Inr ins" and "m \<in> set ms"
    and "n \<in> {1, 2, 3}" and "s \<in> set UNRESOLVED"
  shows "tally (in_items ins) (model_key m) n s = saved_count st (model_key m) n s"
proof -
  have "jget_or config ''models'' (PList []) = PList (map PDict ms)"
    using assms(2) by (auto simp: jget_def jget_or_def dict_get_def split: option.splits)
  then obtain iss where r: "res_map (model_items strf st) (map PDict ms) = Inr iss" "in_items ins = concat iss"
    using assms(4) unfolding inspect_run_def by (auto simp: as_obj_def res_bind_Inr_iff py_iter_def)
  have "(\<Sum>is\<leftarrow>iss. tally is (model_key m) n s)
      = (\<Sum>v\<leftarrow>map PDict ms. if v = PDict m then saved_count st (model_key m) n s else 0)"
  proof (rule res_map_sum [OF r(1)])
    fix v "is" assume v: "v \<in> set (map PDict ms)" "model_items strf st v = Inr is"
    then obtain m' where m': "m' \<in> set ms" "v = PDict m'" by auto
    note t = model_items_tally [OF assms(1)] 
    show "tally is (model_key m) n s = (if v = PDict m then saved_count st (model_key m) n s else 0)"
    proof (cases "m' = m")
      case True then show ?thesis using t(2) [of strf m "is" n s] v m' assms(6,7) by simp
    next
      case False
      then have "model_key m' \<noteq> model_key m" using assms(3,5) m'(1) by (auto simp: distinct_map dest: inj_onD)
      then show ?thesis using False m'(2) t(1) [of strf m' "is"] v(2) by (auto intro!: tally_none)
    qed
  qed
  also have "\<dots> = saved_count st (model_key m) n s"
    using assms(3,5)
  proof (induction ms)
    case (Cons m' ms)
    show ?case
    proof (cases "m' = m")
      case True
      then have "m \<notin> set ms" using Cons.prems by auto
      then have "(\<Sum>v\<leftarrow>map PDict ms. if v = PDict m then saved_count st (model_key m) n s else 0) = 0"
        by (induction ms) auto
      then show ?thesis using True by simp
    qed (use Cons in auto)
  qed simp
  finally show ?thesis by (simp add: r(2) tally_concat)
qed

section \<open>A saved run\<close>

definition demo_row :: "pyval \<Rightarrow> pyval \<Rightarrow> jobj" where
  "demo_row i c = [(''id'', i), (''correct'', c), (''finish_reason'', PStr ''stop'')]"

definition demo_payload :: jobj where
  "demo_payload =
     [(''attempt'', PInt 1), (''score'', PInt 1), (''wall'', PInt 9),
      (''results'', PList (map PDict [demo_row (PInt 1) (PBool True), demo_row (PInt 2) (PBool False), demo_row (PInt 3) PNone]))]"

definition demo_run :: campaign where
  "demo_run = \<lparr>c_results = [((''m1'', 1, 1), demo_payload)], c_runs = [],
     c_dash = \<lparr>d_campaign = ''trial'', d_total = 3, d_run_dir = ''runs'', d_enabled = False, d_completed = 3, d_passed = 1,
       d_failed = 1, d_review = 1, d_incomplete = 0, d_invalid = 0, d_skipped = 0, d_current = [], d_latest = [], d_stream = []\<rparr>\<rparr>"

lemma demo_run_ok: "results_ok demo_run"
  by code_simp

lemma demo_run_models: "jget demo_config ''models'' = PList (map PDict [demo_model])" "distinct (map model_key [demo_model])"
  by (code_simp, simp)

lemma demo_saved_rounds:
  "saved_results demo_run ''m1'' 1 = [(1, demo_payload)]" "saved_results demo_run ''m1'' 2 = []" "saved_results demo_run ''m1'' 3 = []"
  by code_simp+

lemma demo_payload_parts:
  "jget demo_payload ''attempt'' = PInt 1" "py_int (PInt 1) = Inr 1" "truthy (PInt 1)" "jget_or demo_payload ''score'' (PInt 0) = PInt 1"
  "jget_or demo_payload ''results'' (PList []) = PList (map PDict [demo_row (PInt 1) (PBool True), demo_row (PInt 2) (PBool False), demo_row (PInt 3) PNone])"
  "jget demo_payload ''results'' = PList (map PDict [demo_row (PInt 1) (PBool True), demo_row (PInt 2) (PBool False), demo_row (PInt 3) PNone])"
  "item_status (demo_row (PInt 1) (PBool True)) = PASS" "item_status (demo_row (PInt 2) (PBool False)) = FAIL"
  "item_status (demo_row (PInt 3) PNone) = REVIEW"
  by code_simp+

lemma demo_payload_items:
  "payload_items (\<lambda>_. []) ''m1'' 1 (1, demo_payload)
     = Inr [row_item (\<lambda>_. []) ''m1'' 1 1 (demo_row (PInt 2) (PBool False)), row_item (\<lambda>_. []) ''m1'' 1 1 (demo_row (PInt 3) PNone)]"
  by (simp add: payload_items_def demo_payload_parts py_or_def py_iter_def item_row_def UNRESOLVED_def)

lemma demo_model_items:
  "model_items (\<lambda>_. []) demo_run (PDict demo_model)
     = Inr [row_item (\<lambda>_. []) ''m1'' 1 1 (demo_row (PInt 2) (PBool False)), row_item (\<lambda>_. []) ''m1'' 1 1 (demo_row (PInt 3) PNone)]"
proof -
  have "jget_or demo_model ''key'' (PStr ''model'') = PStr ''m1''" "slug ''m1'' = ''m1''" "map_of (c_runs demo_run) ''m1'' = None"
    by code_simp+
  then show ?thesis
    by (simp add: model_items_def as_obj_def demo_saved_rounds demo_payload_items)
qed

lemma demo_inspected:
  "inspect_run (\<lambda>_. []) ''run1'' (Some (PDict demo_config)) demo_run
     = Inr \<lparr>in_run_id = ''run1'', in_items = [row_item (\<lambda>_. []) ''m1'' 1 1 (demo_row (PInt 2) (PBool False)),
         row_item (\<lambda>_. []) ''m1'' 1 1 (demo_row (PInt 3) PNone)]\<rparr>"
proof -
  have "jget_or demo_config ''models'' (PList []) = PList [PDict demo_model]" by code_simp
  then show ?thesis by (simp add: inspect_run_def as_obj_def py_iter_def demo_model_items)
qed

end
