(* ===== verification/Replay.thy ===== *)
theory Replay
  imports Inspect
begin

text \<open>
  \<open>src/llm_hardtest/replay.py\<close>: a focused configuration made from the unresolved items of a run.
  \<open>select_item\<close> is one step of the loop that fills the nested dictionary of sets, \<open>replay_model\<close>
  one step of the loop over the models. The lemmas follow the dictionary through the loop
  (\<open>select_fold\<close>), so that the replay is exactly what the inspection lists.
\<close>

section \<open>Replay\<close>

text \<open>A set of JSON scalars keeps one of several equal values.\<close>

definition set_add :: "pyval \<Rightarrow> pyval list \<Rightarrow> pyval list" where
  "set_add v vs = (if list_ex (\<lambda>w. py_eq w v) vs then vs else vs @ [v])"

type_synonym selection = "(string, (int, pyval list) dict) dict"

definition select_item :: "status list \<Rightarrow> item \<Rightarrow> selection \<Rightarrow> selection res" where
  "select_item statuses i sel =
     (if it_status i \<notin> set statuses \<or> it_id i = PNone then Inr sel
      else if \<not> hashable (it_id i) then Inl (TypeError ''unhashable type'')
      else let flt = dict_get sel (it_model i) [] in
        Inr (AList.update (it_model i) (AList.update (it_round i) (set_add (it_id i) (dict_get flt (it_round i) [])) flt) sel))"

text \<open>\<open>sorted(values, key=lambda v: (str(type(v)), v))\<close>: \<open>bool\<close>, \<open>float\<close>, \<open>int\<close>, \<open>str\<close>.\<close>

definition value_key :: "pyval \<Rightarrow> int \<times> rat \<times> string" where
  "value_key v =
     (case v of PBool b \<Rightarrow> (0, if b then 1 else 0, []) | PFloat q \<Rightarrow> (1, q, []) | PInt i \<Rightarrow> (2, of_int i, [])
      | PStr s \<Rightarrow> (3, 0, s) | _ \<Rightarrow> (4, 0, []))"

definition replay_model :: "selection \<Rightarrow> jobj \<Rightarrow> jobj option" where
  "replay_model sel model =
     (let flt = (case jget model ''key'' of PStr k \<Rightarrow> dict_get sel k [] | _ \<Rightarrow> []) in
      if flt = [] then None
      else let ordered = map (\<lambda>(n, vs). (n, sort_key value_key vs)) (sort_key fst flt) in
        Some (AList.update ''item_filters'' (PDict (map (\<lambda>(n, vs). (show_int n, PList vs)) ordered))
               (AList.update ''rounds'' (PList (map (\<lambda>(n, _). PInt n) ordered)) model)))"

definition replay_rounds :: "selection \<Rightarrow> jobj list \<Rightarrow> int list" where
  "replay_rounds sel models =
     sort (remdups (concat (map (\<lambda>m. case jget m ''key'' of PStr k \<Rightarrow> map fst (dict_get sel k []) | _ \<Rightarrow> []) models)))"

definition replay_config :: "(pyval \<Rightarrow> string) \<Rightarrow> string \<Rightarrow> jobj \<Rightarrow> bool \<Rightarrow> selection \<Rightarrow> jobj list \<Rightarrow> jobj" where
  "replay_config strf run_id original include_review sel models =
     (let replay = AList.update ''replay'' (PDict [(''parent_run_id'', PStr run_id),
                     (''selection'', PStr (if include_review then ''unresolved-with-review'' else ''failed-only''))])
                   (AList.update ''repetitions'' (PInt 1)
                     (AList.update ''name'' (PStr (jstr strf (jget_or original ''name'' (PStr ''campaign'')) @ ''-replay'')) original))
      in AList.update ''rounds'' (PList (map PInt (replay_rounds sel models)))
           (AList.update ''models'' (PList (map PDict (List.map_filter (replay_model sel) models))) replay))"

definition make_replay_config ::
  "(pyval \<Rightarrow> string) \<Rightarrow> string \<Rightarrow> jobj \<Rightarrow> campaign \<Rightarrow> bool \<Rightarrow> jobj option res" where
  "make_replay_config strf run_id original st include_review =
     res_bind (inspect_run strf run_id (Some (PDict original)) st) (\<lambda>ins.
     res_bind (res_fold (\<lambda>s i. select_item ([FAIL, INCOMPLETE, INVALID] @ (if include_review then [REVIEW] else [])) i s)
                [] (in_items ins)) (\<lambda>sel.
       if sel = [] then Inr None
       else res_bind (res_bind (jitem original ''models'') py_iter) (\<lambda>ms.
            res_bind (res_map as_obj ms) (\<lambda>models.
            res_bind (res_map (\<lambda>m. jitem m ''key'') models) (\<lambda>_.
                Inr (Some (replay_config strf run_id original include_review sel models)))))))"

section \<open>The selection\<close>

definition wanted :: "bool \<Rightarrow> item list \<Rightarrow> string \<Rightarrow> int \<Rightarrow> pyval list" where
  "wanted rv is key n =
     map it_id (filter (\<lambda>i. it_model i = key \<and> it_round i = n
       \<and> it_status i \<in> set ([FAIL, INCOMPLETE, INVALID] @ (if rv then [REVIEW] else [])) \<and> it_id i \<noteq> PNone) is)"

definition sel_ok :: "bool \<Rightarrow> item list \<Rightarrow> selection \<Rightarrow> bool" where
  "sel_ok rv is sel =
     (\<forall>key. dict_wf (dict_get sel key []) \<and> (\<forall>n. let vs = dict_get (dict_get sel key []) n [] in
        (dict_has (dict_get sel key []) n \<longleftrightarrow> wanted rv is key n \<noteq> []) \<and> set vs \<subseteq> set (wanted rv is key n)
        \<and> (\<forall>v \<in> set (wanted rv is key n). \<exists>w \<in> set vs. py_eq w v)))"

lemma py_eq_refl: "hashable v \<Longrightarrow> py_eq v v"
  by (cases v) (simp_all add: hashable_def py_num_def)

lemma set_add_facts: "set (set_add v vs) \<subseteq> insert v (set vs)" "set vs \<subseteq> set (set_add v vs)"
  "hashable v \<Longrightarrow> \<exists>w \<in> set (set_add v vs). py_eq w v"
  by (auto simp: set_add_def list_ex_iff py_eq_refl)

lemma dict_get_update: "dict_get (AList.update k v d) k' x = (if k' = k then v else dict_get d k' x)"
  by (simp add: dict_get_def map_of_dict_update)

lemma dict_has_update: "dict_has (AList.update k v d) k' \<longleftrightarrow> k' = k \<or> dict_has d k'"
  by (simp add: dict_has_iff map_of_dict_update)

lemma wanted_snoc:
  "wanted rv (is @ [i]) key n = wanted rv is key n @
     (if it_model i = key \<and> it_round i = n
        \<and> it_status i \<in> set ([FAIL, INCOMPLETE, INVALID] @ (if rv then [REVIEW] else [])) \<and> it_id i \<noteq> PNone then [it_id i] else [])"
  by (simp add: wanted_def)

lemma select_item_ok:
  assumes "sel_ok rv is sel"
    and "select_item ([FAIL, INCOMPLETE, INVALID] @ (if rv then [REVIEW] else [])) i sel = Inr sel'"
  shows "sel_ok rv (is @ [i]) sel'"
proof (cases "it_status i \<in> set ([FAIL, INCOMPLETE, INVALID] @ (if rv then [REVIEW] else [])) \<and> it_id i \<noteq> PNone")
  case False
  then have "sel' = sel" using assms(2) by (auto simp: select_item_def)
  moreover have "wanted rv (is @ [i]) key n = wanted rv is key n" for key n using False by (auto simp: wanted_snoc)
  ultimately show ?thesis using assms(1) by (simp add: sel_ok_def)
next
  case True
  define flt where "flt = dict_get sel (it_model i) []"
  define vs where "vs = set_add (it_id i) (dict_get flt (it_round i) [])"
  have h: "hashable (it_id i)" and sel': "sel' = AList.update (it_model i) (AList.update (it_round i) vs flt) sel"
    using assms(2) True by (auto simp: select_item_def flt_def vs_def Let_def split: if_splits)
  have w: "wanted rv (is @ [i]) key n = wanted rv is key n @ (if it_model i = key \<and> it_round i = n then [it_id i] else [])" for key n
    using True by (simp add: wanted_snoc)
  show ?thesis
    unfolding sel_ok_def
  proof (intro allI conjI)
    fix key
    have old: "dict_wf (dict_get sel key [])" using assms(1) by (simp add: sel_ok_def)
    show "dict_wf (dict_get sel' key [])"
      using old by (auto simp: sel' dict_get_update flt_def dict_wf_update)
    fix n
    have o: "dict_has (dict_get sel key []) n \<longleftrightarrow> wanted rv is key n \<noteq> []"
      "set (dict_get (dict_get sel key []) n []) \<subseteq> set (wanted rv is key n)"
      "\<forall>v \<in> set (wanted rv is key n). \<exists>w \<in> set (dict_get (dict_get sel key []) n []). py_eq w v"
      using assms(1) unfolding sel_ok_def Let_def by blast+
    show "let vs = dict_get (dict_get sel' key []) n [] in
        (dict_has (dict_get sel' key []) n \<longleftrightarrow> wanted rv (is @ [i]) key n \<noteq> []) \<and> set vs \<subseteq> set (wanted rv (is @ [i]) key n)
        \<and> (\<forall>v \<in> set (wanted rv (is @ [i]) key n). \<exists>w \<in> set vs. py_eq w v)"
    proof (cases "it_model i = key \<and> it_round i = n")
      case False
      then have "dict_get (dict_get sel' key []) n [] = dict_get (dict_get sel key []) n []"
        "dict_has (dict_get sel' key []) n = dict_has (dict_get sel key []) n"
        by (auto simp: sel' dict_get_update dict_has_update flt_def)
      moreover have "wanted rv (is @ [i]) key n = wanted rv is key n" using False w by auto
      ultimately show ?thesis using o by (simp only: Let_def)
    next
      case True
      then have a: "dict_get (dict_get sel' key []) n [] = set_add (it_id i) (dict_get (dict_get sel key []) n [])"
        "dict_has (dict_get sel' key []) n"
        by (auto simp: sel' dict_get_update dict_has_update flt_def vs_def)
      have b: "wanted rv (is @ [i]) key n = wanted rv is key n @ [it_id i]" using True w by simp
      show ?thesis
        unfolding Let_def a(1) b
        using a(2) o set_add_facts(1,2) [where v = "it_id i" and vs = "dict_get (dict_get sel key []) n []"] set_add_facts(3) [OF h]
        by (intro conjI) (auto, blast+)
    qed
  qed
qed

lemma select_fold:
  assumes "res_fold (\<lambda>s i. select_item ([FAIL, INCOMPLETE, INVALID] @ (if rv then [REVIEW] else [])) i s) [] is = Inr sel"
  shows "sel_ok rv is sel"
  using assms
proof (induction "is" arbitrary: sel rule: rev_induct)
  case Nil
  then show ?case by (simp add: sel_ok_def wanted_def dict_get_def dict_has_iff)
next
  case (snoc i "is")
  then show ?case
    by (auto simp: res_fold_append split: sum.splits intro: select_item_ok)
qed

section \<open>The replayed models\<close>

definition has_wanted :: "bool \<Rightarrow> item list \<Rightarrow> string \<Rightarrow> bool" where
  "has_wanted rv is key = list_ex (\<lambda>i. wanted rv is key (it_round i) \<noteq> []) is"

lemma has_wanted_iff: "has_wanted rv is key \<longleftrightarrow> (\<exists>n. wanted rv is key n \<noteq> [])"
  unfolding has_wanted_def list_ex_iff wanted_def by (auto simp: filter_empty_conv)

text \<open>The filters of a replayed model: one sorted list of ids per round with unresolved items, made of
  exactly the ids of these items (equal ids once).\<close>

definition filter_exact :: "pyval list \<Rightarrow> pyval \<Rightarrow> bool" where
  "filter_exact ids v =
     (case v of PList vs \<Rightarrow> set vs \<subseteq> set ids \<and> (\<forall>x \<in> set ids. \<exists>w \<in> set vs. py_eq w x) | _ \<Rightarrow> False)"

definition replay_ok :: "bool \<Rightarrow> item list \<Rightarrow> string \<Rightarrow> jobj \<Rightarrow> bool" where
  "replay_ok rv is key m \<longleftrightarrow>
     (\<exists>ns. jget m ''rounds'' = PList (map PInt ns) \<and> sorted ns \<and> distinct ns \<and> (\<forall>n. n \<in> set ns \<longleftrightarrow> wanted rv is key n \<noteq> [])
        \<and> (\<exists>d. jget m ''item_filters'' = PDict d \<and> map fst d = map show_int ns
             \<and> (\<forall>n \<in> set ns. filter_exact (wanted rv is key n) (jget d (show_int n)))))"

lemma map_of_shown:
  assumes "map_of xs n = Some v"
  shows "map_of (map (\<lambda>(n, v). (show_int n, f v)) xs) (show_int n) = Some (f v)"
  using assms by (induction xs) (auto split: if_splits dest: show_int_inj)

lemma replay_model_ok:
  assumes "sel_ok rv is sel" and "jget m ''key'' = PStr key"
  shows "case replay_model sel m of None \<Rightarrow> \<not> has_wanted rv is key
         | Some m' \<Rightarrow> has_wanted rv is key \<and> jget m' ''key'' = PStr key \<and> replay_ok rv is key m'"
proof -
  define flt where "flt = dict_get sel key []"
  have wf: "dict_wf flt" and has: "dict_has flt n \<longleftrightarrow> wanted rv is key n \<noteq> []"
    and sub: "set (dict_get flt n []) \<subseteq> set (wanted rv is key n)"
    and sup: "\<forall>v \<in> set (wanted rv is key n). \<exists>w \<in> set (dict_get flt n []). py_eq w v" for n
    using assms(1) unfolding sel_ok_def Let_def flt_def by blast+
  show ?thesis
  proof (cases "flt = []")
    case True
    then have "\<not> has_wanted rv is key" using has by (simp add: has_wanted_iff dict_has_iff)
    then show ?thesis using True assms(2) by (simp add: replay_model_def flt_def)
  next
    case False
    define ordered where "ordered = map (\<lambda>(n, vs). (n, sort_key value_key vs)) (sort_key fst flt)"
    define m' where "m' = AList.update ''item_filters'' (PDict (map (\<lambda>(n, vs). (show_int n, PList vs)) ordered))
               (AList.update ''rounds'' (PList (map (\<lambda>(n, _). PInt n) ordered)) m)"
    have m': "replay_model sel m = Some m'"
      using False assms(2) unfolding replay_model_def m'_def ordered_def flt_def by (simp add: Let_def)
    define ns where "ns = map fst (sort_key fst flt)"
    have fst: "map fst ordered = ns" by (simp add: ordered_def ns_def case_prod_unfold o_def)
    have ns: "sorted ns" "distinct ns" "set ns = fst ` set flt"
      using wf by (simp_all add: ns_def dict_wf_def distinct_map inj_on_def)
    have mem: "n \<in> set ns \<longleftrightarrow> wanted rv is key n \<noteq> []" for n
      using has [of n] ns(3) by (simp add: dict_has_iff map_of_eq_None_iff)
    have exact: "filter_exact (wanted rv is key n) (jget (map (\<lambda>(n, vs). (show_int n, PList vs)) ordered) (show_int n))"
      if n: "n \<in> set ns" for n
    proof -
      obtain vs where vs: "map_of flt n = Some vs" using n has [of n] mem [of n] by (auto simp: dict_has_iff)
      then have "(n, vs) \<in> set (sort_key fst flt)" by (simp add: map_of_SomeD)
      then have "(n, sort_key value_key vs) \<in> set ordered" by (force simp: ordered_def)
      then have "map_of ordered n = Some (sort_key value_key vs)"
        using ns(2) fst by (simp add: map_of_is_SomeI)
      then have "jget (map (\<lambda>(n, vs). (show_int n, PList vs)) ordered) (show_int n) = PList (sort_key value_key vs)"
        using map_of_shown [of ordered n _ PList] by (simp add: jget_def dict_get_def)
      then show ?thesis using sub [of n] sup [of n] vs by (simp add: filter_exact_def dict_get_def)
    qed
    have "jget m' ''rounds'' = PList (map PInt ns)"
      by (simp add: m'_def jget_update fst [symmetric] case_prod_unfold o_def)
    moreover have "jget m' ''item_filters'' = PDict (map (\<lambda>(n, vs). (show_int n, PList vs)) ordered)"
      by (simp add: m'_def jget_update)
    moreover have "map fst (map (\<lambda>(n, vs). (show_int n, PList vs)) ordered) = map show_int ns"
      by (simp add: fst [symmetric] case_prod_unfold o_def)
    ultimately have "replay_ok rv is key m'"
      unfolding replay_ok_def using ns(1,2) mem exact by blast
    moreover have "has_wanted rv is key"
    proof -
      obtain n vs r where "flt = (n, vs) # r" using False by (cases flt) auto
      then have "wanted rv is key n \<noteq> []" using has [of n] by (simp add: dict_has_iff)
      then show ?thesis using has_wanted_iff by blast
    qed
    moreover have "jget m' ''key'' = PStr key" using assms(2) by (simp add: m'_def jget_update)
    ultimately show ?thesis using m' by simp
  qed
qed

lemma inspected_keys:
  assumes "inspect_run strf run_id (Some (PDict original)) st = Inr ins"
    and "jget original ''models'' = PList (map PDict ms)" and "m \<in> set ms" and "jitem m ''key'' = Inr v"
  shows "jget m ''key'' = PStr (model_key m)"
proof -
  have "jget_or original ''models'' (PList []) = PList (map PDict ms)"
    using assms(2) by (auto simp: jget_def jget_or_def dict_get_def split: option.splits)
  then obtain iss where "res_map (model_items strf st) (map PDict ms) = Inr iss"
    using assms(1) unfolding inspect_run_def by (auto simp: as_obj_def res_bind_Inr_iff py_iter_def)
  then obtain is' where "model_items strf st (PDict m) = Inr is'"
    using assms(3) res_map_Inr_all2 by (fastforce simp: list_all2_conv_all_nth in_set_conv_nth)
  then obtain key where "jget_or m ''key'' (PStr ''model'') = PStr key"
    by (cases "jget_or m ''key'' (PStr ''model'')") (simp_all add: model_items_def as_obj_def)
  then show ?thesis
    using assms(4) by (auto simp: jitem_def jget_or_def jget_def dict_get_def model_key_def split: option.splits)
qed

lemma replay_kept:
  assumes "sel_ok rv is sel" and "\<And>m. m \<in> set ms \<Longrightarrow> jget m ''key'' = PStr (model_key m)"
  defines "kept \<equiv> List.map_filter (replay_model sel) ms"
  shows "map model_key kept = filter (has_wanted rv is) (map model_key ms)"
    and "\<forall>m \<in> set kept. replay_ok rv is (model_key m) m"
    and "n \<in> set (replay_rounds sel ms) \<longleftrightarrow> (\<exists>m \<in> set kept. wanted rv is (model_key m) n \<noteq> [])"
proof -
  have one: "case replay_model sel m of None \<Rightarrow> \<not> has_wanted rv is (model_key m)
      | Some m' \<Rightarrow> has_wanted rv is (model_key m) \<and> model_key m' = model_key m \<and> replay_ok rv is (model_key m) m'" if "m \<in> set ms" for m
  proof -
    have "model_key m' = k" if "jget m' ''key'' = PStr k" for m' k
      using that by (auto simp: model_key_def jget_def jget_or_def dict_get_def split: option.splits)
    then show ?thesis using replay_model_ok [OF assms(1) assms(2) [OF that]] by (auto split: option.splits)
  qed
  show keys: "map model_key kept = filter (has_wanted rv is) (map model_key ms)"
    unfolding kept_def using one
  proof (induction ms)
    case (Cons m ms)
    have IH: "map model_key (List.map_filter (replay_model sel) ms) = filter (has_wanted rv is) (map model_key ms)"
      by (rule Cons.IH) (use Cons.prems in simp)
    show ?case using Cons.prems [of m] IH
      by (cases "replay_model sel m") (simp_all add: List.map_filter_simps)
  qed (simp add: List.map_filter_simps)
  show "\<forall>m \<in> set kept. replay_ok rv is (model_key m) m"
  proof
    fix m' assume "m' \<in> set kept"
    then obtain m where "m \<in> set ms" "replay_model sel m = Some m'" by (auto simp: kept_def map_filter_def)
    then show "replay_ok rv is (model_key m') m'" using one [of m] by simp
  qed
  have "n \<in> set (replay_rounds sel ms) \<longleftrightarrow> (\<exists>m \<in> set ms. n \<in> fst ` set (dict_get sel (model_key m) []))"
    using assms(2) by (auto simp: replay_rounds_def)
  also have "\<dots> \<longleftrightarrow> (\<exists>m \<in> set ms. wanted rv is (model_key m) n \<noteq> [])"
    using assms(1) unfolding sel_ok_def Let_def dict_has_iff map_of_eq_None_iff by blast
  also have "\<dots> \<longleftrightarrow> (\<exists>k \<in> set (map model_key kept). wanted rv is k n \<noteq> [])"
    unfolding keys by (auto simp: has_wanted_iff)
  finally show "n \<in> set (replay_rounds sel ms) \<longleftrightarrow> (\<exists>m \<in> set kept. wanted rv is (model_key m) n \<noteq> [])" by simp
qed


definition demo_sel :: selection where
  "demo_sel = [(''m1'', [(1, [PInt 2])])]"

lemma demo_selected:
  "res_fold (\<lambda>s i. select_item ([FAIL, INCOMPLETE, INVALID] @ (if False then [REVIEW] else [])) i s) []
     [row_item (\<lambda>_. []) ''m1'' 1 1 (demo_row (PInt 2) (PBool False)), row_item (\<lambda>_. []) ''m1'' 1 1 (demo_row (PInt 3) PNone)] = Inr demo_sel"
proof -
  have "jget (demo_row (PInt 2) (PBool False)) ''id'' = PInt 2" "hashable (PInt 2)" by code_simp+
  then show ?thesis
    by (simp add: select_item_def row_item_def demo_payload_parts dict_get_def set_add_def demo_sel_def)
qed

lemma demo_replayed:
  "make_replay_config (\<lambda>_. []) ''run1'' demo_config demo_run False
     = Inr (Some (replay_config (\<lambda>_. []) ''run1'' demo_config False demo_sel [demo_model]))"
proof -
  have "jitem demo_config ''models'' = Inr (PList [PDict demo_model])" "jitem demo_model ''key'' = Inr (PStr ''m1'')" "demo_sel \<noteq> []"
    by code_simp+
  then show ?thesis
    using demo_selected by (simp add: make_replay_config_def demo_inspected py_iter_def as_obj_def)
qed

lemma demo_wanted:
  "has_wanted False [row_item (\<lambda>_. []) ''m1'' 1 1 (demo_row (PInt 2) (PBool False)), row_item (\<lambda>_. []) ''m1'' 1 1 (demo_row (PInt 3) PNone)] ''m1''"
proof -
  have "jget (demo_row (PInt 2) (PBool False)) ''id'' = PInt 2" by code_simp
  then show ?thesis by (simp add: has_wanted_def wanted_def row_item_def demo_payload_parts)
qed


end
