(* ===== verification/Report.thy ===== *)
theory Report
  imports Inspect
begin

text \<open>
  The campaign report (\<open>src/llm_hardtest/report.py\<close>): \<open>collect\<close> sums up what a run directory
  holds and \<open>render_report\<close> writes the Markdown. The fingerprints of the packs and the time of the
  report are arguments; a dash outside the modelled characters is \<open>em_dash\<close>.
\<close>

section \<open>Collecting\<close>

record round_entry =
  e_attempts :: int
  e_passed :: pyval
  e_total :: int
  e_wall :: pyval
  e_review :: int
  e_incomplete :: int
  e_infra :: int

record task_row =
  t_task :: pyval
  t_attempt :: pyval
  t_public_passed :: pyval
  t_public_total :: pyval
  t_hidden_passed :: pyval
  t_hidden_total :: pyval
  t_auto :: pyval
  t_release :: bool
  t_handoff :: pyval
  t_false_green :: bool
  t_tampering :: bool
  t_timed_out :: bool
  t_wall :: pyval
  t_tokens :: pyval

record four_entry =
  f_attempts :: int
  f_planned :: int
  f_infra :: int
  f_release :: int
  f_handoff :: int
  f_applicable :: int
  f_false_green :: int
  f_tampering :: int
  f_auto :: pyval
  f_wall :: pyval
  f_tasks :: "task_row list"

record model_entry =
  me_key :: string
  me_label :: pyval
  me_rounds :: "(int \<times> round_entry) list"
  me_four :: "four_entry option"

record summary =
  su_run_id :: string
  su_generated :: string
  su_config :: jobj
  su_packs :: "(int \<times> string) list"
  su_models :: "model_entry list"

text \<open>\<open>_mean\<close>: the numbers among the values, booleans included; the mean of integers stays an
  integer when it is one.\<close>

definition mean_of :: "pyval list \<Rightarrow> pyval" where
  "mean_of vs =
     (let nums = filter (\<lambda>v. py_num v \<noteq> None) vs; qs = List.map_filter py_num vs; q = sum_list qs / of_nat (length qs) in
      if qs = [] then PNone
      else if list_all (\<lambda>v. as_int v \<noteq> None) nums \<and> q = of_int \<lfloor>q\<rfloor> then PInt \<lfloor>q\<rfloor>
      else PFloat (py_round 2 q))"

definition round_entry_of :: "jobj list \<Rightarrow> round_entry res" where
  "round_entry_of rows =
     res_bind (res_map result_counts rows) (\<lambda>cs.
     res_bind (py_sum (map (\<lambda>r. jget_or r ''score'' (PInt 0)) rows)) (\<lambda>passed.
       Inr \<lparr>e_attempts = int (length rows), e_passed = passed, e_total = (\<Sum>c\<leftarrow>cs. c PASS + c FAIL),
            e_wall = mean_of (map (\<lambda>r. jget r ''wall'') rows), e_review = (\<Sum>c\<leftarrow>cs. c REVIEW),
            e_incomplete = (\<Sum>c\<leftarrow>cs. c INCOMPLETE), e_infra = (\<Sum>c\<leftarrow>cs. c INVALID)\<rparr>))"

definition sub_obj :: "jobj \<Rightarrow> string \<Rightarrow> jobj res" where
  "sub_obj d k = as_obj (jget_or d k (PDict []))"

definition task_row_of :: "jobj \<Rightarrow> task_row res" where
  "task_row_of g =
     res_bind (sub_obj g ''flags'') (\<lambda>flags.
     res_bind (sub_obj g ''public'') (\<lambda>public.
     res_bind (sub_obj g ''hidden'') (\<lambda>hidden.
     res_bind (sub_obj g ''run_meta'') (\<lambda>meta.
       Inr \<lparr>t_task = jget_or g ''task'' (jget_or g ''qid'' (PStr ''unknown'')), t_attempt = jget meta ''attempt'',
            t_public_passed = jget public ''passed'', t_public_total = jget public ''total'',
            t_hidden_passed = jget hidden ''passed'', t_hidden_total = jget hidden ''total'', t_auto = jget g ''score_auto'',
            t_release = truthy (jget flags ''attempt_pass''), t_handoff = jget flags ''manager_utility_pass'',
            t_false_green = truthy (jget flags ''false_green''), t_tampering = truthy (jget flags ''test_tampering''),
            t_timed_out = truthy (jget flags ''model_timed_out''), t_wall = jget meta ''wall'', t_tokens = jget meta ''tokens''\<rparr>))))"

definition count_if :: "('a \<Rightarrow> bool) \<Rightarrow> 'a list \<Rightarrow> int" where
  "count_if P xs = int (length (filter P xs))"

definition four_entry_of :: "jobj \<Rightarrow> four_entry res" where
  "four_entry_of payload =
     res_bind (py_iter (jget_or payload ''grades'' (PList []))) (\<lambda>vs.
     res_bind (res_map as_obj vs) (\<lambda>gs.
     res_bind (res_map task_row_of gs) (\<lambda>rows.
     res_bind (py_int (jget_or payload ''attempts'' (PInt 0))) (\<lambda>attempts.
     res_bind (py_len (jget_or payload ''tasks'' (PList []))) (\<lambda>ntasks.
     res_bind (py_len (jget_or payload ''errors'' (PList []))) (\<lambda>nerrors.
       Inr \<lparr>f_attempts = int (length gs), f_planned = attempts * int ntasks, f_infra = int nerrors,
            f_release = count_if t_release rows, f_handoff = count_if (\<lambda>r. truthy (t_handoff r)) rows,
            f_applicable = count_if (\<lambda>r. t_handoff r \<noteq> PNone) rows, f_false_green = count_if t_false_green rows,
            f_tampering = count_if t_tampering rows, f_auto = mean_of (map t_auto rows), f_wall = mean_of (map t_wall rows),
            f_tasks = rows\<rparr>))))))"

definition model_entry_of :: "campaign \<Rightarrow> pyval \<Rightarrow> model_entry res" where
  "model_entry_of st v =
     res_bind (as_obj v) (\<lambda>model.
     res_bind (jitem model ''key'') (\<lambda>kv.
     res_bind (case kv of PStr k \<Rightarrow> Inr k | _ \<Rightarrow> Inl (TypeError ''unsupported operand type(s) for /'')) (\<lambda>key.
     res_bind (jitem model ''model'') (\<lambda>mid.
     res_bind (res_map (\<lambda>n. let rows = map snd (saved_results st key n) in
                 if rows = [] then Inr [] else map_sum id (\<lambda>e. [(n, e)]) (round_entry_of rows)) [1, 2, 3]) (\<lambda>es.
     res_bind (case map_of (c_runs st) key of None \<Rightarrow> Inr None | Some p \<Rightarrow> map_sum id Some (four_entry_of p)) (\<lambda>four.
       Inr \<lparr>me_key = key, me_label = jget_or model ''label'' mid, me_rounds = concat es, me_four = four\<rparr>))))))"

definition collect :: "string \<Rightarrow> string \<Rightarrow> (int \<Rightarrow> string option) \<Rightarrow> jobj \<Rightarrow> campaign \<Rightarrow> summary res" where
  "collect run_id now pack config st =
     res_bind (need config ''models'') (\<lambda>ms.
     res_bind (res_map (model_entry_of st) ms) (\<lambda>models.
     res_bind (res_bind (py_iter (jget_or config ''rounds'' (PList []))) (res_map py_int)) (\<lambda>rounds.
       Inr \<lparr>su_run_id = run_id, su_generated = now, su_config = config,
            su_packs = fold (\<lambda>n d. case pack n of None \<Rightarrow> d | Some fp \<Rightarrow> AList.update n fp d) rounds [], su_models = models\<rparr>)))"

section \<open>Rendering\<close>

definition ratio :: "(pyval \<Rightarrow> string) \<Rightarrow> pyval \<Rightarrow> pyval \<Rightarrow> string" where
  "ratio strf passed tot = (if truthy tot then jstr strf passed @ ''/'' @ jstr strf tot else ''n/a'')"

definition int_ratio :: "int \<Rightarrow> int \<Rightarrow> string" where
  "int_ratio a b = ratio (\<lambda>_. []) (PInt a) (PInt b)"

definition html_ch :: "char \<Rightarrow> string" where
  "html_ch c =
     (if c = CHR ''&'' then ''&amp;'' else if c = CHR ''<'' then ''&lt;'' else if c = CHR ''>'' then ''&gt;''
      else if c = CHR 0x22 then ''&quot;'' else if c = CHR 0x27 then ''&#x27;'' else [c])"

definition md_text :: "string \<Rightarrow> string" where
  "md_text s =
     str_replace_ch newline '' '' (str_replace_ch (CHR ''|'') [CHR 0x5C, CHR ''|''] (concat (map html_ch s)))"

definition reasoning_result :: "(pyval \<Rightarrow> string) \<Rightarrow> round_entry option \<Rightarrow> string" where
  "reasoning_result strf e =
     (case e of
        None \<Rightarrow> ''n/a''
      | Some d \<Rightarrow>
          (let score = ratio strf (e_passed d) (PInt (e_total d)) in
           if e_incomplete d \<noteq> 0 then score @ '' (+'' @ show_int (e_incomplete d) @ '' incomplete)'' else score))"

definition row_of :: "string list \<Rightarrow> string" where
  "row_of cells = ''| '' @ str_join '' | '' cells @ '' |''"

definition matrix_row :: "(pyval \<Rightarrow> string) \<Rightarrow> model_entry \<Rightarrow> string" where
  "matrix_row strf m =
     (let r = map_of (me_rounds m); f = me_four m;
          review = (case r 3 of Some d \<Rightarrow> e_review d | None \<Rightarrow> 0) in
      row_of [md_text (jstr strf (me_label m)), reasoning_result strf (r 1), reasoning_result strf (r 2), reasoning_result strf (r 3),
        (if review \<noteq> 0 then show_int review else em_dash),
        (case f of Some d \<Rightarrow> int_ratio (f_release d) (f_attempts d) | None \<Rightarrow> ''n/a''),
        (case f of Some d \<Rightarrow> int_ratio (f_handoff d) (f_applicable d) | None \<Rightarrow> ''n/a''),
        (case f of Some d \<Rightarrow> show_int (f_false_green d) | None \<Rightarrow> em_dash)])"

definition round_line :: "(pyval \<Rightarrow> string) \<Rightarrow> int \<times> round_entry \<Rightarrow> string" where
  "round_line strf nd =
     (case nd of (n, d) \<Rightarrow>
        ''- Round '' @ show_int n @ '': '' @ ratio strf (e_passed d) (PInt (e_total d)) @ ''; '' @ show_int (e_attempts d)
        @ '' attempts; mean wall '' @ jstr strf (e_wall d) @ ''s; incomplete items '' @ show_int (e_incomplete d)
        @ ''; manual-review items '' @ show_int (e_review d) @ ''; infrastructure errors '' @ show_int (e_infra d) @ ''.'')"

definition four_line :: "(pyval \<Rightarrow> string) \<Rightarrow> four_entry \<Rightarrow> string" where
  "four_line strf d =
     ''- Round 4: release '' @ int_ratio (f_release d) (f_attempts d) @ ''; handoff '' @ int_ratio (f_handoff d) (f_applicable d)
     @ ''; false-green '' @ show_int (f_false_green d) @ ''; tampering '' @ show_int (f_tampering d)
     @ ''; mean auto '' @ jstr strf (f_auto d) @ ''/65; infrastructure errors '' @ show_int (f_infra d) @ ''.''"

definition or_zero :: "pyval \<Rightarrow> pyval" where
  "or_zero v = py_or v (PInt 0)"

definition task_line :: "(pyval \<Rightarrow> string) \<Rightarrow> task_row \<Rightarrow> string" where
  "task_line strf r =
     row_of [jstr strf (t_task r), (if truthy (t_attempt r) then jstr strf (t_attempt r) else em_dash),
       ratio strf (or_zero (t_public_passed r)) (or_zero (t_public_total r)),
       ratio strf (or_zero (t_hidden_passed r)) (or_zero (t_hidden_total r)),
       (if t_auto r \<noteq> PNone then jstr strf (t_auto r) else em_dash), (if t_release r then ''PASS'' else ''FAIL''),
       (if t_handoff r = PBool True then ''PASS'' else if t_handoff r = PBool False then ''FAIL'' else ''n/a''),
       (if t_false_green r then ''yes'' else ''no''), (if t_tampering r then ''yes'' else ''no''),
       (if t_wall r \<noteq> PNone then jstr strf (t_wall r) else em_dash) @ ''s'']"

definition code :: "string \<Rightarrow> string" where
  "code s = ''`'' @ s @ ''`''"

definition scaffold_line :: "(pyval \<Rightarrow> string) \<Rightarrow> jobj \<Rightarrow> jobj \<Rightarrow> string" where
  "scaffold_line strf configured isolation =
     ''- Round 4 scaffold: agent '' @ code (jstr strf (jget_or configured ''agent_backend'' (PStr ''codex_cli'')))
     @ ''; isolation '' @ code (jstr strf (jget_or isolation ''mode'' (PStr ''none'')))
     @ ''; network '' @ code (jstr strf (jget_or isolation ''network'' (PStr ''unrestricted''))) @ ''.''"

definition table_rule :: string where
  "table_rule = ''|---|'' @ concat (replicate 9 ''---:|'')"

definition model_section :: "(pyval \<Rightarrow> string) \<Rightarrow> jobj list \<Rightarrow> jobj \<Rightarrow> model_entry \<Rightarrow> string list" where
  "model_section strf configs isolation m =
     (let configured = (case find (\<lambda>c. jget c ''key'' = PStr (me_key m)) (rev configs) of Some c \<Rightarrow> c | None \<Rightarrow> []) in
      [''### '' @ md_text (jstr strf (me_label m)), []]
      @ (case me_four m of Some _ \<Rightarrow> [scaffold_line strf configured isolation] | None \<Rightarrow> [])
      @ map (round_line strf) (me_rounds m)
      @ (case me_four m of Some d \<Rightarrow> [four_line strf d] | None \<Rightarrow> [])
      @ [[]]
      @ (case me_four m of
           Some d \<Rightarrow> if f_tasks d = [] then []
                     else [''| Task | Attempt | Public | Hidden | Auto /65 | Release | Handoff | False-green | Tampering | Wall |'', table_rule]
                          @ map (task_line strf) (f_tasks d) @ [[]]
         | None \<Rightarrow> []))"

definition fixed_notes :: "string list" where
  "fixed_notes =
     [''## Reading the Results'', [],
      ''- Round 1 and Round 2 are exact-answer reasoning tests.'',
      ''- Round 3 Q21'' @ [CHR 0xE2, CHR 0x80, CHR 0x93] @ ''Q24 are automatically graded. Q25 is a long-horizon semantic task and is explicitly queued for manual or external-judge review; it is never silently counted as a pass.'',
      ''- Round 4 `release` means the submitted repository is immediately releasable under the hidden suite and integrity gates.'',
      ''- Round 4 `handoff` means a policy-conflict candidate patch moved the ticket forward safely with an accurate blocker. It does not prove full manager capability.'',
      ''- Infrastructure-invalid attempts must be quarantined rather than counted as model failures.'', [],
      ''- Output-limited incomplete items are excluded from correctness and reported separately.'', []]"

definition render_report :: "(pyval \<Rightarrow> string) \<Rightarrow> summary \<Rightarrow> string res" where
  "render_report strf su =
     res_bind (py_iter (jget_or (su_config su) ''models'' (PList []))) (\<lambda>vs.
     res_bind (res_map as_obj vs) (\<lambda>configs.
     res_bind (as_obj (py_or (jget (su_config su) ''round4_isolation'') (PDict [(''mode'', PStr ''none'')]))) (\<lambda>isolation.
     res_bind (jitem (su_config su) ''repetitions'') (\<lambda>reps.
     res_bind (jitem (su_config su) ''rounds'') (\<lambda>rounds.
       Inr (str_join [newline]
         ([''# LLM Hardtest '' @ em_dash @ '' Comprehensive Report'', [], ''**Run:** '' @ code (su_run_id su) @ ''  '',
           ''**Generated:** '' @ su_generated su @ ''  '',
           ''**Interpretation rule:** product correctness, completion, release readiness, handoff utility, manual-review items, and throughput are separate axes.'', [],
           ''## Executive Matrix'', [],
           ''| Model | Round 1 | Round 2 | Round 3 auto | Round 3 review | Round 4 release | Round 4 handoff | False-green |'',
           ''|---|'' @ concat (replicate 7 ''---:|'')]
          @ map (matrix_row strf) (su_models su)
          @ [[], ''## Model Details'', []]
          @ concat (map (model_section strf configs isolation) (su_models su))
          @ fixed_notes
          @ [''## Reproducibility'', [], ''- Repetitions per task: '' @ jstr strf reps, ''- Selected rounds: '' @ jstr strf rounds]
          @ map (\<lambda>(n, fp). ''- Round '' @ show_int n @ '' pack: '' @ code fp) (sort_key (\<lambda>(n, _). show_int n) (su_packs su))
          @ [''- Configuration snapshot: `config.json` in this run directory.'',
             ''- Raw responses, transcripts, working repositories, and grades remain under each model/round directory.'', []])))))))"

text \<open>\<open>generate\<close> as the orchestrator calls it.\<close>

definition generate :: "(pyval \<Rightarrow> string) \<Rightarrow> string \<Rightarrow> string \<Rightarrow> (int \<Rightarrow> string option) \<Rightarrow> jobj \<Rightarrow> campaign \<Rightarrow> (summary \<times> string) res" where
  "generate strf run_id now pack config st =
     res_bind (collect run_id now pack config st) (\<lambda>su. res_bind (render_report strf su) (\<lambda>md. Inr (su, md)))"

section \<open>What the report says\<close>

lemma round_entries:
  assumes "res_map (\<lambda>n. let rows = map snd (saved_results st key n) in
      if rows = [] then Inr [] else map_sum id (\<lambda>e. [(n, e)]) (round_entry_of rows)) ns = Inr es"
    and "n \<in> set ns"
  shows "case map_of (concat es) n of None \<Rightarrow> saved_results st key n = []
         | Some e \<Rightarrow> round_entry_of (map snd (saved_results st key n)) = Inr e"
  using assms
proof (induction ns arbitrary: es)
  case (Cons k ns)
  let ?g = "\<lambda>n. let rows = map snd (saved_results st key n) in
      if rows = [] then Inr [] else map_sum id (\<lambda>e. [(n, e)]) (round_entry_of rows)"
  obtain e1 es' where es: "?g k = Inr e1" "res_map ?g ns = Inr es'" "es = e1 # es'"
    using Cons.prems(1) by (auto split: sum.splits)
  have one: "e1 = [] \<and> saved_results st key k = [] \<or> (\<exists>e. e1 = [(k, e)] \<and> round_entry_of (map snd (saved_results st key k)) = Inr e)"
    using es(1) by (cases "round_entry_of (map snd (saved_results st key k))") (auto simp: Let_def split: if_splits)
  have other: "map_of (concat es') n = None \<or> n \<in> set ns" if "n \<noteq> k"
    using Cons.prems(2) that by simp
  have absent: "map_of (concat es') m = None" if "m \<notin> set ns" for m
    using es(2) that
    by (induction ns arbitrary: es') (auto simp: Let_def map_add_def split: sum.splits if_splits; (case_tac "round_entry_of (map snd (saved_results st key a))"; auto))+
  show ?case
  proof (cases "n = k")
    case False
    then show ?thesis using Cons.IH [OF es(2)] Cons.prems(2) one by (auto simp: es(3) map_add_def split: option.splits)
  next
    case True
    show ?thesis
    proof (cases "n \<in> set ns")
      case True
      then show ?thesis using Cons.IH [OF es(2)] one \<open>n = k\<close> by (auto simp: es(3) map_add_def split: option.splits)
    next
      case False
      then show ?thesis using absent [OF False] one True by (auto simp: es(3) map_add_def)
    qed
  qed
qed simp

lemma round_entry_counts:
  assumes "round_entry_of (map snd (saved_results st key n)) = Inr e"
  shows "e_review e = saved_count st key n REVIEW" "e_incomplete e = saved_count st key n INCOMPLETE"
    "e_infra e = saved_count st key n INVALID" "e_total e = saved_count st key n PASS + saved_count st key n FAIL"
    "e_attempts e = int (length (saved_results st key n))"
proof -
  obtain cs where cs: "res_map result_counts (map snd (saved_results st key n)) = Inr cs"
    and e: "e_review e = (\<Sum>c\<leftarrow>cs. c REVIEW)" "e_incomplete e = (\<Sum>c\<leftarrow>cs. c INCOMPLETE)" "e_infra e = (\<Sum>c\<leftarrow>cs. c INVALID)"
      "e_total e = (\<Sum>c\<leftarrow>cs. c PASS + c FAIL)" "e_attempts e = int (length (saved_results st key n))"
    using assms unfolding round_entry_of_def by (auto simp: res_bind_Inr_iff)
  have "(\<Sum>c\<leftarrow>cs. c s) = (\<Sum>p\<leftarrow>map snd (saved_results st key n). counted p s)" for s
    by (rule res_map_sum [OF cs]) (simp add: counted_def)
  then have *: "(\<Sum>c\<leftarrow>cs. c s) = saved_count st key n s" for s
    by (simp add: saved_count_def case_prod_unfold o_def)
  show "e_review e = saved_count st key n REVIEW" "e_incomplete e = saved_count st key n INCOMPLETE"
    "e_infra e = saved_count st key n INVALID" "e_total e = saved_count st key n PASS + saved_count st key n FAIL"
    "e_attempts e = int (length (saved_results st key n))"
    using e * by (simp_all add: sum_list_addf)
qed

definition round_agrees :: "campaign \<Rightarrow> item list \<Rightarrow> string \<Rightarrow> int \<Rightarrow> round_entry option \<Rightarrow> bool" where
  "round_agrees st is key n r =
     (case r of
        None \<Rightarrow> saved_results st key n = [] \<and> (\<forall>s \<in> set UNRESOLVED. tally is key n s = 0)
      | Some e \<Rightarrow> e_attempts e = int (length (saved_results st key n)) \<and> e_review e = tally is key n REVIEW
          \<and> e_incomplete e = tally is key n INCOMPLETE \<and> e_infra e = tally is key n INVALID
          \<and> e_total e = saved_count st key n PASS + tally is key n FAIL)"

lemma model_entry_rounds:
  assumes "model_entry_of st (PDict m) = Inr me" and "n \<in> {1, 2, 3}"
  shows "me_key me = model_key m"
    and "case map_of (me_rounds me) n of None \<Rightarrow> saved_results st (model_key m) n = []
         | Some e \<Rightarrow> round_entry_of (map snd (saved_results st (model_key m) n)) = Inr e"
proof -
  obtain kv where kv: "jitem m ''key'' = Inr kv"
    using assms(1) unfolding model_entry_of_def as_obj_def by (cases "jitem m ''key''") simp_all
  obtain key where key: "kv = PStr key"
    using assms(1) kv unfolding model_entry_of_def as_obj_def by (cases kv) simp_all
  obtain mid where mid: "jitem m ''model'' = Inr mid"
    using assms(1) kv key unfolding model_entry_of_def as_obj_def by (cases "jitem m ''model''") simp_all
  let ?g = "\<lambda>n. let rows = map snd (saved_results st key n) in
      if rows = [] then Inr [] else map_sum id (\<lambda>e. [(n, e)]) (round_entry_of rows)"
  obtain es four where es: "res_map ?g [1, 2, 3] = Inr es"
    and me: "me = \<lparr>me_key = key, me_label = jget_or m ''label'' mid, me_rounds = concat es, me_four = four\<rparr>"
    using assms(1) kv key mid unfolding model_entry_of_def as_obj_def by (auto simp: res_bind_Inr_iff simp del: res_map.simps)
  have k: "model_key m = key"
    using kv key by (auto simp: model_key_def jitem_def jget_or_def dict_get_def split: option.splits)
  show "me_key me = model_key m" using me k by simp
  have "n \<in> set [1, 2, 3]" using assms(2) by simp
  from round_entries [OF es this] show "case map_of (me_rounds me) n of None \<Rightarrow> saved_results st (model_key m) n = []
         | Some e \<Rightarrow> round_entry_of (map snd (saved_results st (model_key m) n)) = Inr e"
    by (simp only: me k model_entry.simps)
qed


definition demo_entry :: round_entry where
  "demo_entry = \<lparr>e_attempts = 1, e_passed = PInt 1, e_total = 2, e_wall = PInt 9, e_review = 1, e_incomplete = 0, e_infra = 0\<rparr>"

lemma demo_round_entry: "round_entry_of [demo_payload] = Inr demo_entry"
proof -
  have "result_counts demo_payload = Inr (\<lambda>st. int (length (filter (\<lambda>d. item_status d = st)
      [demo_row (PInt 1) (PBool True), demo_row (PInt 2) (PBool False), demo_row (PInt 3) PNone])))"
    by (rule result_counts_rows [OF demo_payload_parts(6)]) simp
  moreover have "mean_of [jget demo_payload ''wall''] = PInt 9" by code_simp
  moreover have "py_sum [PInt 1] = Inr (PInt 1)" by code_simp
  ultimately show ?thesis by (simp add: round_entry_of_def demo_payload_parts demo_entry_def)
qed

lemma demo_collected:
  "collect ''run1'' ''now'' (\<lambda>_. None) demo_config demo_run
     = Inr \<lparr>su_run_id = ''run1'', su_generated = ''now'', su_config = demo_config, su_packs = [],
         su_models = [\<lparr>me_key = ''m1'', me_label = PStr ''x'', me_rounds = [(1, demo_entry)], me_four = None\<rparr>]\<rparr>"
proof -
  have "need demo_config ''models'' = Inr [PDict demo_model]" "jitem demo_model ''key'' = Inr (PStr ''m1'')"
    "jitem demo_model ''model'' = Inr (PStr ''x'')" "jget_or demo_model ''label'' (PStr ''x'') = PStr ''x''"
    "map_of (c_runs demo_run) ''m1'' = None" "jget_or demo_config ''rounds'' (PList []) = PList [PInt 1, PInt 4]"
    by code_simp+
  then show ?thesis
    by (simp add: collect_def model_entry_of_def as_obj_def demo_saved_rounds demo_round_entry py_iter_def py_int_def map_filter_def)
qed


definition md_ch :: "char \<Rightarrow> string" where
  "md_ch c = (if c = newline then '' '' else if c = CHR ''|'' then [CHR 0x5C, CHR ''|''] else html_ch c)"

lemma str_replace_ch_concat: "str_replace_ch c r (concat xs) = concat (map (str_replace_ch c r) xs)"
  by (induction xs) (simp_all add: str_replace_ch_def)

lemma md_text_chars: "md_text s = concat (map md_ch s)"
proof -
  have "str_replace_ch newline '' '' (str_replace_ch (CHR ''|'') [CHR 0x5C, CHR ''|''] (html_ch c)) = md_ch c" for c
    by (simp add: md_ch_def html_ch_def str_replace_ch_def newline_def)
  then show ?thesis by (simp add: md_text_def str_replace_ch_concat comp_def)
qed

text \<open>Every bar follows a backslash.\<close>

definition bars_escaped :: "string \<Rightarrow> bool" where
  "bars_escaped w = (\<forall>i < length w. w ! i = CHR ''|'' \<longrightarrow> 0 < i \<and> w ! (i - 1) = CHR 0x5C)"

lemma bars_escaped_append:
  assumes "bars_escaped v" and "bars_escaped w"
  shows "bars_escaped (v @ w)"
  unfolding bars_escaped_def
proof (intro allI impI)
  fix i assume i: "i < length (v @ w)" "(v @ w) ! i = CHR ''|''"
  show "0 < i \<and> (v @ w) ! (i - 1) = CHR 0x5C"
  proof (cases "i < length v")
    case True
    then show ?thesis using assms(1) i by (auto simp: bars_escaped_def nth_append)
  next
    case False
    then have "w ! (i - length v) = CHR ''|''" "i - length v < length w" using i by (auto simp: nth_append)
    then have "0 < i - length v \<and> w ! (i - length v - 1) = CHR 0x5C" using assms(2) by (auto simp: bars_escaped_def)
    then show ?thesis by (auto simp: nth_append)
  qed
qed

lemma md_ch_safe:
  "set (md_ch c) \<inter> {newline, CHR ''<'', CHR ''>'', CHR 0x22, CHR 0x27} = {}" "bars_escaped (md_ch c)"
proof -
  show "set (md_ch c) \<inter> {newline, CHR ''<'', CHR ''>'', CHR 0x22, CHR 0x27} = {}"
    by (simp add: md_ch_def html_ch_def newline_def)
  have "\<forall>x \<in> set (html_ch c). x = CHR ''|'' \<longrightarrow> c = CHR ''|''"
    by (simp add: html_ch_def)
  then have "c \<noteq> CHR ''|'' \<Longrightarrow> bars_escaped (html_ch c)"
    unfolding bars_escaped_def by (metis nth_mem)
  then show "bars_escaped (md_ch c)"
    by (auto simp: md_ch_def bars_escaped_def nth_Cons split: nat.splits)
qed

text \<open>A label never changes the structure of the report: the text of \<open>_md_text\<close> has no newline,
  no angle bracket and no quotation mark, and each bar in it follows a backslash.\<close>

lemma md_text_safe:
  "set (md_text s) \<inter> {newline, CHR ''<'', CHR ''>'', CHR 0x22, CHR 0x27} = {} \<and> bars_escaped (md_text s)"
proof -
  have "set (concat (map md_ch s)) \<inter> {newline, CHR ''<'', CHR ''>'', CHR 0x22, CHR 0x27} = {}"
    using md_ch_safe(1) by (induction s) (simp_all only: concat.simps list.map set_append Int_Un_distrib2 Un_empty set_simps Int_empty_left simp_thms)
  moreover have "bars_escaped (concat (map md_ch s))"
    by (induction s) (auto intro: bars_escaped_append md_ch_safe(2) simp: bars_escaped_def [of "[]"])
  ultimately show ?thesis unfolding md_text_chars by blast
qed

end
