(* ===== verification/Packs.thy ===== *)
theory Packs
  imports Config
begin

text \<open>
  Benchmark packs (\<open>src/llm_hardtest/packs.py\<close>): the checks of a pack manifest, the selection of
  its assets and the content fingerprint.

  The pack directory is its manifest and what \<open>Path.glob\<close> returns for a pattern; an entry knows its
  path below the root, whether it is a file, the path it resolves to when that lies below the root,
  and its bytes. \<open>sha\<close> is the hexadecimal SHA-256 and \<open>dumps\<close> the compact sorted \<open>json.dumps\<close>.
\<close>

section \<open>The code\<close>

record asset =
  as_parts :: "string list"
  as_file :: bool
  as_resolved :: "string option"
  as_bytes :: string

record pack_dir =
  pk_manifest :: "pyval option"
  pk_glob :: "string \<Rightarrow> asset list res"

record pack_info =
  pi_id :: string
  pi_title :: string
  pi_runner :: string
  pi_units :: int
  pi_fingerprint :: string
  pi_assets :: "string list"

definition CAPABILITIES :: "string list" where
  "CAPABILITIES = [''chat_completions'', ''responses'', ''filesystem'', ''multi_turn'']"

definition RUNNER_KINDS :: "string list" where
  "RUNNER_KINDS = [''reasoning'', ''structured'', ''coding_agent'']"

definition GENERATED_PARTS :: "string list" where
  "GENERATED_PARTS = [''__pycache__'', ''.pytest_cache'', ''.mypy_cache'', ''.ruff_cache'']"

text \<open>\<open>path.suffix\<close> of a file name: from its last dot, which neither starts nor ends the name.\<close>

definition suffix_of :: "string \<Rightarrow> string" where
  "suffix_of nm =
     (case str_rfind ''.'' nm of
        None \<Rightarrow> []
      | Some i \<Rightarrow> if 0 < i \<and> i < length nm - 1 then drop i nm else [])"

definition generated :: "asset \<Rightarrow> bool" where
  "generated a =
     (let nm = (if as_parts a = [] then [] else last (as_parts a)) in
      list_ex (\<lambda>p. p \<in> set GENERATED_PARTS) (as_parts a) \<or> suffix_of nm \<in> {''.pyc'', ''.pyo''}
      \<or> nm \<in> {''.DS_Store'', ''.coverage''})"

definition posix_parts :: "string \<Rightarrow> string list" where
  "posix_parts s = filter (\<lambda>p. p \<noteq> [] \<and> p \<noteq> ''.'') (split_on (CHR ''/'') s)"

definition safe_pattern :: "pyval \<Rightarrow> string res" where
  "safe_pattern v =
     (case v of
        PStr s \<Rightarrow>
          if s = [] then Inl (ValueError ''pack assets must be non-empty relative path patterns'')
          else if starts_with ''/'' s \<or> ''..'' \<in> set (posix_parts s) \<or> CHR 0x5C \<in> set s
          then Inl (ValueError ''unsafe pack asset pattern'')
          else Inr s
      | _ \<Rightarrow> Inl (ValueError ''pack assets must be non-empty relative path patterns''))"

definition add_match :: "(string, string) dict \<Rightarrow> asset \<Rightarrow> (string, string) dict res" where
  "add_match files a =
     (case as_resolved a of
        None \<Rightarrow> Inl (ValueError ''pack asset escapes its directory'')
      | Some rel \<Rightarrow> Inr (AList.update rel (as_bytes a) files))"

definition add_pattern :: "pack_dir \<Rightarrow> (string, string) dict \<Rightarrow> pyval \<Rightarrow> (string, string) dict res" where
  "add_pattern d files raw =
     res_bind (safe_pattern raw) (\<lambda>pattern.
     res_bind (pk_glob d pattern) (\<lambda>paths.
       let found = filter (\<lambda>a. as_file a \<and> \<not> generated a) paths in
       if found = [] then Inl (ValueError ''pack asset pattern matched no files'')
       else res_fold add_match files found))"

definition asset_files :: "pack_dir \<Rightarrow> pyval list \<Rightarrow> (string \<times> string) list res" where
  "asset_files d patterns = res_bind (res_fold (add_pattern d) [] patterns) (\<lambda>files. Inr (sort_key fst files))"

definition pack_id_ch :: "char \<Rightarrow> bool" where
  "pack_id_ch c \<longleftrightarrow> ch_lower c \<or> ch_digit c"

definition pack_id_ok :: "string \<Rightarrow> bool" where
  "pack_id_ok s =
     (case s of [] \<Rightarrow> False
      | c # r \<Rightarrow> pack_id_ch c \<and> list_all (\<lambda>x. pack_id_ch x \<or> x \<in> set ''._-'') r)"

definition check_positive :: "jobj \<Rightarrow> string \<Rightarrow> unit res" where
  "check_positive m k =
     (case jget m k of
        PInt i \<Rightarrow> fail_if (i < 1) (ValueError (''pack '' @ k @ '' must be a positive integer''))
      | _ \<Rightarrow> Inl (ValueError (''pack '' @ k @ '' must be a positive integer'')))"

definition check_capabilities :: "jobj \<Rightarrow> unit res" where
  "check_capabilities m =
     (case jget m ''capabilities'' of
        PList vs \<Rightarrow>
          if \<not> list_all hashable vs then Inl (TypeError ''unhashable type'')
          else fail_if (\<not> py_distinct vs \<or> list_ex (\<lambda>v. v \<notin> set (map PStr CAPABILITIES)) vs)
                 (ValueError ''pack capabilities are invalid or duplicated'')
      | _ \<Rightarrow> Inl (ValueError ''pack capabilities are invalid or duplicated''))"

definition nonempty_str :: "pyval \<Rightarrow> bool" where
  "nonempty_str v = (case v of PStr s \<Rightarrow> s \<noteq> [] | _ \<Rightarrow> False)"

definition check_control :: "pyval \<Rightarrow> pyval res" where
  "check_control v =
     (case v of
        PDict c \<Rightarrow>
          res_bind (in_str_set (jget c ''kind'') [''positive'', ''negative'']) (\<lambda>known.
            if known \<and> (case jget c ''command'' of PList ps \<Rightarrow> ps \<noteq> [] \<and> list_all nonempty_str ps | _ \<Rightarrow> False)
            then Inr (jget c ''id'')
            else Inl (ValueError ''pack controls require kind and an argument-array command''))
      | _ \<Rightarrow> Inl (ValueError ''every pack control must be a JSON object''))"

definition check_controls :: "jobj \<Rightarrow> unit res" where
  "check_controls m =
     (case jget_or m ''controls'' (PList []) of
        PList cs \<Rightarrow>
          res_bind (res_map check_control cs) (\<lambda>ids.
            if \<not> list_all nonempty_str ids then Inl (ValueError ''pack control ids are required'')
            else fail_if (\<not> distinct ids) (ValueError ''pack control ids must be unique''))
      | _ \<Rightarrow> Inl (ValueError ''pack controls must be a JSON list''))"

definition check_manifest :: "jobj \<Rightarrow> unit res" where
  "check_manifest m =
     res_seq
       [fail_if (\<not> py_eq (jget m ''schema_version'') (PInt 1)) (ValueError ''unsupported pack schema_version''),
        fail_if (\<not> (case jget m ''id'' of PStr s \<Rightarrow> pack_id_ok s | _ \<Rightarrow> False)) (ValueError ''pack id must be lowercase and filesystem-safe''),
        fail_if (\<not> (case jget m ''title'' of PStr s \<Rightarrow> str_strip s \<noteq> [] | _ \<Rightarrow> False)) (ValueError ''pack title is required''),
        res_bind (in_str_set (jget m ''runner_kind'') RUNNER_KINDS) (\<lambda>known. fail_if (\<not> known) (ValueError ''unsupported pack runner_kind'')),
        check_capabilities m,
        check_positive m ''unit_count'', check_positive m ''time_limit_seconds'',
        fail_if (\<not> nonempty_str (jget m ''result_schema'')) (ValueError ''pack result_schema is required'')]"

text \<open>The bytes that are hashed.\<close>

definition digest_input :: "(pyval \<Rightarrow> string) \<Rightarrow> jobj \<Rightarrow> (string \<times> string) list \<Rightarrow> string" where
  "digest_input dumps m files =
     dumps (PDict (AList.delete ''fingerprint'' m)) @ concat (map (\<lambda>(rel, bytes). rel @ [CHR 0x00] @ bytes) files)"

definition str_of :: "pyval \<Rightarrow> string" where
  "str_of v = (case v of PStr s \<Rightarrow> s | _ \<Rightarrow> [])"

definition int_of :: "pyval \<Rightarrow> int" where
  "int_of v = (case v of PInt i \<Rightarrow> i | _ \<Rightarrow> 0)"

definition validate_pack :: "(string \<Rightarrow> string) \<Rightarrow> (pyval \<Rightarrow> string) \<Rightarrow> pack_dir \<Rightarrow> pack_info res" where
  "validate_pack sha dumps d =
     (case pk_manifest d of
        None \<Rightarrow> Inl (ValueError ''pack has no manifest.json'')
      | Some (PDict m) \<Rightarrow>
          res_bind (check_manifest m) (\<lambda>_.
          res_bind (case jget m ''assets'' of
                      PList (p # ps) \<Rightarrow> Inr (p # ps)
                    | _ \<Rightarrow> Inl (ValueError ''pack assets must be a non-empty JSON list'')) (\<lambda>patterns.
          res_bind (asset_files d patterns) (\<lambda>files.
          res_bind (check_controls m) (\<lambda>_.
            let fingerprint = ''sha256:'' @ sha (digest_input dumps m files) in
            if jget m ''fingerprint'' \<noteq> PNone \<and> jget m ''fingerprint'' \<noteq> PStr fingerprint
            then Inl (ValueError ''pack fingerprint does not match its manifest and assets'')
            else Inr \<lparr>pi_id = str_of (jget m ''id''), pi_title = str_of (jget m ''title''),
                      pi_runner = str_of (jget m ''runner_kind''), pi_units = int_of (jget m ''unit_count''),
                      pi_fingerprint = fingerprint, pi_assets = map fst files\<rparr>))))
      | Some _ \<Rightarrow> Inl (ValueError ''pack manifest must be a JSON object''))"

section \<open>What an accepted pack is\<close>

definition asset_from :: "pack_dir \<Rightarrow> pyval list \<Rightarrow> string \<Rightarrow> bool" where
  "asset_from d patterns rel \<longleftrightarrow>
     list_ex (\<lambda>p. case res_bind (safe_pattern p) (pk_glob d) of Inl _ \<Rightarrow> False
        | Inr as \<Rightarrow> list_ex (\<lambda>a. as_file a \<and> \<not> generated a \<and> as_resolved a = Some rel) as) patterns"

lemma add_match_fold:
  "res_fold add_match files as = Inr files' \<Longrightarrow>
     fst ` set files' = fst ` set files \<union> {r. \<exists>a \<in> set as. as_resolved a = Some r} \<and> (dict_wf files \<longrightarrow> dict_wf files')"
proof (induction "as" arbitrary: files)
  case (Cons a "as")
  obtain rel where a: "as_resolved a = Some rel"
    using Cons.prems(1) by (cases "as_resolved a") (simp_all add: add_match_def)
  have f: "res_fold add_match (AList.update rel (as_bytes a) files) as = Inr files'"
    using Cons.prems(1) a by (simp add: add_match_def [of files a])
  show ?case using Cons.IH [OF f] a by (auto simp: dict_wf_update dom_update)
qed simp

lemma add_pattern_inv:
  assumes "add_pattern d files p = Inr files'"
  shows "dict_wf files \<Longrightarrow> dict_wf files'" and "files' \<noteq> []"
    and "rel \<in> fst ` set files' \<Longrightarrow> rel \<in> fst ` set files \<or> asset_from d [p] rel"
proof -
  obtain s as' where s: "safe_pattern p = Inr s" "pk_glob d s = Inr as'"
    and ne: "filter (\<lambda>a. as_file a \<and> \<not> generated a) as' \<noteq> []"
    and f: "res_fold add_match files (filter (\<lambda>a. as_file a \<and> \<not> generated a) as') = Inr files'"
    using assms unfolding add_pattern_def by (auto simp: res_bind_Inr_iff Let_def split: if_splits)
  note k = add_match_fold [OF f]
  show "dict_wf files \<Longrightarrow> dict_wf files'" using k by blast
  obtain a r where a: "filter (\<lambda>a. as_file a \<and> \<not> generated a) as' = a # r"
    using ne by (cases "filter (\<lambda>a. as_file a \<and> \<not> generated a) as'") auto
  then obtain r0 where "as_resolved a = Some r0"
    using f by (cases "as_resolved a") (simp_all add: add_match_def)
  then show "files' \<noteq> []" using k a by auto
  show "rel \<in> fst ` set files' \<Longrightarrow> rel \<in> fst ` set files \<or> asset_from d [p] rel"
    using k by (auto simp: asset_from_def s list_ex_iff)
qed

lemma add_patterns_inv:
  "res_fold (add_pattern d) files ps = Inr files' \<Longrightarrow>
     (dict_wf files \<longrightarrow> dict_wf files') \<and> (ps \<noteq> [] \<longrightarrow> files' \<noteq> [])
     \<and> (\<forall>rel \<in> fst ` set files'. rel \<in> fst ` set files \<or> asset_from d ps rel)"
proof (induction ps arbitrary: files)
  case (Cons p ps)
  obtain mid where m: "add_pattern d files p = Inr mid" "res_fold (add_pattern d) mid ps = Inr files'"
    using Cons.prems(1) by (auto split: sum.splits)
  have cons: "asset_from d (p # ps) rel \<longleftrightarrow> asset_from d [p] rel \<or> asset_from d ps rel" for rel by (simp add: asset_from_def)
  note p = add_pattern_inv [OF m(1)] and IH = Cons.IH [OF m(2)]
  have "files' \<noteq> []" using p(2) IH m(2) by (cases ps) auto
  moreover have "rel \<in> fst ` set files \<or> asset_from d (p # ps) rel" if "rel \<in> fst ` set files'" for rel
    using IH p(3) [of rel] cons that by blast
  ultimately show ?case using p(1) IH by blast
qed simp

lemma asset_files_ok:
  assumes "asset_files d ps = Inr files" and "ps \<noteq> []"
  shows "sorted (map fst files)" "distinct (map fst files)" "files \<noteq> []" "list_all (asset_from d ps) (map fst files)"
proof -
  obtain fs where f: "res_fold (add_pattern d) [] ps = Inr fs" "files = sort_key fst fs"
    using assms(1) unfolding asset_files_def by (auto simp: res_bind_Inr_iff)
  show "sorted (map fst files)" using f(2) by simp
  have "dict_wf fs" using add_patterns_inv [OF f(1)] by simp
  then show "distinct (map fst files)" by (simp add: f(2) dict_wf_def distinct_map inj_on_def)
  have "fs \<noteq> []" using add_patterns_inv [OF f(1)] assms(2) by blast
  then show "files \<noteq> []" unfolding f(2) by (metis set_empty set_sort)
  show "list_all (asset_from d ps) (map fst files)"
    using add_patterns_inv [OF f(1)] by (fastforce simp: f(2) list_all_iff)
qed

lemma check_manifest_Inr:
  assumes "check_manifest m = Inr ()"
  shows "\<exists>i t k u. jget m ''id'' = PStr i \<and> pack_id_ok i \<and> jget m ''title'' = PStr t \<and> jget m ''runner_kind'' = PStr k
    \<and> k \<in> set RUNNER_KINDS \<and> jget m ''unit_count'' = PInt u \<and> 1 \<le> u"
proof -
  have c: "case jget m ''id'' of PStr s \<Rightarrow> pack_id_ok s | _ \<Rightarrow> False" "case jget m ''title'' of PStr s \<Rightarrow> str_strip s \<noteq> [] | _ \<Rightarrow> False"
    "res_bind (in_str_set (jget m ''runner_kind'') RUNNER_KINDS) (\<lambda>known. fail_if (\<not> known) (ValueError ''unsupported pack runner_kind'')) = Inr ()"
    "check_positive m ''unit_count'' = Inr ()"
    using assms unfolding check_manifest_def by simp_all
  obtain i where "jget m ''id'' = PStr i" "pack_id_ok i" using c(1) by (cases "jget m ''id''") simp_all
  moreover obtain t where "jget m ''title'' = PStr t" using c(2) by (cases "jget m ''title''") simp_all
  moreover obtain k where "jget m ''runner_kind'' = PStr k" "k \<in> set RUNNER_KINDS"
    using c(3) unfolding in_str_set_def by (auto split: if_splits)
  moreover obtain u where "jget m ''unit_count'' = PInt u" "1 \<le> u"
    using c(4) unfolding check_positive_def by (cases "jget m ''unit_count''") simp_all
  ultimately show ?thesis by blast
qed

text \<open>C19. An accepted pack is well formed: its id is safe for the file system, its runner is known,
  it has at least one unit; its assets are a non-empty sorted list without duplicates of files that a
  safe pattern of the manifest matches, that are not generated and that lie below the pack; and a
  declared fingerprint is the one of its manifest and assets.\<close>

theorem validate_pack_sound:
  assumes "validate_pack sha dumps d = Inr info"
  shows "\<exists>m ps files. pk_manifest d = Some (PDict m) \<and> jget m ''assets'' = PList ps \<and> asset_files d ps = Inr files
    \<and> pi_id info \<noteq> [] \<and> pack_id_ok (pi_id info) \<and> pi_runner info \<in> set RUNNER_KINDS \<and> 1 \<le> pi_units info
    \<and> pi_assets info = map fst files \<and> files \<noteq> [] \<and> sorted (pi_assets info) \<and> distinct (pi_assets info)
    \<and> list_all (asset_from d ps) (pi_assets info)
    \<and> pi_fingerprint info = ''sha256:'' @ sha (digest_input dumps m files)
    \<and> jget m ''fingerprint'' \<in> {PNone, PStr (pi_fingerprint info)}"
proof -
  obtain m where m: "pk_manifest d = Some (PDict m)"
    using assms unfolding validate_pack_def by (auto split: option.splits pyval.splits)
  obtain ps where ps: "jget m ''assets'' = PList ps" "ps \<noteq> []"
    using assms unfolding validate_pack_def
    by (auto simp: m res_bind_Inr_iff split: pyval.splits list.splits)
  obtain p qs where pq: "ps = p # qs" using ps(2) by (cases ps) auto
  obtain files where ok: "check_manifest m = Inr ()" and f: "asset_files d ps = Inr files"
    and fp: "jget m ''fingerprint'' = PNone \<or> jget m ''fingerprint'' = PStr (''sha256:'' @ sha (digest_input dumps m files))"
    and info: "info = \<lparr>pi_id = str_of (jget m ''id''), pi_title = str_of (jget m ''title''),
                      pi_runner = str_of (jget m ''runner_kind''), pi_units = int_of (jget m ''unit_count''),
                      pi_fingerprint = ''sha256:'' @ sha (digest_input dumps m files), pi_assets = map fst files\<rparr>"
    using assms unfolding validate_pack_def
    by (simp add: m ps pq res_bind_Inr_iff Let_def split: if_splits) blast+
  obtain i t k u where v: "jget m ''id'' = PStr i" "pack_id_ok i" "jget m ''runner_kind'' = PStr k" "k \<in> set RUNNER_KINDS"
      "jget m ''unit_count'' = PInt u" "1 \<le> u"
    using check_manifest_Inr [OF ok] by blast
  have "i \<noteq> []" using v(2) by (auto simp: pack_id_ok_def)
  then show ?thesis
    using m ps(1) f v fp asset_files_ok [OF f ps(2)]
    by (intro exI [of _ m] exI [of _ ps] exI [of _ files]) (simp add: info str_of_def int_of_def)
qed

section \<open>What the fingerprint fixes\<close>

lemma digest_parts_inj:
  assumes "concat (map (\<lambda>(rel, bytes). rel @ [CHR 0x00] @ bytes) fs) = concat (map (\<lambda>(rel, bytes). rel @ [CHR 0x00] @ bytes) gs)"
    and "map fst fs = map fst gs" and "map (length \<circ> snd) fs = map (length \<circ> snd) gs"
  shows "fs = gs"
  using assms
proof (induction fs arbitrary: gs)
  case (Cons f fs)
  obtain g gs' where gs: "gs = g # gs'" using Cons.prems(2) by (cases gs) auto
  obtain r b c where f: "f = (r, b)" "g = (r, c)" "length b = length c"
    using Cons.prems(2,3) gs by (cases f; cases g) auto
  have "b = c \<and> concat (map (\<lambda>(rel, bytes). rel @ [CHR 0x00] @ bytes) fs) = concat (map (\<lambda>(rel, bytes). rel @ [CHR 0x00] @ bytes) gs')"
    using Cons.prems(1) f by (simp add: gs)
  then show ?case using Cons.IH [of gs'] Cons.prems(2,3) f by (simp add: gs)
qed simp


definition demo_manifest :: jobj where
  "demo_manifest =
     [(''schema_version'', PInt 1), (''id'', PStr ''demo''), (''title'', PStr ''Demo''), (''runner_kind'', PStr ''reasoning''),
      (''capabilities'', PList [PStr ''responses'']), (''unit_count'', PInt 1), (''time_limit_seconds'', PInt 60),
      (''result_schema'', PStr ''v1''), (''assets'', PList [PStr ''data/*''])]"

definition demo_asset :: "string \<Rightarrow> string \<Rightarrow> asset" where
  "demo_asset nm bytes = \<lparr>as_parts = [nm], as_file = True, as_resolved = Some nm, as_bytes = bytes\<rparr>"

definition demo_pack :: "(string \<times> string) list \<Rightarrow> pack_dir" where
  "demo_pack fs = \<lparr>pk_manifest = Some (PDict demo_manifest), pk_glob = (\<lambda>_. Inr (map (\<lambda>(n, b). demo_asset n b) fs))\<rparr>"

lemma demo_manifest_ok:
  "check_manifest demo_manifest = Inr ()" "check_controls demo_manifest = Inr ()" "jget demo_manifest ''assets'' = PList [PStr ''data/*'']"
  "jget demo_manifest ''fingerprint'' = PNone" "safe_pattern (PStr ''data/*'') = Inr ''data/*''"
  by code_simp+

lemma demo_pack_files:
  "asset_files (demo_pack [(''a'', ''x''), (''b'', ''y'')]) [PStr ''data/*''] = Inr [(''a'', ''x''), (''b'', ''y'')]"
  "asset_files (demo_pack [(''a'', []), (''xb'', ''y'')]) [PStr ''data/*''] = Inr [(''a'', []), (''xb'', ''y'')]"
  by code_simp+

lemma demo_pack_valid:
  assumes "asset_files (demo_pack fs) [PStr ''data/*''] = Inr files"
  shows "\<exists>info. validate_pack sha dumps (demo_pack fs) = Inr info \<and> pi_assets info = map fst files
    \<and> pi_fingerprint info = ''sha256:'' @ sha (digest_input dumps demo_manifest files)"
proof -
  have "pk_manifest (demo_pack fs) = Some (PDict demo_manifest)" by (simp add: demo_pack_def)
  then show ?thesis unfolding validate_pack_def by (simp add: assms demo_manifest_ok Let_def)
qed

text \<open>The fingerprint does not fix the file list: the bytes that are hashed have no lengths, so
  two packs with the same manifest whose files differ in names and content get the same fingerprint,
  whatever the hash function.\<close>

lemma fingerprint_ambiguous:
  "\<exists>d d' info info'. validate_pack sha dumps d = Inr info \<and> validate_pack sha dumps d' = Inr info'
     \<and> pk_manifest d = pk_manifest d' \<and> pi_assets info \<noteq> pi_assets info' \<and> pi_fingerprint info = pi_fingerprint info'"
proof -
  have "digest_input dumps demo_manifest [(''a'', ''x''), (''b'', ''y'')] = digest_input dumps demo_manifest [(''a'', []), (''xb'', ''y'')]"
    by (simp add: digest_input_def)
  moreover have "pk_manifest (demo_pack fs) = pk_manifest (demo_pack gs)" for fs gs by (simp add: demo_pack_def)
  moreover obtain info where "validate_pack sha dumps (demo_pack [(''a'', ''x''), (''b'', ''y'')]) = Inr info" "pi_assets info = [''a'', ''b'']"
      "pi_fingerprint info = ''sha256:'' @ sha (digest_input dumps demo_manifest [(''a'', ''x''), (''b'', ''y'')])"
    using demo_pack_valid [OF demo_pack_files(1)] by auto
  moreover obtain info' where "validate_pack sha dumps (demo_pack [(''a'', []), (''xb'', ''y'')]) = Inr info'" "pi_assets info' = [''a'', ''xb'']"
      "pi_fingerprint info' = ''sha256:'' @ sha (digest_input dumps demo_manifest [(''a'', []), (''xb'', ''y'')])"
    using demo_pack_valid [OF demo_pack_files(2)] by auto
  ultimately show ?thesis by (intro exI conjI) (assumption | simp)+
qed

theorem validate_pack_sound_witness:
  "\<exists>info. validate_pack id (\<lambda>_. []) (demo_pack [(''a'', ''x''), (''b'', ''y'')]) = Inr info \<and> 1 \<le> pi_units info"
proof -
  obtain info where i: "validate_pack id (\<lambda>_. []) (demo_pack [(''a'', ''x''), (''b'', ''y'')]) = Inr info"
    using demo_pack_valid [OF demo_pack_files(1)] by blast
  then show ?thesis using validate_pack_sound [OF i] by blast
qed


end
