(* ===== verification/Taskhub.thy ===== *)
theory Taskhub
  imports Py_Prelude "HOL-Library.Multiset"
begin

text \<open>
  The concurrent repository of round 4 (\<open>src/rounds/round4/q27_race/repo/taskhub\<close>): counters, the
  versioned result store, the retry policy and the worker pool.

  The unit of interleaving is what the code does under one lock or in one queue operation. A job is
  its id, its key and the number of attempts made; what its callable does is an \<open>outcome\<close> that a
  step chooses. Keys are strings, values JSON values, times rationals. Tracepoints do nothing without
  a controller and are left out.
\<close>

section \<open>Metrics and the result store\<close>

datatype job_exn = PermanentError | OtherException string

record entry =
  en_value :: pyval
  en_generation :: int

record snapshot =
  sn_key :: string
  sn_generation :: int

record store =
  s_entries :: "(string, entry) dict"
  s_generations :: "(string, int) dict"
  s_cancelled :: "nat list"
  s_failures :: "(nat, job_exn) dict"
  s_metrics :: "(string, int) dict"

definition new_store :: store where
  "new_store = \<lparr>s_entries = [], s_generations = [], s_cancelled = [], s_failures = [], s_metrics = []\<rparr>"

definition incr :: "string \<Rightarrow> store \<Rightarrow> store" where
  "incr nm s = s\<lparr>s_metrics := AList.update nm (dict_get (s_metrics s) nm 0 + 1) (s_metrics s)\<rparr>"

definition generation_of :: "store \<Rightarrow> string \<Rightarrow> int" where
  "generation_of s key = dict_get (s_generations s) key 0"

definition entry_of_key :: "store \<Rightarrow> string \<Rightarrow> entry option" where
  "entry_of_key s key = map_of (s_entries s) key"

definition store_get :: "string \<Rightarrow> pyval \<Rightarrow> store \<Rightarrow> pyval \<times> store" where
  "store_get key dflt s =
     (case entry_of_key s key of
        None \<Rightarrow> (dflt, incr ''misses'' s)
      | Some e \<Rightarrow> (en_value e, incr ''hits'' s))"

definition store_keys :: "store \<Rightarrow> string list" where
  "store_keys s = sort (remdups (map fst (s_entries s) @ map fst (s_generations s)))"

definition stale_entries :: "store \<Rightarrow> (string \<times> int \<times> int \<times> pyval) list" where
  "stale_entries s =
     sort_key fst (map (\<lambda>(k, e). (k, en_generation e, generation_of s k, en_value e))
       (filter (\<lambda>(k, e). en_generation e \<noteq> generation_of s k) (s_entries s)))"

definition store_stats :: "store \<Rightarrow> (string, int) dict" where
  "store_stats s =
     AList.update ''failed_jobs'' (int (length (s_failures s)))
       (AList.update ''cancelled'' (int (length (s_cancelled s)))
         (AList.update ''entries'' (int (length (s_entries s))) (s_metrics s)))"

definition store_begin :: "string \<Rightarrow> store \<Rightarrow> snapshot" where
  "store_begin key s = \<lparr>sn_key = key, sn_generation = generation_of s key\<rparr>"

definition store_commit :: "snapshot \<Rightarrow> pyval \<Rightarrow> store \<Rightarrow> store" where
  "store_commit sn v s =
     incr ''commits'' (s\<lparr>s_entries := AList.update (sn_key sn) \<lparr>en_value = v, en_generation = sn_generation sn\<rparr> (s_entries s)\<rparr>)"

definition store_invalidate :: "string \<Rightarrow> store \<Rightarrow> store" where
  "store_invalidate key s =
     incr ''invalidations''
       (s\<lparr>s_generations := AList.update key (generation_of s key + 1) (s_generations s), s_entries := AList.delete key (s_entries s)\<rparr>)"

definition add_cancelled :: "nat \<Rightarrow> store \<Rightarrow> store" where
  "add_cancelled j s = incr ''cancelled'' (s\<lparr>s_cancelled := (if j \<in> set (s_cancelled s) then s_cancelled s else s_cancelled s @ [j])\<rparr>)"

definition mark_cancelled :: "nat list \<Rightarrow> store \<Rightarrow> store" where
  "mark_cancelled js s = fold add_cancelled js s"

definition record_failure :: "nat \<Rightarrow> job_exn \<Rightarrow> store \<Rightarrow> store" where
  "record_failure j e s = incr ''failures'' (s\<lparr>s_failures := AList.update j e (s_failures s)\<rparr>)"

definition store_clear :: "store \<Rightarrow> store" where
  "store_clear s = s\<lparr>s_entries := [], s_generations := [], s_cancelled := [], s_failures := [], s_metrics := []\<rparr>"

section \<open>The retry policy\<close>

record policy =
  rp_max_attempts :: int
  rp_base :: rat
  rp_multiplier :: rat
  rp_max_delay :: rat
  rp_jitter :: rat

definition new_policy :: "int \<Rightarrow> rat \<Rightarrow> rat \<Rightarrow> rat \<Rightarrow> rat \<Rightarrow> policy res" where
  "new_policy n base factor mx jitter =
     (if n < 1 then Inl (ValueError ''max_attempts must be >= 1'')
      else Inr \<lparr>rp_max_attempts = n, rp_base = base, rp_multiplier = factor, rp_max_delay = mx, rp_jitter = jitter\<rparr>)"

definition should_retry :: "policy \<Rightarrow> int \<Rightarrow> job_exn \<Rightarrow> bool" where
  "should_retry p attempts e = (case e of PermanentError \<Rightarrow> False | OtherException _ \<Rightarrow> attempts < rp_max_attempts p)"

text \<open>\<open>rnd\<close> is the next number of the seeded generator.\<close>

definition next_delay :: "policy \<Rightarrow> rat \<Rightarrow> int \<Rightarrow> rat" where
  "next_delay p rnd attempts =
     (let d = min (rp_max_delay p) (rp_base p * rp_multiplier p ^ nat (max 1 attempts - 1)) in
      if rp_jitter p \<noteq> 0 then d + rnd * rp_jitter p else d)"

definition policy_delays :: "policy \<Rightarrow> (int \<Rightarrow> rat) \<Rightarrow> rat list" where
  "policy_delays p rnd = map (\<lambda>n. next_delay p (rnd n) n) [1..rp_max_attempts p - 1]"

section \<open>The worker pool\<close>

record job =
  j_id :: nat
  j_key :: string
  j_attempts :: int

record pool =
  p_queue :: "job list"
  p_pending :: int
  p_inflight :: int
  p_completed :: "nat list"
  p_stopping :: bool

datatype outcome = Returns pyval | Raises job_exn

text \<open>Where a worker thread is: at the head of its loop, in \<open>queue.get\<close>, between \<open>queue.get\<close> and the counters, in
  \<open>_run\<close> before the snapshot, in the callable, about to put a job back (before and after the counter
  of \<open>submit\<close>), before and after \<open>_claim_completion\<close>, in the \<open>finally\<close> block, out of the loop.\<close>

datatype loc = Idle | Polling | Got job | Began job | Running job snapshot | Retrying job | Putting job
  | Computed job snapshot pyval | Claimed job snapshot pyval | Leaving | Exited

definition count_up :: "pool \<Rightarrow> pool" where
  "count_up p = p\<lparr>p_pending := p_pending p + 1\<rparr>"

definition put_job :: "job \<Rightarrow> pool \<Rightarrow> pool" where
  "put_job j p = p\<lparr>p_queue := p_queue p @ [j]\<rparr>"

definition after_raise :: "policy \<Rightarrow> job \<Rightarrow> job_exn \<Rightarrow> store \<Rightarrow> loc \<times> store" where
  "after_raise pol j e s =
     (let j' = j\<lparr>j_attempts := j_attempts j + 1\<rparr> in
      if should_retry pol (j_attempts j') e then (Retrying j', incr ''retries'' s)
      else (Leaving, record_failure (j_id j) e (incr ''jobs_failed'' s)))"

text \<open>One step of a worker; \<open>None\<close> when the thread waits or has ended.\<close>

fun worker_step :: "policy \<Rightarrow> outcome \<Rightarrow> loc \<Rightarrow> pool \<Rightarrow> store \<Rightarrow> (loc \<times> pool \<times> store) option" where
  "worker_step pol oc Idle p s =
     Some (if p_stopping p then Exited else Polling, p, s)"
| "worker_step pol oc Polling p s =
     (case p_queue p of [] \<Rightarrow> None | j # q \<Rightarrow> Some (Got j, p\<lparr>p_queue := q\<rparr>, s))"
| "worker_step pol oc (Got j) p s =
     Some (Began j, p\<lparr>p_pending := p_pending p - 1, p_inflight := p_inflight p + 1\<rparr>, s)"
| "worker_step pol oc (Began j) p s = Some (Running j (store_begin (j_key j) s), p, s)"
| "worker_step pol oc (Running j sn) p s =
     (case oc of
        Returns v \<Rightarrow> Some (Computed j sn v, p, s)
      | Raises e \<Rightarrow> (case after_raise pol j e s of (l, s') \<Rightarrow> Some (l, p, s')))"
| "worker_step pol oc (Retrying j) p s = Some (Putting j, count_up p, s)"
| "worker_step pol oc (Putting j) p s = Some (Leaving, put_job j p, s)"
| "worker_step pol oc (Computed j sn v) p s =
     (if j_id j \<in> set (p_completed p) then Some (Leaving, p, incr ''duplicate_completions'' s)
      else Some (Claimed j sn v, p\<lparr>p_completed := p_completed p @ [j_id j]\<rparr>, s))"
| "worker_step pol oc (Claimed j sn v) p s = Some (Leaving, p, incr ''jobs_done'' (store_commit sn v s))"
| "worker_step pol oc Leaving p s = Some (Idle, p\<lparr>p_inflight := p_inflight p - 1\<rparr>, s)"
| "worker_step pol oc Exited p s = None"

text \<open>Other threads: a submitter between its two steps, a canceller that empties the queue and one
  that has corrected the counter and is about to record the cancellations.\<close>

datatype client = Submitting job | Draining "job list" | Marking "job list"

fun client_step :: "client \<Rightarrow> pool \<Rightarrow> store \<Rightarrow> client option \<times> pool \<times> store" where
  "client_step (Submitting j) p s = (None, put_job j p, s)"
| "client_step (Draining ds) p s =
     (case p_queue p of
        j # q \<Rightarrow> (Some (Draining (ds @ [j])), p\<lparr>p_queue := q\<rparr>, s)
      | [] \<Rightarrow> if ds = [] then (None, p, s)
              else (Some (Marking ds), p\<lparr>p_pending := p_pending p - int (length ds)\<rparr>, s))"
| "client_step (Marking ds) p s = (None, p, mark_cancelled (map j_id ds) s)"

section \<open>The hub\<close>

record hub =
  h_store :: store
  h_pool :: pool
  h_workers :: "loc list"
  h_clients :: "client list"
  h_next :: nat

definition start_hub :: "nat \<Rightarrow> hub res" where
  "start_hub workers =
     (if workers < 1 then Inl (ValueError ''size must be >= 1'')
      else Inr \<lparr>h_store = new_store,
        h_pool = \<lparr>p_queue = [], p_pending = 0, p_inflight = 0, p_completed = [], p_stopping = False\<rparr>,
        h_workers = replicate workers Idle, h_clients = [], h_next = 1\<rparr>)"

definition hub_submit :: "string \<Rightarrow> hub \<Rightarrow> hub" where
  "hub_submit key h =
     h\<lparr>h_pool := count_up (h_pool h), h_next := h_next h + 1,
       h_clients := h_clients h @ [Submitting \<lparr>j_id = h_next h, j_key = key, j_attempts = 0\<rparr>]\<rparr>"

definition hub_cancel :: "hub \<Rightarrow> hub" where
  "hub_cancel h = h\<lparr>h_clients := h_clients h @ [Draining []]\<rparr>"

definition hub_invalidate :: "string \<Rightarrow> hub \<Rightarrow> hub" where
  "hub_invalidate key h = h\<lparr>h_store := store_invalidate key (h_store h)\<rparr>"

definition hub_stop :: "hub \<Rightarrow> hub" where
  "hub_stop h = h\<lparr>h_pool := (h_pool h)\<lparr>p_stopping := True\<rparr>\<rparr>"

text \<open>\<open>drain\<close> returns \<open>True\<close> in a state where it finds both counters at zero.\<close>

definition drained :: "hub \<Rightarrow> bool" where
  "drained h \<longleftrightarrow> p_pending (h_pool h) = 0 \<and> p_inflight (h_pool h) = 0"

definition worker_act :: "policy \<Rightarrow> outcome \<Rightarrow> nat \<Rightarrow> hub \<Rightarrow> hub option" where
  "worker_act pol oc i h =
     (if i < length (h_workers h)
      then case worker_step pol oc (h_workers h ! i) (h_pool h) (h_store h) of
             None \<Rightarrow> None
           | Some (l, p, s) \<Rightarrow> Some (h\<lparr>h_workers := (h_workers h)[i := l], h_pool := p, h_store := s\<rparr>)
      else None)"

definition client_act :: "nat \<Rightarrow> hub \<Rightarrow> hub option" where
  "client_act i h =
     (if i < length (h_clients h)
      then case client_step (h_clients h ! i) (h_pool h) (h_store h) of (c, p, s) \<Rightarrow>
             Some (h\<lparr>h_clients := take i (h_clients h) @ (case c of None \<Rightarrow> [] | Some d \<Rightarrow> [d]) @ drop (Suc i) (h_clients h),
                     h_pool := p, h_store := s\<rparr>)
      else None)"

text \<open>The timeout of \<open>queue.get\<close>: the worker looks at the stop flag again.\<close>

definition poll_again :: "nat \<Rightarrow> hub \<Rightarrow> hub option" where
  "poll_again i h =
     (if i < length (h_workers h) \<and> h_workers h ! i = Polling \<and> p_queue (h_pool h) = []
      then Some (h\<lparr>h_workers := (h_workers h)[i := Idle]\<rparr>) else None)"

text \<open>A step that some thread in the middle of an operation can make; a timeout; a new operation.\<close>

inductive progress :: "policy \<Rightarrow> hub \<Rightarrow> hub \<Rightarrow> bool" for pol where
  worker: "worker_act pol oc i h = Some h' \<Longrightarrow> progress pol h h'"
| client: "client_act i h = Some h' \<Longrightarrow> progress pol h h'"

inductive hub_step :: "policy \<Rightarrow> hub \<Rightarrow> hub \<Rightarrow> bool" for pol where
  moves: "progress pol h h' \<Longrightarrow> hub_step pol h h'"
| times_out: "poll_again i h = Some h' \<Longrightarrow> hub_step pol h h'"
| submits: "hub_step pol h (hub_submit key h)"
| cancels: "hub_step pol h (hub_cancel h)"
| invalidates: "hub_step pol h (hub_invalidate key h)"
| stops: "hub_step pol h (hub_stop h)"

inductive reachable :: "policy \<Rightarrow> hub \<Rightarrow> bool" for pol where
  start: "start_hub workers = Inr h \<Longrightarrow> reachable pol h"
| step: "reachable pol h \<Longrightarrow> hub_step pol h h' \<Longrightarrow> reachable pol h'"

inductive_cases progress_cases: "progress pol h h'"
inductive_cases hub_step_cases: "hub_step pol h h'"

end
