(* ===== verification/Taskhub_Run.thy ===== *)
theory Taskhub_Run
  imports Taskhub
begin

text \<open>
  What every interleaving of the hub keeps. \<open>hub_inv\<close> accounts for the two counters of the pool and
  for every job: a job that was submitted is in exactly one place, or has exactly one fate.
\<close>

section \<open>Accounting\<close>

fun loc_jobs :: "loc \<Rightarrow> job list" where
  "loc_jobs (Got j) = [j]" | "loc_jobs (Began j) = [j]" | "loc_jobs (Running j sn) = [j]"
| "loc_jobs (Retrying j) = [j]" | "loc_jobs (Putting j) = [j]" | "loc_jobs (Computed j sn v) = [j]"
| "loc_jobs _ = []"

fun loc_pending :: "loc \<Rightarrow> int" where
  "loc_pending (Got j) = 1" | "loc_pending (Putting j) = 1" | "loc_pending _ = 0"

fun loc_inflight :: "loc \<Rightarrow> int" where
  "loc_inflight Idle = 0" | "loc_inflight Polling = 0" | "loc_inflight (Got j) = 0" | "loc_inflight Exited = 0" | "loc_inflight _ = 1"

fun client_jobs :: "client \<Rightarrow> job list" where
  "client_jobs (Submitting j) = [j]" | "client_jobs (Draining ds) = ds" | "client_jobs (Marking ds) = ds"

fun client_pending :: "client \<Rightarrow> int" where
  "client_pending (Submitting j) = 1" | "client_pending (Draining ds) = int (length ds)" | "client_pending (Marking ds) = 0"

definition ids :: "job list \<Rightarrow> nat multiset" where
  "ids js = mset (map j_id js)"

definition ledger :: "pool \<Rightarrow> store \<Rightarrow> nat multiset" where
  "ledger p s = ids (p_queue p) + mset (p_completed p) + mset (map fst (s_failures s)) + mset (s_cancelled s)"

definition held :: "loc list \<Rightarrow> client list \<Rightarrow> nat multiset" where
  "held ws cs = (\<Sum>l\<leftarrow>ws. ids (loc_jobs l)) + (\<Sum>c\<leftarrow>cs. ids (client_jobs c))"

definition hub_inv :: "hub \<Rightarrow> bool" where
  "hub_inv h \<longleftrightarrow>
     p_pending (h_pool h) = int (length (p_queue (h_pool h))) + (\<Sum>l\<leftarrow>h_workers h. loc_pending l) + (\<Sum>c\<leftarrow>h_clients h. client_pending c)
     \<and> p_inflight (h_pool h) = (\<Sum>l\<leftarrow>h_workers h. loc_inflight l)
     \<and> ledger (h_pool h) (h_store h) + held (h_workers h) (h_clients h) = mset [1..<h_next h] \<and> 1 \<le> h_next h"

lemma ids_simps [simp]: "ids [] = {#}" "ids (j # js) = add_mset (j_id j) (ids js)" "ids (js @ ks) = ids js + ids ks"
  by (simp_all add: ids_def)

lemma sum_list_swap:
  "i < length xs \<Longrightarrow> (\<Sum>x\<leftarrow>xs[i := y]. f x) + f (xs ! i) = (\<Sum>x\<leftarrow>xs. f x) + (f y :: 'a :: comm_monoid_add)"
proof (induction xs arbitrary: i)
  case (Cons x xs)
  then show ?case
  proof (cases i)
    case (Suc k)
    then have "(\<Sum>x\<leftarrow>xs[k := y]. f x) + f (xs ! k) = (\<Sum>x\<leftarrow>xs. f x) + f y" using Cons by simp
    then show ?thesis using Suc by (simp add: add.assoc)
  qed (simp add: ac_simps)
qed simp

lemma sum_list_cut:
  assumes "i < length xs"
  shows "(\<Sum>x\<leftarrow>take i xs @ ys @ drop (Suc i) xs. f x) + f (xs ! i) = (\<Sum>x\<leftarrow>xs. f x) + (\<Sum>y\<leftarrow>ys. (f y :: 'a :: comm_monoid_add))"
proof -
  have "(\<Sum>x\<leftarrow>xs. f x) = (\<Sum>x\<leftarrow>take i xs. f x) + (f (xs ! i) + (\<Sum>x\<leftarrow>drop (Suc i) xs. f x))"
    by (subst id_take_nth_drop [OF assms]) simp
  then show ?thesis by (simp add: ac_simps)
qed

lemma store_parts [simp]:
  "s_failures (incr x s) = s_failures s" "s_cancelled (incr x s) = s_cancelled s" "s_entries (incr x s) = s_entries s"
  "s_generations (incr x s) = s_generations s"
  "s_failures (store_commit sn v s) = s_failures s" "s_cancelled (store_commit sn v s) = s_cancelled s"
  "s_generations (store_commit sn v s) = s_generations s"
  "s_failures (store_invalidate k s) = s_failures s" "s_cancelled (store_invalidate k s) = s_cancelled s"
  "s_generations (record_failure i e s) = s_generations s" "s_entries (record_failure i e s) = s_entries s"
  "s_cancelled (record_failure i e s) = s_cancelled s"
  by (simp_all add: incr_def store_commit_def store_invalidate_def record_failure_def)

lemma failures_record: "i \<notin> fst ` set (s_failures s) \<Longrightarrow> map fst (s_failures (record_failure i e s)) = map fst (s_failures s) @ [i]"
  by (simp add: record_failure_def update_keys)

lemma failures_mset:
  assumes "i \<notin> fst ` set (s_failures s)"
  shows "image_mset fst (mset (s_failures (record_failure i e s))) = add_mset i (image_mset fst (mset (s_failures s)))"
  using arg_cong [OF failures_record [OF assms], of mset] by simp

lemma mark_cancelled_parts:
  "s_failures (mark_cancelled js s) = s_failures s \<and> s_entries (mark_cancelled js s) = s_entries s
   \<and> s_generations (mark_cancelled js s) = s_generations s"
  by (induction js arbitrary: s) (simp_all add: mark_cancelled_def add_cancelled_def)

lemma cancelled_mark:
  "distinct js \<Longrightarrow> set js \<inter> set (s_cancelled s) = {} \<Longrightarrow> s_cancelled (mark_cancelled js s) = s_cancelled s @ js"
  by (induction js arbitrary: s) (simp_all add: mark_cancelled_def add_cancelled_def)

lemma worker_ledger:
  assumes "worker_step pol oc l p s = Some (l', p', s')"
    and "\<forall>j \<in> set (loc_jobs l). j_id j \<notin> set (p_completed p) \<and> j_id j \<notin> fst ` set (s_failures s)"
  shows "ledger p' s' + ids (loc_jobs l') = ledger p s + ids (loc_jobs l)"
  using assms
  by (cases l) (auto simp: ledger_def after_raise_def Let_def count_up_def put_job_def failures_mset
      split: if_splits list.splits outcome.splits)

lemma worker_counters:
  assumes "worker_step pol oc l p s = Some (l', p', s')"
  shows "p_pending p' - int (length (p_queue p')) - loc_pending l' = p_pending p - int (length (p_queue p)) - loc_pending l"
    and "p_inflight p' - loc_inflight l' = p_inflight p - loc_inflight l"
  using assms
  by (cases l; auto simp: after_raise_def Let_def count_up_def put_job_def split: if_splits list.splits outcome.splits)+

lemma client_ledger:
  assumes "client_step c p s = (c', p', s')"
    and "distinct (map j_id (client_jobs c))" and "set (map j_id (client_jobs c)) \<inter> set (s_cancelled s) = {}"
  shows "ledger p' s' + (\<Sum>d\<leftarrow>(case c' of None \<Rightarrow> [] | Some d \<Rightarrow> [d]). ids (client_jobs d)) = ledger p s + ids (client_jobs c)"
proof (cases c)
  case (Marking ds)
  then have "s_cancelled s' = s_cancelled s @ map j_id ds" "c' = None" "p' = p" "s_failures s' = s_failures s"
    using assms cancelled_mark [of "map j_id ds" s] mark_cancelled_parts [of "map j_id ds" s] by auto
  then show ?thesis using Marking by (simp add: ledger_def ids_def)
qed (use assms in \<open>auto simp: ledger_def put_job_def split: list.splits if_splits\<close>)

lemma client_counters:
  assumes "client_step c p s = (c', p', s')"
  shows "p_pending p' - int (length (p_queue p')) - (\<Sum>d\<leftarrow>(case c' of None \<Rightarrow> [] | Some d \<Rightarrow> [d]). client_pending d)
      = p_pending p - int (length (p_queue p)) - client_pending c"
    and "p_inflight p' = p_inflight p"
  using assms by (cases c; auto simp: put_job_def split: list.splits if_splits)+

section \<open>The invariant\<close>

lemma upt_distinct: "mset xs + B = mset [m..<n] \<Longrightarrow> distinct xs \<and> set xs \<inter> set_mset B = {}"
proof -
  assume a: "mset xs + B = mset [m..<n]"
  obtain ys where b: "B = mset ys" by (metis ex_mset)
  have "distinct (xs @ ys)"
    using mset_eq_imp_distinct_iff [of "xs @ ys" "[m..<n]"] a by (simp add: b)
  then show ?thesis by (simp add: b)
qed

lemma upt_once: "A + B = mset [m..<n] \<Longrightarrow> x \<in># A \<Longrightarrow> x \<notin># B"
  by (metis upt_distinct ex_mset set_mset_mset disjoint_iff)

lemma held_worker:
  assumes "i < length ws"
  shows "held (ws[i := l]) cs + ids (loc_jobs (ws ! i)) = held ws cs + ids (loc_jobs l)"
proof -
  have "(\<Sum>l\<leftarrow>ws[i := l]. ids (loc_jobs l)) + ids (loc_jobs (ws ! i)) = (\<Sum>l\<leftarrow>ws. ids (loc_jobs l)) + ids (loc_jobs l)"
    by (rule sum_list_swap [OF assms])
  then show ?thesis by (simp add: held_def ac_simps)
qed

lemma held_client:
  assumes "i < length cs"
  shows "held ws (take i cs @ ds @ drop (Suc i) cs) + ids (client_jobs (cs ! i)) = held ws cs + (\<Sum>d\<leftarrow>ds. ids (client_jobs d))"
proof -
  have "(\<Sum>c\<leftarrow>take i cs @ ds @ drop (Suc i) cs. ids (client_jobs c)) + ids (client_jobs (cs ! i))
      = (\<Sum>c\<leftarrow>cs. ids (client_jobs c)) + (\<Sum>d\<leftarrow>ds. ids (client_jobs d))"
    by (rule sum_list_cut [OF assms])
  then show ?thesis by (simp add: held_def ac_simps)
qed

lemma ids_mem: "x \<in># ids js \<longleftrightarrow> x \<in> j_id ` set js"
  by (simp add: ids_def)

lemma worker_fresh:
  assumes "hub_inv h" and "i < length (h_workers h)" and "j \<in> set (loc_jobs (h_workers h ! i))"
  shows "j_id j \<notin># ledger (h_pool h) (h_store h)"
proof -
  let ?rest = "held ((h_workers h)[i := Idle]) (h_clients h)"
  have "(ids (loc_jobs (h_workers h ! i)) + ?rest) + ledger (h_pool h) (h_store h) = mset [1..<h_next h]"
    using assms(1) held_worker [OF assms(2), of Idle "h_clients h"] by (simp add: hub_inv_def ac_simps)
  moreover have "j_id j \<in># ids (loc_jobs (h_workers h ! i)) + ?rest" using assms(3) by (simp add: ids_mem)
  ultimately show ?thesis by (rule upt_once)
qed

lemma ledger_mem:
  "x \<in># ledger p s \<longleftrightarrow> x \<in> j_id ` set (p_queue p) \<or> x \<in> set (p_completed p) \<or> x \<in> fst ` set (s_failures s) \<or> x \<in> set (s_cancelled s)"
  by (simp add: ledger_def ids_mem)

lemma client_fresh:
  assumes "hub_inv h" and "i < length (h_clients h)"
  shows "distinct (map j_id (client_jobs (h_clients h ! i)))"
    and "set (map j_id (client_jobs (h_clients h ! i))) \<inter> set (s_cancelled (h_store h)) = {}"
proof -
  let ?c = "h_clients h ! i"
  let ?rest = "held (h_workers h) (take i (h_clients h) @ [] @ drop (Suc i) (h_clients h))"
  have eq: "(ids (client_jobs ?c) + ?rest) + ledger (h_pool h) (h_store h) = mset [1..<h_next h]"
    using assms(1) held_client [OF assms(2), of "h_workers h" "[]"] by (simp add: hub_inv_def ac_simps)
  then show "distinct (map j_id (client_jobs ?c))"
    using upt_distinct [of "map j_id (client_jobs ?c)"] unfolding ids_def add.assoc by blast
  have "j_id j \<notin># ledger (h_pool h) (h_store h)" if "j \<in> set (client_jobs ?c)" for j
    by (rule upt_once [OF eq]) (use that in \<open>simp add: ids_mem\<close>)
  then show "set (map j_id (client_jobs ?c)) \<inter> set (s_cancelled (h_store h)) = {}"
    by (auto simp: ledger_mem)
qed

lemma ledger_swap:
  assumes "A' + X' = A + (X :: 'a multiset)" and "B' + X = B + X'"
  shows "A' + B' = A + B"
proof (rule multiset_eqI)
  fix x
  have "count A' x + count X' x = count A x + count X x" "count B' x + count X x = count B x + count X' x"
    using arg_cong [OF assms(1), of "\<lambda>m. count m x"] arg_cong [OF assms(2), of "\<lambda>m. count m x"] by simp_all
  then show "count (A' + B') x = count (A + B) x" by simp
qed

lemma zero_sum:
  assumes "\<And>x. (0 :: int) \<le> f x" and "(\<Sum>x\<leftarrow>xs. f x) = 0" and "x \<in> set xs"
  shows "f x = 0"
  using assms(2,3)
proof (induction xs)
  case (Cons y ys)
  have "0 \<le> (\<Sum>x\<leftarrow>ys. f x)" using assms(1) by (auto intro!: sum_list_nonneg)
  then have "f y = 0" "(\<Sum>x\<leftarrow>ys. f x) = 0" using Cons.prems(1) assms(1) [of y] by simp_all
  then show ?case using Cons by auto
qed simp

lemma empty_sum: "(\<Sum>l\<leftarrow>replicate n l0. ({#} :: 'a multiset)) = {#}"
  by (induction n) simp_all

lemma worker_inv:
  assumes "hub_inv h" and "worker_act pol oc i h = Some h'"
  shows "hub_inv h'"
proof -
  have i: "i < length (h_workers h)" using assms(2) by (simp add: worker_act_def split: if_splits)
  obtain l p s where w: "worker_step pol oc (h_workers h ! i) (h_pool h) (h_store h) = Some (l, p, s)"
    and h': "h' = h\<lparr>h_workers := (h_workers h)[i := l], h_pool := p, h_store := s\<rparr>"
    using assms(2) by (auto simp: worker_act_def split: if_splits option.splits)
  have "\<forall>j \<in> set (loc_jobs (h_workers h ! i)). j_id j \<notin> set (p_completed (h_pool h)) \<and> j_id j \<notin> fst ` set (s_failures (h_store h))"
    using worker_fresh [OF assms(1) i] by (simp add: ledger_mem)
  note led = worker_ledger [OF w this]
  have "ledger p s + held ((h_workers h)[i := l]) (h_clients h) = ledger (h_pool h) (h_store h) + held (h_workers h) (h_clients h)"
    by (rule ledger_swap [OF led held_worker [OF i]])
  then show ?thesis
    using assms(1) worker_counters [OF w] sum_list_swap [OF i, of loc_pending l] sum_list_swap [OF i, of loc_inflight l]
    by (simp add: hub_inv_def h')
qed

lemma client_inv:
  assumes "hub_inv h" and "client_act i h = Some h'"
  shows "hub_inv h'"
proof -
  have i: "i < length (h_clients h)" using assms(2) by (simp add: client_act_def split: if_splits)
  obtain c p s where w: "client_step (h_clients h ! i) (h_pool h) (h_store h) = (c, p, s)"
    by (cases "client_step (h_clients h ! i) (h_pool h) (h_store h)")
  define ds where "ds = (case c of None \<Rightarrow> [] | Some d \<Rightarrow> [d])"
  have h': "h' = h\<lparr>h_clients := take i (h_clients h) @ ds @ drop (Suc i) (h_clients h), h_pool := p, h_store := s\<rparr>"
    using assms(2) i w by (simp add: client_act_def ds_def)
  note led = client_ledger [OF w client_fresh [OF assms(1) i], folded ds_def]
  note cnt = client_counters [OF w, folded ds_def]
  have "ledger p s + held (h_workers h) (take i (h_clients h) @ ds @ drop (Suc i) (h_clients h))
      = ledger (h_pool h) (h_store h) + held (h_workers h) (h_clients h)"
    by (rule ledger_swap [OF led held_client [OF i]])
  then show ?thesis
    using assms(1) cnt sum_list_cut [OF i, of client_pending ds]
    by (simp add: hub_inv_def h')
qed

lemma step_inv:
  assumes "hub_inv h" and "hub_step pol h h'"
  shows "hub_inv h'"
  using assms(2)
proof (cases rule: hub_step.cases)
  case moves
  then show ?thesis by cases (rule worker_inv [OF assms(1)] client_inv [OF assms(1)], assumption)+
next
  case (times_out i)
  then have i: "i < length (h_workers h)" "h_workers h ! i = Polling" "h' = h\<lparr>h_workers := (h_workers h)[i := Idle]\<rparr>"
    by (auto simp: poll_again_def split: if_splits)
  show ?thesis
    using assms(1) i(2) held_worker [OF i(1), of Idle "h_clients h"] sum_list_swap [OF i(1), of loc_pending Idle]
      sum_list_swap [OF i(1), of loc_inflight Idle]
    by (simp add: hub_inv_def i(3))
next
  case (submits key)
  have "[1..<Suc (h_next h)] = [1..<h_next h] @ [h_next h]" using assms(1) by (simp add: hub_inv_def)
  then show ?thesis using assms(1)
    by (simp add: submits hub_inv_def hub_submit_def count_up_def ledger_def held_def)
qed (use assms(1) in \<open>simp_all add: hub_inv_def hub_cancel_def hub_invalidate_def hub_stop_def ledger_def held_def\<close>)

lemma reachable_inv: "reachable pol h \<Longrightarrow> hub_inv h"
proof (induction rule: reachable.induct)
  case (start workers h)
  then show ?case
    using empty_sum [of workers Idle]
    by (auto simp: start_hub_def hub_inv_def ledger_def held_def new_store_def sum_list_replicate split: if_splits)
next
  case (step h h')
  then show ?case using step_inv by blast
qed

lemma drained_places:
  assumes "hub_inv h" and "drained h"
  shows "p_queue (h_pool h) = [] \<and> (\<forall>l \<in> set (h_workers h). loc_jobs l = [])
    \<and> (\<forall>c \<in> set (h_clients h). case c of Submitting j \<Rightarrow> False | Draining ds \<Rightarrow> ds = [] | Marking ds \<Rightarrow> True)"
proof -
  note inv = assms(1)
  have z: "p_pending (h_pool h) = 0" "p_inflight (h_pool h) = 0" using assms(2) by (simp_all add: drained_def)
  have pl: "0 \<le> loc_pending l" "0 \<le> loc_inflight l" for l by (cases l; simp)+
  have pc: "0 \<le> client_pending c" for c by (cases c) simp_all
  have nn: "0 \<le> (\<Sum>l\<leftarrow>ws. loc_pending l)" "0 \<le> (\<Sum>l\<leftarrow>ws. loc_inflight l)" "0 \<le> (\<Sum>c\<leftarrow>cs. client_pending c)" for ws cs
    using pl pc by (auto intro!: sum_list_nonneg)
  have q: "p_queue (h_pool h) = []" "(\<Sum>l\<leftarrow>h_workers h. loc_pending l) = 0" "(\<Sum>c\<leftarrow>h_clients h. client_pending c) = 0"
    "(\<Sum>l\<leftarrow>h_workers h. loc_inflight l) = 0"
    using inv z nn(1) [of "h_workers h"] nn(3) [of "h_clients h"] unfolding hub_inv_def by (auto simp flip: length_0_conv)
  have "\<forall>l \<in> set (h_workers h). loc_pending l = 0 \<and> loc_inflight l = 0" 
    using zero_sum [of loc_pending, OF pl(1) q(2)] zero_sum [of loc_inflight, OF pl(2) q(4)] by blast
  moreover have "loc_jobs l = []" if "loc_pending l = 0 \<and> loc_inflight l = 0" for l using that by (cases l) simp_all
  moreover have "\<forall>c \<in> set (h_clients h). client_pending c = 0"
    using zero_sum [of client_pending, OF pc q(3)] by blast
  moreover have "case c of Submitting j \<Rightarrow> False | Draining ds \<Rightarrow> ds = [] | Marking ds \<Rightarrow> True" if "client_pending c = 0" for c
    using that by (cases c) simp_all
  ultimately show ?thesis using q(1) by blast
qed

lemma drained_queue: "hub_inv h \<Longrightarrow> drained h \<Longrightarrow> p_queue (h_pool h) = []"
  using drained_places by blast


end
