(* ===== verification/Taskhub_Live.thy ===== *)
theory Taskhub_Live
  imports Taskhub_Run
begin

text \<open>
  Progress of the hub: every step that some thread in the middle of an operation makes takes away
  from \<open>weight\<close>, which counts the steps that the jobs in hand can still cause, attempts left included.
  So a hub to which nothing new is asked comes to rest (its workers poll an empty queue), and when it
  rests \<open>drain\<close> succeeds. The timeout of an idle worker is not progress.
\<close>

section \<open>A measure\<close>

definition left :: "policy \<Rightarrow> job \<Rightarrow> nat" where
  "left pol j = 10 * nat (rp_max_attempts pol - j_attempts j)"

fun loc_weight :: "policy \<Rightarrow> loc \<Rightarrow> nat" where
  "loc_weight pol Polling = 1" | "loc_weight pol Idle = 2" | "loc_weight pol (Got j) = 8 + left pol j"
| "loc_weight pol (Began j) = 7 + left pol j" | "loc_weight pol (Running j sn) = 6 + left pol j"
| "loc_weight pol (Retrying j) = 13 + left pol j" | "loc_weight pol (Putting j) = 12 + left pol j"
| "loc_weight pol (Computed j sn v) = 5" | "loc_weight pol (Claimed j sn v) = 4" | "loc_weight pol Leaving = 3"
| "loc_weight pol Exited = 0"

fun client_weight :: "policy \<Rightarrow> client \<Rightarrow> nat" where
  "client_weight pol (Submitting j) = 9 + left pol j" | "client_weight pol (Draining ds) = 2 + 6 * length ds"
| "client_weight pol (Marking ds) = 1"

definition queue_weight :: "policy \<Rightarrow> job list \<Rightarrow> nat" where
  "queue_weight pol q = (\<Sum>j\<leftarrow>q. 8 + left pol j)"

definition weight :: "policy \<Rightarrow> hub \<Rightarrow> nat" where
  "weight pol h = queue_weight pol (p_queue (h_pool h)) + (\<Sum>l\<leftarrow>h_workers h. loc_weight pol l) + (\<Sum>c\<leftarrow>h_clients h. client_weight pol c)"

lemma queue_weight_simps [simp]:
  "queue_weight pol [] = 0" "queue_weight pol (j # q) = 8 + left pol j + queue_weight pol q"
  "queue_weight pol (q @ r) = queue_weight pol q + queue_weight pol r"
  by (simp_all add: queue_weight_def)

lemma left_retry:
  "should_retry pol (j_attempts j + 1) e \<Longrightarrow> left pol j = left pol (j\<lparr>j_attempts := j_attempts j + 1\<rparr>) + 10"
  by (cases e) (auto simp: should_retry_def left_def)

lemma worker_weight:
  assumes "worker_step pol oc l p s = Some (l', p', s')"
  shows "queue_weight pol (p_queue p') + loc_weight pol l' < queue_weight pol (p_queue p) + loc_weight pol l"
  using assms left_retry
  by (cases l) (auto simp: after_raise_def Let_def count_up_def put_job_def split: if_splits list.splits outcome.splits)

lemma client_weight_step:
  assumes "client_step c p s = (c', p', s')"
  shows "queue_weight pol (p_queue p') + (\<Sum>d\<leftarrow>(case c' of None \<Rightarrow> [] | Some d \<Rightarrow> [d]). client_weight pol d)
    < queue_weight pol (p_queue p) + client_weight pol c"
  using assms by (cases c) (auto simp: put_job_def split: list.splits if_splits)

lemma progress_weight: "progress pol h h' \<Longrightarrow> weight pol h' < weight pol h"
proof (induction rule: progress.induct)
  case (worker oc i h h')
  then have i: "i < length (h_workers h)" by (simp add: worker_act_def split: if_splits)
  obtain l p s where w: "worker_step pol oc (h_workers h ! i) (h_pool h) (h_store h) = Some (l, p, s)"
    and h': "h' = h\<lparr>h_workers := (h_workers h)[i := l], h_pool := p, h_store := s\<rparr>"
    using worker by (auto simp: worker_act_def split: if_splits option.splits)
  show ?case using worker_weight [OF w] sum_list_swap [OF i, of "loc_weight pol" l] by (simp add: weight_def h')
next
  case (client i h h')
  then have i: "i < length (h_clients h)" by (simp add: client_act_def split: if_splits)
  obtain c p s where w: "client_step (h_clients h ! i) (h_pool h) (h_store h) = (c, p, s)"
    by (cases "client_step (h_clients h ! i) (h_pool h) (h_store h)")
  define ds where "ds = (case c of None \<Rightarrow> [] | Some d \<Rightarrow> [d])"
  have h': "h' = h\<lparr>h_clients := take i (h_clients h) @ ds @ drop (Suc i) (h_clients h), h_pool := p, h_store := s\<rparr>"
    using client i w by (simp add: client_act_def ds_def)
  show ?case using client_weight_step [OF w, of pol, folded ds_def] sum_list_cut [OF i, of "client_weight pol" ds]
    by (simp add: weight_def h')
qed

section \<open>Rest\<close>

text \<open>A worker ends its loop only after \<open>shutdown\<close>.\<close>

definition exits_ok :: "hub \<Rightarrow> bool" where
  "exits_ok h \<longleftrightarrow> h_workers h \<noteq> [] \<and> (Exited \<in> set (h_workers h) \<longrightarrow> p_stopping (h_pool h))"

lemma worker_exits:
  assumes "worker_step pol oc l p s = Some (l', p', s')"
  shows "p_stopping p' = p_stopping p" and "l' = Exited \<Longrightarrow> p_stopping p"
  using assms by (cases l; auto simp: after_raise_def Let_def count_up_def put_job_def split: if_splits list.splits outcome.splits)+

lemma client_exits: "client_step c p s = (c', p', s') \<Longrightarrow> p_stopping p' = p_stopping p"
  by (cases c) (auto simp: put_job_def split: list.splits if_splits)

lemma progress_exits:
  "progress pol h h' \<Longrightarrow> p_stopping (h_pool h') = p_stopping (h_pool h) \<and> (exits_ok h \<longrightarrow> exits_ok h')"
proof (induction rule: progress.induct)
  case (worker oc i h h')
  then obtain l p s where w: "worker_step pol oc (h_workers h ! i) (h_pool h) (h_store h) = Some (l, p, s)"
    and h': "h' = h\<lparr>h_workers := (h_workers h)[i := l], h_pool := p, h_store := s\<rparr>"
    by (auto simp: worker_act_def split: if_splits option.splits)
  have "set ((h_workers h)[i := l]) \<subseteq> insert l (set (h_workers h))" by (rule set_update_subset_insert)
  then show ?case using worker_exits [OF w] by (auto simp: exits_ok_def h')
next
  case (client i h h')
  obtain c p s where "client_step (h_clients h ! i) (h_pool h) (h_store h) = (c, p, s)"
    by (cases "client_step (h_clients h ! i) (h_pool h) (h_store h)")
  then show ?case using client client_exits by (fastforce simp: exits_ok_def client_act_def split: if_splits)
qed

lemma reachable_exits: "reachable pol h \<Longrightarrow> exits_ok h"
proof (induction rule: reachable.induct)
  case (start workers h)
  then show ?case by (auto simp: start_hub_def exits_ok_def split: if_splits)
next
  case (step h h')
  from step.hyps(2) step.IH show ?case
  proof cases
    case (times_out i)
    then have "h_pool h' = h_pool h" "h_workers h' = (h_workers h)[i := Idle]" by (auto simp: poll_again_def split: if_splits)
    moreover have "Exited \<in> set ((h_workers h)[i := Idle]) \<Longrightarrow> Exited \<in> set (h_workers h)"
      using set_update_subset_insert [of "h_workers h" i Idle] by auto
    ultimately show ?thesis using step.IH by (simp add: exits_ok_def)
  qed (use progress_exits in \<open>auto simp: exits_ok_def hub_submit_def hub_cancel_def hub_invalidate_def hub_stop_def count_up_def\<close>)
qed

lemma rest_drained:
  assumes "hub_inv h" and "exits_ok h" and "\<not> p_stopping (h_pool h)" and "\<nexists>h'. progress pol h h'"
  shows "drained h \<and> h_clients h = []"
proof -
  have "client_act 0 h = None"
    using assms(4) progress.client by (metis option.exhaust)
  then have c: "h_clients h = []" by (auto simp: client_act_def split: if_splits prod.splits)
  have idle: "l = Polling \<and> p_queue (h_pool h) = []" if l: "l \<in> set (h_workers h)" for l
  proof -
    obtain i where i: "i < length (h_workers h)" "h_workers h ! i = l" using l by (metis in_set_conv_nth)
    have "worker_act pol (Returns PNone) i h = None" using assms(4) progress.worker by (metis option.exhaust)
    then have "worker_step pol (Returns PNone) l (h_pool h) (h_store h) = None"
      using i by (auto simp: worker_act_def split: option.splits)
    moreover have "l \<noteq> Exited" using assms(2,3) l by (auto simp: exits_ok_def)
    ultimately show ?thesis using assms(3) by (cases l) (auto split: list.splits if_splits)
  qed
  have q: "p_queue (h_pool h) = []" using idle assms(2) by (metis exits_ok_def list.set_intros(1) neq_Nil_conv)
  have "(\<Sum>l\<leftarrow>h_workers h. loc_pending l) = 0 \<and> (\<Sum>l\<leftarrow>h_workers h. loc_inflight l) = 0"
  proof -
    have "replicate (length (h_workers h)) Polling = h_workers h" using idle by (intro replicate_length_same) blast
    then obtain n where "h_workers h = replicate n Polling" by metis
    then show ?thesis by (simp add: sum_list_replicate)
  qed
  then show ?thesis using assms(1) c q by (simp add: hub_inv_def drained_def)
qed

lemma progress_runs:
  assumes "\<forall>i < n. progress pol (f i) (f (Suc i))"
  shows "n + weight pol (f n) \<le> weight pol (f 0)"
  using assms
proof (induction n)
  case (Suc n)
  then have "n + weight pol (f n) \<le> weight pol (f 0)" by simp
  moreover have "weight pol (f (Suc n)) < weight pol (f n)" using Suc.prems progress_weight by blast
  ultimately show ?case by simp
qed simp

lemma progress_keeps:
  assumes "(progress pol)\<^sup>*\<^sup>* h h'"
  shows "(hub_inv h \<longrightarrow> hub_inv h') \<and> (exits_ok h \<longrightarrow> exits_ok h') \<and> p_stopping (h_pool h') = p_stopping (h_pool h)"
  using assms
proof (induction rule: rtranclp_induct)
  case (step y z)
  then show ?case using step_inv moves progress_exits by blast
qed simp

lemma reaches_rest: "\<exists>h'. (progress pol)\<^sup>*\<^sup>* h h' \<and> (\<nexists>h''. progress pol h' h'')"
proof (induction "weight pol h" arbitrary: h rule: less_induct)
  case less
  show ?case
  proof (cases "\<exists>h'. progress pol h h'")
    case True
    then obtain h1 where h1: "progress pol h h1" by blast
    then obtain h' where "(progress pol)\<^sup>*\<^sup>* h1 h'" "\<nexists>h''. progress pol h' h''"
      using less progress_weight by blast
    then show ?thesis using h1 converse_rtranclp_into_rtranclp by metis
  qed blast
qed


end
