(* ===== verification/Taskhub_Spec.thy ===== *)
theory Taskhub_Spec
  imports Taskhub_Live
begin

text \<open>
  The hub against its specification: the life of a job as a small automaton (\<open>spec_step\<close>), which
  every step of the hub follows or leaves alone, and the generations of the store, where the
  design's invariant G fails in a reachable state.
\<close>

section \<open>The life of a job\<close>

datatype fate = Waiting | Working | Done | Failed | Cancelled

inductive spec_step :: "(nat \<Rightarrow> fate option) \<Rightarrow> (nat \<Rightarrow> fate option) \<Rightarrow> bool" where
  submit: "m n = None \<Longrightarrow> spec_step m (m(n \<mapsto> Waiting))"
| start: "m n = Some Waiting \<Longrightarrow> spec_step m (m(n \<mapsto> Working))"
| requeue: "m n = Some Working \<Longrightarrow> spec_step m (m(n \<mapsto> Waiting))"
| finish: "m n = Some Working \<Longrightarrow> spec_step m (m(n \<mapsto> Done))"
| fail: "m n = Some Working \<Longrightarrow> spec_step m (m(n \<mapsto> Failed))"
| cancel: "\<forall>n \<in> N. m n = Some Waiting \<Longrightarrow> spec_step m (\<lambda>n. if n \<in> N then Some Cancelled else m n)"

definition fate_of :: "nat set \<Rightarrow> nat set \<Rightarrow> pool \<Rightarrow> store \<Rightarrow> nat \<Rightarrow> fate option" where
  "fate_of W R p s n =
     (if n \<in> W then Some Waiting else if n \<in> R then Some Working else if n \<in> set (p_completed p) then Some Done
      else if n \<in> fst ` set (s_failures s) then Some Failed else if n \<in> set (s_cancelled s) then Some Cancelled else None)"

definition waiting :: "hub \<Rightarrow> nat multiset" where
  "waiting h = ids (p_queue (h_pool h)) + (\<Sum>c\<leftarrow>h_clients h. ids (client_jobs c))"

definition working :: "hub \<Rightarrow> nat multiset" where
  "working h = (\<Sum>l\<leftarrow>h_workers h. ids (loc_jobs l))"

definition abs_hub :: "hub \<Rightarrow> nat \<Rightarrow> fate option" where
  "abs_hub h = fate_of (set_mset (waiting h)) (set_mset (working h)) (h_pool h) (h_store h)"

lemma places:
  assumes "hub_inv h"
  shows "waiting h + (working h + (mset (p_completed (h_pool h)) + (mset (map fst (s_failures (h_store h))) + mset (s_cancelled (h_store h)))))
    = mset [1..<h_next h]"
  using assms by (simp add: hub_inv_def ledger_def held_def waiting_def working_def ac_simps)

text \<open>A job that a thread holds is nowhere else.\<close>

lemma mset_upt_add: "add_mset x A = mset [m..<n] \<Longrightarrow> x \<notin># A"
  using upt_once [of "{#x#}" A] by simp

lemma worker_places:
  assumes "hub_inv h" and "i < length (h_workers h)" and "h_workers h ! i = l" and "loc_jobs l = [j]"
  obtains R where "working h = add_mset (j_id j) R"
    and "\<And>l'. (\<Sum>k\<leftarrow>(h_workers h)[i := l']. ids (loc_jobs k)) = ids (loc_jobs l') + R"
    and "j_id j \<notin># R" "j_id j \<notin># waiting h" "j_id j \<notin> set (p_completed (h_pool h))"
    and "j_id j \<notin> fst ` set (s_failures (h_store h))" "j_id j \<notin> set (s_cancelled (h_store h))"
proof -
  define R where "R = (\<Sum>k\<leftarrow>(h_workers h)[i := Idle]. ids (loc_jobs k))"
  have sw: "(\<Sum>k\<leftarrow>(h_workers h)[i := l']. ids (loc_jobs k)) + {#j_id j#} = working h + ids (loc_jobs l')" for l'
    using sum_list_swap [OF assms(2), of "\<lambda>k. ids (loc_jobs k)" l'] assms(3,4) by (simp add: working_def)
  have w: "working h = add_mset (j_id j) R" using sw [of Idle] by (simp add: R_def)
  have "add_mset (j_id j) ((\<Sum>k\<leftarrow>(h_workers h)[i := l']. ids (loc_jobs k))) = add_mset (j_id j) (ids (loc_jobs l') + R)" for l'
    using sw [of l'] by (simp add: w ac_simps)
  then have r: "(\<Sum>k\<leftarrow>(h_workers h)[i := l']. ids (loc_jobs k)) = ids (loc_jobs l') + R" for l' by simp
  have "add_mset (j_id j) (R + (waiting h + (mset (p_completed (h_pool h)) + (mset (map fst (s_failures (h_store h))) + mset (s_cancelled (h_store h))))))
      = mset [1..<h_next h]"
    using places [OF assms(1)] by (simp add: w ac_simps)
  from mset_upt_add [OF this] show thesis using that [OF w r] by simp
qed

lemma worker_refines:
  assumes "hub_inv h" and "worker_act pol oc i h = Some h'"
  shows "abs_hub h' = abs_hub h \<or> spec_step (abs_hub h) (abs_hub h')"
proof -
  have i: "i < length (h_workers h)" using assms(2) by (simp add: worker_act_def split: if_splits)
  obtain l p s where w: "worker_step pol oc (h_workers h ! i) (h_pool h) (h_store h) = Some (l, p, s)"
    and h': "h' = h\<lparr>h_workers := (h_workers h)[i := l], h_pool := p, h_store := s\<rparr>"
    using assms(2) by (auto simp: worker_act_def split: if_splits option.splits)
  define wr where "wr = h_workers h ! i"
  note w = w [folded wr_def]
  have wk: "working h' + ids (loc_jobs wr) = working h + ids (loc_jobs l)"
    using sum_list_swap [OF i, of "\<lambda>k. ids (loc_jobs k)" l] by (simp add: working_def h' wr_def)
  show ?thesis
  proof (cases "loc_jobs wr")
    case Nil
    show ?thesis
    proof (cases "p_queue (h_pool h) \<noteq> [] \<and> wr = Polling")
      case True
      then obtain j q where q: "p_queue (h_pool h) = j # q" "wr = Polling" by (cases "p_queue (h_pool h)") auto
      have st: "l = Got j" "p = (h_pool h)\<lparr>p_queue := q\<rparr>" "s = h_store h" using w q True by auto
      have a: "waiting h = add_mset (j_id j) (waiting h')" "working h' = add_mset (j_id j) (working h)"
        using wk by (simp_all add: waiting_def h' st q)
      have "add_mset (j_id j) (waiting h' + (working h + (mset (p_completed (h_pool h)) + (mset (map fst (s_failures (h_store h))) + mset (s_cancelled (h_store h))))))
          = mset [1..<h_next h]" using places [OF assms(1)] by (simp add: a(1))
      then have n: "j_id j \<notin># waiting h'" using mset_upt_add by fastforce
      have pc: "p_completed (h_pool h') = p_completed (h_pool h)" "h_store h' = h_store h" by (simp_all add: h' st)
      have "abs_hub h' = (abs_hub h)(j_id j \<mapsto> Working)" and "abs_hub h (j_id j) = Some Waiting"
        using n by (auto simp: abs_hub_def fate_of_def a fun_eq_iff pc)
      then show ?thesis using spec_step.start [of "abs_hub h"] by metis
    next
      case False
      then have "working h' = working h" "waiting h' = waiting h" "p_completed p = p_completed (h_pool h)"
        "s_failures s = s_failures (h_store h)" "s_cancelled s = s_cancelled (h_store h)"
        using w wk Nil by (cases wr; auto simp: waiting_def h' split: if_splits list.splits)+
      then have "abs_hub h' = abs_hub h" by (simp add: abs_hub_def fate_of_def fun_eq_iff h')
      then show ?thesis ..
    qed
  next
    case (Cons j r)
    then have lj: "loc_jobs wr = [j]" by (cases wr) auto
    obtain R where R: "working h = add_mset (j_id j) R" "\<And>l'. (\<Sum>k\<leftarrow>(h_workers h)[i := l']. ids (loc_jobs k)) = ids (loc_jobs l') + R"
      "j_id j \<notin># R" "j_id j \<notin># waiting h" "j_id j \<notin> set (p_completed (h_pool h))"
      "j_id j \<notin> fst ` set (s_failures (h_store h))" "j_id j \<notin> set (s_cancelled (h_store h))"
      using worker_places [OF assms(1) i wr_def [symmetric] lj] by blast
    have wk': "working h' = ids (loc_jobs l) + R" by (simp add: working_def h' R(2))
    have cur: "abs_hub h (j_id j) = Some Working" using R by (simp add: abs_hub_def fate_of_def)
    have same: ?thesis if "ids (loc_jobs l) = {#j_id j#}" "p_queue p = p_queue (h_pool h)" "p_completed p = p_completed (h_pool h)"
      "s_failures s = s_failures (h_store h)" "s_cancelled s = s_cancelled (h_store h)"
    proof -
      have "abs_hub h' = abs_hub h" using that wk' R(1) by (simp add: abs_hub_def fate_of_def fun_eq_iff h' waiting_def)
      then show ?thesis ..
    qed
    have done_: ?thesis if "loc_jobs l = []" "p_queue p = p_queue (h_pool h)" "p_completed p = p_completed (h_pool h)"
      "fst ` set (s_failures s) = insert (j_id j) (fst ` set (s_failures (h_store h)))" "s_cancelled s = s_cancelled (h_store h)"
    proof -
      have "abs_hub h' = (abs_hub h)(j_id j \<mapsto> Failed)"
        using that wk' R by (auto simp: abs_hub_def fate_of_def fun_eq_iff h' waiting_def)
      then show ?thesis using spec_step.fail [of "abs_hub h", OF cur] by simp
    qed
    show ?thesis
    proof (cases wr)
      case (Running k sn)
      then have k: "k = j" using lj by simp
      show ?thesis
      proof (cases oc)
        case (Returns v)
        then show ?thesis using w Running k by (intro same) auto
      next
        case (Raises e)
        show ?thesis
        proof (cases "should_retry pol (j_attempts j + 1) e")
          case True
          then show ?thesis using w Running k Raises by (intro same) (auto simp: after_raise_def Let_def)
        next
          case False
          then have st: "l = Leaving" "p = h_pool h" "s = record_failure (j_id j) e (incr ''jobs_failed'' (h_store h))"
            using w Running k Raises by (simp_all add: after_raise_def Let_def)
          show ?thesis
            by (rule done_) (simp_all only: st store_parts loc_jobs.simps, simp add: record_failure_def dom_update)
        qed
      qed
    next
      case (Putting k)
      then have st: "l = Leaving" "p = put_job j (h_pool h)" "s = h_store h" using w lj by auto
      have "abs_hub h' = (abs_hub h)(j_id j \<mapsto> Waiting)"
        using wk' R by (auto simp: abs_hub_def fate_of_def fun_eq_iff h' waiting_def st put_job_def)
      then show ?thesis using spec_step.requeue [of "abs_hub h", OF cur] by simp
    next
      case (Computed k sn v)
      then have st: "l = Claimed j sn v" "p = (h_pool h)\<lparr>p_completed := p_completed (h_pool h) @ [j_id j]\<rparr>" "s = h_store h"
        using w lj R(5) by (auto split: if_splits)
      have "abs_hub h' = (abs_hub h)(j_id j \<mapsto> Done)"
        using wk' R by (auto simp: abs_hub_def fate_of_def fun_eq_iff h' waiting_def st)
      then show ?thesis using spec_step.finish [of "abs_hub h", OF cur] by simp
    next
      case (Got k)
      then show ?thesis using w lj by (intro same) auto
    next
      case (Began k)
      then show ?thesis using w lj by (intro same) auto
    next
      case (Retrying k)
      then show ?thesis using w lj by (intro same) (auto simp: count_up_def)
    qed (use lj in simp_all)
  qed
qed

lemma client_refines:
  assumes "hub_inv h" and "client_act i h = Some h'"
  shows "abs_hub h' = abs_hub h \<or> spec_step (abs_hub h) (abs_hub h')"
proof -
  have i: "i < length (h_clients h)" using assms(2) by (simp add: client_act_def split: if_splits)
  define c where "c = h_clients h ! i"
  obtain c' p s where w: "client_step c (h_pool h) (h_store h) = (c', p, s)"
    by (cases "client_step c (h_pool h) (h_store h)")
  define ds where "ds = (case c' of None \<Rightarrow> [] | Some d \<Rightarrow> [d])"
  have h': "h' = h\<lparr>h_clients := take i (h_clients h) @ ds @ drop (Suc i) (h_clients h), h_pool := p, h_store := s\<rparr>"
    using assms(2) i w by (simp add: client_act_def ds_def c_def)
  have cl: "(\<Sum>d\<leftarrow>h_clients h'. ids (client_jobs d)) + ids (client_jobs c) = (\<Sum>d\<leftarrow>h_clients h. ids (client_jobs d)) + (\<Sum>d\<leftarrow>ds. ids (client_jobs d))"
    using sum_list_cut [OF i, of "\<lambda>d. ids (client_jobs d)" ds] by (simp add: h' c_def)
  have wk: "working h' = working h" by (simp add: working_def h')
  show ?thesis
  proof (cases "\<exists>js. c = Marking js")
    case False
    have "waiting h' = waiting h"
      using False w cl by (cases c) (auto simp: waiting_def h' ds_def put_job_def ac_simps split: list.splits if_splits)
    moreover have "p_completed p = p_completed (h_pool h)" "s = h_store h"
      using False w by (cases c; auto simp: put_job_def split: list.splits if_splits)+
    ultimately have "abs_hub h' = abs_hub h" using wk by (simp add: abs_hub_def fate_of_def fun_eq_iff h')
    then show ?thesis ..
  next
    case True
    then obtain js where js: "c = Marking js" by blast
    then have st: "c' = None" "p = h_pool h" "s = mark_cancelled (map j_id js) (h_store h)" using w by auto
    have wt: "waiting h = waiting h' + ids js"
      using cl by (simp add: waiting_def h' st ds_def js ac_simps)
    have "s_cancelled s = s_cancelled (h_store h) @ map j_id js" "s_failures s = s_failures (h_store h)"
      using cancelled_mark [of "map j_id js" "h_store h"] client_fresh [OF assms(1) i] js mark_cancelled_parts
      by (simp_all add: st c_def [symmetric])
    moreover have "j_id ` set js \<inter> set_mset (waiting h' + (working h + (mset (p_completed (h_pool h))
        + (mset (map fst (s_failures (h_store h))) + mset (s_cancelled (h_store h)))))) = {}"
      using places [OF assms(1)] upt_distinct [of "map j_id js"] unfolding wt ids_def [of js]
      by (metis (no_types, lifting) add.commute add.left_commute set_map)
    ultimately have "abs_hub h' = (\<lambda>n. if n \<in> j_id ` set js then Some Cancelled else abs_hub h n)"
      using wk wt by (auto simp: abs_hub_def fate_of_def fun_eq_iff h' st ids_mem)
    moreover have "\<forall>n \<in> j_id ` set js. abs_hub h n = Some Waiting"
      by (simp add: abs_hub_def fate_of_def wt ids_mem)
    ultimately show ?thesis using spec_step.cancel [of "j_id ` set js" "abs_hub h"] by simp
  qed
qed

lemma step_refines:
  assumes "hub_inv h" and "hub_step pol h h'"
  shows "abs_hub h' = abs_hub h \<or> spec_step (abs_hub h) (abs_hub h')"
  using assms(2)
proof cases
  case moves
  then show ?thesis by cases (rule worker_refines [OF assms(1)] client_refines [OF assms(1)], assumption)+
next
  case (times_out i)
  then have i: "i < length (h_workers h)" "h_workers h ! i = Polling" "h' = h\<lparr>h_workers := (h_workers h)[i := Idle]\<rparr>"
    by (auto simp: poll_again_def split: if_splits)
  then have "working h' = working h" using sum_list_swap [OF i(1), of "\<lambda>k. ids (loc_jobs k)" Idle] by (simp add: working_def)
  then show ?thesis by (simp add: abs_hub_def fate_of_def fun_eq_iff waiting_def i(3))
next
  case (submits key)
  have "h_next h \<notin># waiting h + (working h + (mset (p_completed (h_pool h)) + (mset (map fst (s_failures (h_store h))) + mset (s_cancelled (h_store h)))))"
    unfolding places [OF assms(1)] by simp
  then have n: "abs_hub h (h_next h) = None" by (auto simp: abs_hub_def fate_of_def)
  have "waiting h' = add_mset (h_next h) (waiting h)" "working h' = working h" "p_completed (h_pool h') = p_completed (h_pool h)"
    "h_store h' = h_store h"
    by (simp_all add: submits hub_submit_def waiting_def working_def count_up_def)
  then have "abs_hub h' = (abs_hub h)(h_next h \<mapsto> Waiting)"
    by (auto simp: abs_hub_def fate_of_def fun_eq_iff)
  then show ?thesis using spec_step.submit [of "abs_hub h", OF n] by simp
qed (simp_all add: abs_hub_def fate_of_def fun_eq_iff waiting_def working_def hub_cancel_def hub_invalidate_def hub_stop_def)


section \<open>Generations\<close>

text \<open>No snapshot and no entry is ahead of the store.\<close>

fun loc_snapshots :: "loc \<Rightarrow> snapshot list" where
  "loc_snapshots (Running j sn) = [sn]" | "loc_snapshots (Computed j sn v) = [sn]" | "loc_snapshots (Claimed j sn v) = [sn]"
| "loc_snapshots _ = []"

definition behind :: "store \<Rightarrow> snapshot \<Rightarrow> bool" where
  "behind s sn \<longleftrightarrow> sn_generation sn \<le> generation_of s (sn_key sn)"

definition gens_ok :: "loc list \<Rightarrow> store \<Rightarrow> bool" where
  "gens_ok ws s \<longleftrightarrow> (\<forall>l \<in> set ws. \<forall>sn \<in> set (loc_snapshots l). behind s sn)
     \<and> (\<forall>(k, e) \<in> set (s_entries s). en_generation e \<le> generation_of s k)"

lemma generation_parts [simp]:
  "generation_of (incr x s) = generation_of s" "generation_of (store_commit sn v s) = generation_of s"
  "generation_of (record_failure i e s) = generation_of s" "generation_of (mark_cancelled js s) = generation_of s"
  using mark_cancelled_parts by (simp_all add: generation_of_def fun_eq_iff)

lemma generation_grows: "generation_of s k \<le> generation_of (store_invalidate key s) k"
  by (simp add: generation_of_def store_invalidate_def incr_def dict_get_def map_of_dict_update)

lemma set_update_sub: "(k, v) \<in> set (AList.update a b d) \<Longrightarrow> (k, v) = (a, b) \<or> (k, v) \<in> set d"
  by (induction d) (auto split: if_splits)

lemma commit_entries:
  "s_entries (store_commit sn v s) = AList.update (sn_key sn) \<lparr>en_value = v, en_generation = sn_generation sn\<rparr> (s_entries s)"
  by (simp add: store_commit_def)

lemma worker_gens:
  assumes "worker_step pol oc l p s = Some (l', p', s')" and "gens_ok (l # ws) s"
  shows "gens_ok (l' # ws) s'"
  using assms
  by (cases l) (auto simp: gens_ok_def behind_def after_raise_def Let_def store_begin_def commit_entries
      dest!: set_update_sub split: if_splits list.splits outcome.splits)

lemma step_gens:
  assumes "gens_ok (h_workers h) (h_store h)" and "hub_step pol h h'"
  shows "gens_ok (h_workers h') (h_store h')"
  using assms(2)
proof cases
  case moves
  then show ?thesis
  proof cases
    case (worker oc i)
    then obtain l p s where i: "i < length (h_workers h)" and w: "worker_step pol oc (h_workers h ! i) (h_pool h) (h_store h) = Some (l, p, s)"
      and h': "h' = h\<lparr>h_workers := (h_workers h)[i := l], h_pool := p, h_store := s\<rparr>"
      by (auto simp: worker_act_def split: if_splits option.splits)
    have "gens_ok (h_workers h ! i # h_workers h) (h_store h)" using assms(1) nth_mem [OF i] by (auto simp: gens_ok_def)
    then have "gens_ok (l # h_workers h) s" by (rule worker_gens [OF w])
    moreover have "set ((h_workers h)[i := l]) \<subseteq> set (l # h_workers h)" using set_update_subset_insert by fastforce
    ultimately show ?thesis unfolding gens_ok_def h' by auto
  next
    case (client i)
    obtain c p s where w: "client_step (h_clients h ! i) (h_pool h) (h_store h) = (c, p, s)"
      by (cases "client_step (h_clients h ! i) (h_pool h) (h_store h)")
    have "s = h_store h \<or> (\<exists>js. s = mark_cancelled js (h_store h))"
      using w by (cases "h_clients h ! i") (auto split: list.splits if_splits)
    then have "gens_ok (h_workers h) s" using assms(1) mark_cancelled_parts by (auto simp: gens_ok_def behind_def)
    then show ?thesis using client w by (auto simp: client_act_def split: if_splits)
  qed
next
  case (times_out i)
  then have "h_store h' = h_store h" "set (h_workers h') \<subseteq> insert Idle (set (h_workers h))"
    using set_update_subset_insert [of "h_workers h" i Idle] by (auto simp: poll_again_def split: if_splits)
  then show ?thesis using assms(1) unfolding gens_ok_def by fastforce
next
  case (invalidates key)
  have "(k, e) \<in> set (s_entries (h_store h))" if "(k, e) \<in> set (s_entries (store_invalidate key (h_store h)))" for k e
    using that by (auto simp: store_invalidate_def incr_def AList.delete_eq)
  then show ?thesis using assms(1) generation_grows [of "h_store h" _ key] order_trans
    unfolding gens_ok_def behind_def invalidates hub_invalidate_def by fastforce
qed (use assms(1) in \<open>simp_all add: hub_submit_def hub_cancel_def hub_stop_def\<close>)

lemma reachable_gens: "reachable pol h \<Longrightarrow> gens_ok (h_workers h) (h_store h)"
proof (induction rule: reachable.induct)
  case (start workers h)
  then show ?case by (auto simp: start_hub_def gens_ok_def new_store_def split: if_splits)
qed (use step_gens in blast)

text \<open>A schedule: which worker moves and how its callable ends, a client, or a new request.\<close>

datatype sched = Work nat outcome | Client nat | Submit string | Invalidate string

definition run_one :: "policy \<Rightarrow> sched \<Rightarrow> hub \<Rightarrow> hub option" where
  "run_one pol a h =
     (case a of Work i oc \<Rightarrow> worker_act pol oc i h | Client i \<Rightarrow> client_act i h
      | Submit k \<Rightarrow> Some (hub_submit k h) | Invalidate k \<Rightarrow> Some (hub_invalidate k h))"

fun run_sched :: "policy \<Rightarrow> sched list \<Rightarrow> hub \<Rightarrow> hub option" where
  "run_sched pol [] h = Some h"
| "run_sched pol (a # as) h = (case run_one pol a h of None \<Rightarrow> None | Some h' \<Rightarrow> run_sched pol as h')"

lemma run_sched_reachable: "reachable pol h \<Longrightarrow> run_sched pol as h = Some h' \<Longrightarrow> reachable pol h'"
proof (induction "as" arbitrary: h)
  case (Cons a "as")
  then obtain h1 where h1: "run_one pol a h = Some h1" "run_sched pol as h1 = Some h'" by (auto split: option.splits)
  have "hub_step pol h h1"
    using h1(1) by (cases a) (auto simp: run_one_def intro: hub_step.intros progress.intros)
  then show ?case using Cons.IH [OF _ h1(2)] Cons.prems(1) reachable.step by blast
qed simp

definition demo_policy :: policy where
  "demo_policy = \<lparr>rp_max_attempts = 3, rp_base = 0, rp_multiplier = 2, rp_max_delay = 0, rp_jitter = 0\<rparr>"

definition fresh_hub :: hub where
  "fresh_hub = \<lparr>h_store = new_store, h_pool = \<lparr>p_queue = [], p_pending = 0, p_inflight = 0, p_completed = [], p_stopping = False\<rparr>,
     h_workers = [Idle], h_clients = [], h_next = 1\<rparr>"

lemma fresh_reachable: "reachable pol fresh_hub"
  by (rule reachable.start [of 1]) (simp add: start_hub_def fresh_hub_def)

definition race :: "sched list" where
  "race = [Submit ''k'', Client 0] @ replicate 4 (Work 0 (Returns (PInt 1))) @ [Invalidate ''k''] @ replicate 4 (Work 0 (Returns (PInt 1)))"

lemma race_runs:
  "case run_sched demo_policy race fresh_hub of None \<Rightarrow> False
     | Some h \<Rightarrow> drained h \<and> h_clients h = [] \<and> stale_entries (h_store h) = [(''k'', 0, 1, PInt 1)]"
  by code_simp

text \<open>C24. Generations of the hub's store: in every reachable state a stale entry is behind the live
  generation of its key, never ahead of it; but the invariant G of the design, that a hub at rest has
  no stale entry, fails: a job whose key is invalidated between its snapshot and its commit leaves one.\<close>

theorem stale_only_behind:
  assumes "reachable pol h"
  shows "list_all (\<lambda>(k, g, live, v). g < live) (stale_entries (h_store h))
   \<and> (\<exists>h'. reachable demo_policy h' \<and> drained h' \<and> h_clients h' = [] \<and> stale_entries (h_store h') \<noteq> [])"
proof
  show "list_all (\<lambda>(k, g, live, v). g < live) (stale_entries (h_store h))"
    using reachable_gens [OF assms] by (fastforce simp: gens_ok_def stale_entries_def list_all_iff)
  obtain h' where h: "run_sched demo_policy race fresh_hub = Some h'" "drained h'" "h_clients h' = []"
      "stale_entries (h_store h') = [(''k'', 0, 1, PInt 1)]"
    using race_runs by (auto split: option.splits)
  then show "\<exists>h'. reachable demo_policy h' \<and> drained h' \<and> h_clients h' = [] \<and> stale_entries (h_store h') \<noteq> []"
    using run_sched_reachable [OF fresh_reachable h(1)] by auto
qed

theorem stale_only_behind_witness:
  "\<exists>h. reachable demo_policy h \<and> stale_entries (h_store h) = [(''k'', 0, 1, PInt 1)] \<and> list_all (\<lambda>(k, g, live, v). g < live) (stale_entries (h_store h))"
proof -
  obtain h where h: "run_sched demo_policy race fresh_hub = Some h" "stale_entries (h_store h) = [(''k'', 0, 1, PInt 1)]"
    using race_runs by (auto split: option.splits)
  have r: "reachable demo_policy h" by (rule run_sched_reachable [OF fresh_reachable h(1)])
  then show ?thesis using stale_only_behind [OF r] h(2) by blast
qed

lemma busy_reachable: "reachable demo_policy (hub_submit ''k'' fresh_hub)"
  using reachable.step [OF fresh_reachable hub_step.submits] .




end
