(* ===== verification/Community.thy ===== *)
theory Community
  imports Config
begin

text \<open>
  Community results (\<open>src/llm_hardtest/community_results.py\<close>): the aggregation of public bundles by
  exact configuration, and the gated Pareto shortlist made from the aggregate rows.

  Submissions are validated bundles, so names are strings and numbers finite; sums of numbers are
  rationals. \<open>sha\<close> is the hexadecimal SHA-256, \<open>dumps\<close> the canonical JSON text and \<open>sq\<close> is
  \<open>math.sqrt\<close>. Sets of names are lists, tried in the order written here. The constraint keys are split
  into the tables of the code.
\<close>

section \<open>Aggregation\<close>

definition MIN_BASELINE_SUBMISSIONS :: nat where
  "MIN_BASELINE_SUBMISSIONS = 5"

record interval =
  iv_estimate :: rat
  iv_low :: rat
  iv_high :: rat
  iv_observed :: nat

definition mean_rat :: "rat list \<Rightarrow> rat" where
  "mean_rat qs = sum_list qs / of_nat (length qs)"

definition cluster_interval :: "(rat \<Rightarrow> rat) \<Rightarrow> rat list \<Rightarrow> interval option" where
  "cluster_interval sq rates =
     (if length rates < MIN_BASELINE_SUBMISSIONS then None
      else let n = of_nat (length rates); z = 196 / 100; e = mean_rat rates; den = 1 + z\<^sup>2 / n;
               center = (e + z\<^sup>2 / (2 * n)) / den;
               margin = z / den * sq (e * (1 - e) / n + z\<^sup>2 / (4 * n\<^sup>2))
           in Some \<lparr>iv_estimate = py_round 6 e, iv_low = py_round 6 (max 0 (center - margin)),
                    iv_high = py_round 6 (min 1 (center + margin)), iv_observed = length rates\<rparr>)"

definition percentile :: "rat list \<Rightarrow> rat \<Rightarrow> rat option" where
  "percentile vs p =
     (if vs = [] then None
      else Some (py_round 3 (sort vs ! nat (max 0 (\<lceil>p * of_nat (length vs)\<rceil> - 1)))))"

text \<open>A number that is not a boolean.\<close>

definition pure_num :: "pyval \<Rightarrow> rat option" where
  "pure_num v = (case v of PInt i \<Rightarrow> Some (of_int i) | PFloat q \<Rightarrow> Some q | _ \<Rightarrow> None)"

definition dict_item :: "pyval \<Rightarrow> string \<Rightarrow> pyval res" where
  "dict_item v k = (case v of PDict d \<Rightarrow> jitem d k | _ \<Rightarrow> Inl (TypeError ''object is not subscriptable''))"

definition schema_at_least :: "jobj \<Rightarrow> int \<Rightarrow> bool res" where
  "schema_at_least payload n =
     (case py_num (jget_or payload ''schema_version'' (PInt 1)) of
        Some q \<Rightarrow> Inr (of_int n \<le> q) | None \<Rightarrow> Inl (TypeError ''unorderable types''))"

definition normalized_serving_environment :: "jobj \<Rightarrow> jobj \<Rightarrow> pyval res" where
  "normalized_serving_environment payload model =
     res_bind (schema_at_least payload 3) (\<lambda>new.
       if new then jitem model ''serving_environment''
       else Inr (PDict [(''scope'', PStr ''unreported''), (''os'', PNone), (''architecture'', PNone)]))"

definition normalized_execution_scaffold :: "jobj \<Rightarrow> jobj \<Rightarrow> pyval res" where
  "normalized_execution_scaffold payload model =
     res_bind (schema_at_least payload 4) (\<lambda>new.
       if new then jitem model ''execution_scaffold''
       else Inr (PDict [(''agent_backend'', PStr ''codex_cli''), (''isolation_mode'', PStr ''none''),
                        (''network'', PStr ''unrestricted''), (''fail_closed'', PBool False)]))"

record identity =
  id_environment :: pyval
  id_serving :: pyval
  id_model :: pyval
  id_transport :: pyval
  id_parameters :: pyval
  id_metadata :: pyval

definition identity_of :: "jobj \<Rightarrow> jobj \<Rightarrow> identity res" where
  "identity_of payload model =
     res_bind (jitem payload ''environment'') (\<lambda>env.
     res_bind (normalized_serving_environment payload model) (\<lambda>serving.
     res_bind (jitem model ''public_name'') (\<lambda>nm.
     res_bind (jitem model ''transport'') (\<lambda>transport.
     res_bind (jitem model ''parameters'') (\<lambda>params.
     res_bind (jitem model ''public_metadata'') (\<lambda>metadata.
       Inr \<lparr>id_environment = env, id_serving = serving, id_model = nm, id_transport = transport,
            id_parameters = params, id_metadata = metadata\<rparr>))))))"

definition configuration_id :: "(string \<Rightarrow> string) \<Rightarrow> (pyval \<Rightarrow> string) \<Rightarrow> jobj \<Rightarrow> jobj \<Rightarrow> string res" where
  "configuration_id sha dumps payload model =
     res_bind (identity_of payload model) (\<lambda>i.
     res_bind (normalized_execution_scaffold payload model) (\<lambda>scaffold.
       Inr (take 10 (sha (dumps (PDict
         [(''runner_environment'', id_environment i), (''serving_environment'', id_serving i), (''execution_scaffold'', scaffold),
          (''public_name'', id_model i), (''transport'', id_transport i), (''parameters'', id_parameters i),
          (''public_metadata'', id_metadata i)]))))))"

record local_group =
  lg_runs :: int
  lg_passed :: rat
  lg_total :: rat
  lg_incomplete :: rat
  lg_review :: rat
  lg_infra :: rat
  lg_walls :: "rat list"
  lg_rates :: "rat list"

definition new_local :: local_group where
  "new_local = \<lparr>lg_runs = 0, lg_passed = 0, lg_total = 0, lg_incomplete = 0, lg_review = 0, lg_infra = 0, lg_walls = [], lg_rates = []\<rparr>"

definition num_or_zero :: "jobj \<Rightarrow> string \<Rightarrow> rat" where
  "num_or_zero d k = (case pure_num (jget d k) of Some q \<Rightarrow> q | None \<Rightarrow> 0)"

definition add_item :: "local_group \<Rightarrow> jobj \<Rightarrow> local_group" where
  "add_item g item =
     (case pure_num (jget item ''wall_seconds'') of
        None \<Rightarrow> g
      | Some w \<Rightarrow> g\<lparr>lg_walls := lg_walls g @ [w],
                    lg_rates := lg_rates g @ (case jget item ''tokens'' of PInt t \<Rightarrow> if 0 < w then [of_int t / w] else [] | _ \<Rightarrow> [])\<rparr>)"

definition add_metrics :: "string \<Rightarrow> jobj \<Rightarrow> jobj list \<Rightarrow> local_group \<Rightarrow> local_group" where
  "add_metrics n metrics items g =
     foldl add_item
       (g\<lparr>lg_runs := lg_runs g + 1,
          lg_passed := lg_passed g + num_or_zero metrics (if n = ''4'' then ''release_ready'' else ''passed''),
          lg_total := lg_total g + num_or_zero metrics (if n = ''4'' then ''attempts'' else ''total''),
          lg_incomplete := lg_incomplete g + num_or_zero metrics ''incomplete'',
          lg_review := lg_review g + num_or_zero metrics ''manual_review'',
          lg_infra := lg_infra g + num_or_zero metrics ''infrastructure_errors''\<rparr>) items"

type_synonym agg_key = "int \<times> string \<times> string \<times> string"

definition obj_of :: "pyval \<Rightarrow> jobj res" where
  "obj_of v = (case v of PDict d \<Rightarrow> Inr d | _ \<Rightarrow> Inl (AttributeError ''get''))"

definition text_of :: "pyval \<Rightarrow> string res" where
  "text_of v = (case v of PStr s \<Rightarrow> Inr s | _ \<Rightarrow> Inl (TypeError ''expected str''))"

type_synonym local_state = "(string, identity) dict \<times> (agg_key, local_group) dict"

definition round_step :: "jobj \<Rightarrow> string \<Rightarrow> string \<Rightarrow> (agg_key, local_group) dict \<Rightarrow> string \<times> pyval \<Rightarrow> (agg_key, local_group) dict res" where
  "round_step payload nm conf groups nv =
     (case nv of (n, v) \<Rightarrow>
        res_bind (jitem payload ''benchmark'') (\<lambda>b.
        res_bind (dict_item b ''packs'') (\<lambda>ps.
        res_bind (res_bind (dict_item ps n) text_of) (\<lambda>pack.
        res_bind (py_int (PStr n)) (\<lambda>k.
        res_bind (obj_of v) (\<lambda>metrics.
        res_bind (res_bind (py_iter (jget_or metrics ''items'' (PList []))) (res_map obj_of)) (\<lambda>items.
          let key = (k, pack, nm, conf) in
          Inr (AList.update key (add_metrics n metrics items (dict_get groups key new_local)) groups))))))))"

definition model_step ::
  "(string \<Rightarrow> string) \<Rightarrow> (pyval \<Rightarrow> string) \<Rightarrow> jobj \<Rightarrow> local_state \<Rightarrow> pyval \<Rightarrow> local_state res" where
  "model_step sha dumps payload s v =
     res_bind (obj_of v) (\<lambda>model.
     res_bind (configuration_id sha dumps payload model) (\<lambda>conf.
     res_bind (identity_of payload model) (\<lambda>i.
     res_bind (text_of (id_model i)) (\<lambda>nm.
       if dict_get (fst s) conf i \<noteq> i then Inl (ValueError ''public configuration ID collision'')
       else res_bind (res_bind (jitem model ''rounds'') obj_of) (\<lambda>rounds.
            res_bind (res_fold (round_step payload nm conf) (snd s) rounds) (\<lambda>groups.
              Inr (if dict_has (fst s) conf then fst s else fst s @ [(conf, i)], groups)))))))"

record group =
  gr_submissions :: int
  gr_runs :: int
  gr_passed :: rat
  gr_total :: rat
  gr_incomplete :: rat
  gr_review :: rat
  gr_infra :: rat
  gr_pass_rates :: "rat list"
  gr_completion_rates :: "rat list"
  gr_walls :: "rat list"
  gr_rates :: "rat list"

definition new_group :: group where
  "new_group = \<lparr>gr_submissions = 0, gr_runs = 0, gr_passed = 0, gr_total = 0, gr_incomplete = 0, gr_review = 0, gr_infra = 0,
     gr_pass_rates = [], gr_completion_rates = [], gr_walls = [], gr_rates = []\<rparr>"

definition attempted :: "local_group \<Rightarrow> rat" where
  "attempted l = lg_total l + lg_incomplete l + lg_review l + lg_infra l"

definition add_local :: "local_group \<Rightarrow> group \<Rightarrow> group" where
  "add_local l g =
     g\<lparr>gr_submissions := gr_submissions g + 1, gr_runs := gr_runs g + lg_runs l, gr_passed := gr_passed g + lg_passed l,
       gr_total := gr_total g + lg_total l, gr_incomplete := gr_incomplete g + lg_incomplete l,
       gr_review := gr_review g + lg_review l, gr_infra := gr_infra g + lg_infra l,
       gr_pass_rates := gr_pass_rates g @ (if 0 < lg_total l then [lg_passed l / lg_total l] else []),
       gr_completion_rates := gr_completion_rates g @ (if 0 < attempted l then [lg_total l / attempted l] else []),
       gr_walls := gr_walls g @ (if lg_walls l \<noteq> [] then [mean_rat (lg_walls l)] else []),
       gr_rates := gr_rates g @ (if lg_rates l \<noteq> [] then [mean_rat (lg_rates l)] else [])\<rparr>"

definition add_bundle :: "(agg_key, local_group) dict \<Rightarrow> (agg_key, group) dict \<Rightarrow> (agg_key, group) dict" where
  "add_bundle locals groups = fold (\<lambda>(k, l) gs. AList.update k (add_local l (dict_get gs k new_group)) gs) locals groups"

definition payload_step ::
  "(string \<Rightarrow> string) \<Rightarrow> (pyval \<Rightarrow> string) \<Rightarrow> (string, identity) dict \<times> (agg_key, group) dict \<Rightarrow> jobj
    \<Rightarrow> ((string, identity) dict \<times> (agg_key, group) dict) res" where
  "payload_step sha dumps s payload =
     res_bind (need payload ''models'') (\<lambda>models.
     res_bind (res_fold (model_step sha dumps payload) (fst s, []) models) (\<lambda>l.
       Inr (fst l, add_bundle (snd l) (snd s))))"

record agg_row =
  ar_round :: int
  ar_pack :: string
  ar_model :: string
  ar_configuration :: string
  ar_identity :: identity
  ar_group :: group
  ar_observed :: nat
  ar_pass :: "interval option"
  ar_completion_observed :: nat
  ar_completion :: "interval option"
  ar_wall_p50 :: "rat option"
  ar_wall_p90 :: "rat option"
  ar_wall_observed :: nat
  ar_tokens_p50 :: "rat option"
  ar_tokens_observed :: nat

definition agg_row_of :: "(rat \<Rightarrow> rat) \<Rightarrow> (string, identity) dict \<Rightarrow> agg_key \<times> group \<Rightarrow> agg_row res" where
  "agg_row_of sq confs kg =
     (case kg of ((n, pack, nm, conf), g) \<Rightarrow>
        case map_of confs conf of
          None \<Rightarrow> Inl (KeyError conf)
        | Some i \<Rightarrow> Inr
            \<lparr>ar_round = n, ar_pack = pack, ar_model = nm, ar_configuration = conf, ar_identity = i, ar_group = g,
             ar_observed = length (gr_pass_rates g), ar_pass = cluster_interval sq (gr_pass_rates g),
             ar_completion_observed = length (gr_completion_rates g), ar_completion = cluster_interval sq (gr_completion_rates g),
             ar_wall_p50 = percentile (gr_walls g) (1/2), ar_wall_p90 = percentile (gr_walls g) (9/10), ar_wall_observed = length (gr_walls g),
             ar_tokens_p50 = percentile (gr_rates g) (1/2), ar_tokens_observed = length (gr_rates g)\<rparr>)"

definition aggregate_submissions :: "(string \<Rightarrow> string) \<Rightarrow> (pyval \<Rightarrow> string) \<Rightarrow> (rat \<Rightarrow> rat) \<Rightarrow> jobj list \<Rightarrow> agg_row list res" where
  "aggregate_submissions sha dumps sq submissions =
     res_bind (res_fold (payload_step sha dumps) ([], []) submissions) (\<lambda>s.
       res_map (agg_row_of sq (fst s)) (sort_key (\<lambda>((n, _, nm, conf), _). (n, str_lower nm, conf)) (snd s)))"

section \<open>Recommendation\<close>

definition OBJECTIVES :: "string list" where
  "OBJECTIVES = [''accuracy'', ''completion'', ''latency'', ''throughput'']"

definition TEXT_CONSTRAINTS :: "string list" where
  "TEXT_CONSTRAINTS = [''configuration'', ''model'', ''os'', ''architecture'', ''python'', ''transport'', ''serving_scope'', ''serving_os'',
     ''serving_architecture'', ''reasoning_effort'', ''model_revision'', ''quantization'', ''model_format'', ''server'', ''server_version'',
     ''accelerator'']"

definition NUMERIC_CONSTRAINTS :: "string list" where
  "NUMERIC_CONSTRAINTS = [''context_window'', ''max_tokens'', ''temperature'', ''top_p'', ''top_k'', ''min_p'', ''parameter_count_b'',
     ''accelerator_count'', ''memory_gb'', ''system_memory_gb'']"

definition MAX_CONSTRAINTS :: "string list" where
  "MAX_CONSTRAINTS = [''max_memory_gb'', ''max_system_memory_gb'', ''max_parameter_count_b'']"

definition PARAMETER_CONSTRAINTS :: "string list" where
  "PARAMETER_CONSTRAINTS = [''reasoning_effort'', ''context_window'', ''max_tokens'', ''temperature'', ''top_p'', ''top_k'', ''min_p'']"

definition constraint_value :: "agg_row \<Rightarrow> string \<Rightarrow> pyval res" where
  "constraint_value row key =
     (let i = ar_identity row; get = (\<lambda>v k. map_sum id (\<lambda>d. jget d k) (obj_of v)) in
      if key = ''configuration'' then Inr (PStr (ar_configuration row))
      else if key = ''model'' then Inr (id_model i)
      else if key \<in> {''os'', ''architecture'', ''python''} then get (id_environment i) key
      else if key \<in> {''serving_scope'', ''serving_os'', ''serving_architecture''} then get (id_serving i) (drop 8 key)
      else if key = ''transport'' then Inr (id_transport i)
      else if key \<in> set PARAMETER_CONSTRAINTS then get (id_parameters i) key
      else if key \<in> set MAX_CONSTRAINTS then get (id_metadata i) (drop 4 key)
      else get (id_metadata i) key)"

definition matches_constraint :: "agg_row \<Rightarrow> string \<times> pyval \<Rightarrow> bool res" where
  "matches_constraint row kv =
     (case kv of (key, expected) \<Rightarrow>
        res_bind (constraint_value row key) (\<lambda>actual. Inr
          (if actual = PNone then False
           else if key \<in> set MAX_CONSTRAINTS
           then (case (pure_num actual, py_num expected) of (Some a, Some e) \<Rightarrow> a \<le> e | _ \<Rightarrow> False)
           else case expected of
                  PStr e \<Rightarrow> (case actual of PStr a \<Rightarrow> str_lower a = str_lower e | _ \<Rightarrow> False)
                | _ \<Rightarrow> py_eq actual expected)))"

fun matches_constraints :: "agg_row \<Rightarrow> jobj \<Rightarrow> bool res" where
  "matches_constraints row [] = Inr True"
| "matches_constraints row (kv # cs) =
     res_bind (matches_constraint row kv) (\<lambda>ok. if ok then matches_constraints row cs else Inr False)"

record metrics =
  mt_accuracy_low :: "rat option"
  mt_accuracy :: "rat option"
  mt_completion_low :: "rat option"
  mt_completion :: "rat option"
  mt_latency :: "rat option"
  mt_latency_bundles :: nat
  mt_throughput :: "rat option"
  mt_throughput_bundles :: nat

definition candidate_metrics :: "agg_row \<Rightarrow> metrics" where
  "candidate_metrics row =
     \<lparr>mt_accuracy_low = map_option iv_low (ar_pass row), mt_accuracy = map_option iv_estimate (ar_pass row),
      mt_completion_low = map_option iv_low (ar_completion row), mt_completion = map_option iv_estimate (ar_completion row),
      mt_latency = (if MIN_BASELINE_SUBMISSIONS \<le> ar_wall_observed row then ar_wall_p90 row else None),
      mt_latency_bundles = ar_wall_observed row,
      mt_throughput = (if MIN_BASELINE_SUBMISSIONS \<le> ar_tokens_observed row then ar_tokens_p50 row else None),
      mt_throughput_bundles = ar_tokens_observed row\<rparr>"

record candidate =
  ca_row :: agg_row
  ca_metrics :: metrics

definition objective_value :: "candidate \<Rightarrow> string \<Rightarrow> rat option" where
  "objective_value c objective =
     (let m = ca_metrics c in
      if objective = ''accuracy'' then mt_accuracy_low m else if objective = ''completion'' then mt_completion_low m
      else if objective = ''latency'' then mt_latency m else mt_throughput m)"

definition no_worse :: "string \<Rightarrow> rat \<Rightarrow> rat \<Rightarrow> bool" where
  "no_worse objective l r = (if objective = ''latency'' then l \<le> r else r \<le> l)"

definition dominates :: "candidate \<Rightarrow> candidate \<Rightarrow> string list \<Rightarrow> bool" where
  "dominates left right objectives \<longleftrightarrow>
     list_all (\<lambda>ob. objective_value left ob \<noteq> None \<and> objective_value right ob \<noteq> None) objectives
     \<and> list_all (\<lambda>ob. no_worse ob (the (objective_value left ob)) (the (objective_value right ob))) objectives
     \<and> list_ex (\<lambda>ob. \<not> no_worse ob (the (objective_value right ob)) (the (objective_value left ob))) objectives"

definition safe_text :: "pyval \<Rightarrow> bool" where
  "safe_text v = (case v of PStr s \<Rightarrow> str_strip s \<noteq> [] \<and> length s \<le> 160 \<and> list_all (\<lambda>c. 32 \<le> ch_code c) s | _ \<Rightarrow> False)"

definition hex_ch :: "char \<Rightarrow> bool" where
  "hex_ch c \<longleftrightarrow> ch_digit c \<or> c \<in> set ''abcdef''"

definition configuration_ok :: "string \<Rightarrow> bool" where
  "configuration_ok s \<longleftrightarrow> length s = 10 \<and> list_all hex_ch s"

definition pack_ok :: "string \<Rightarrow> bool" where
  "pack_ok s \<longleftrightarrow> starts_with ''sha256:'' s \<and> length s = 71 \<and> list_all hex_ch (drop 7 s)"

definition python_ok :: "string \<Rightarrow> bool" where
  "python_ok s = (case split_on (CHR ''.'') s of [a, b] \<Rightarrow> all_digits a \<and> all_digits b | _ \<Rightarrow> False)"

definition constraint_error :: "string \<Rightarrow> exn" where
  "constraint_error key = ValueError (''recommendation constraint '' @ key @ '' is invalid'')"

definition check_constraints :: "jobj \<Rightarrow> unit res" where
  "check_constraints cs =
     (let has = dict_has cs; val = jget cs; txt = (\<lambda>k. case jget cs k of PStr s \<Rightarrow> s | _ \<Rightarrow> []) in
      res_seq
       ([fail_if (\<not> list_all (\<lambda>(k, _). k \<in> set (TEXT_CONSTRAINTS @ NUMERIC_CONSTRAINTS @ MAX_CONSTRAINTS)) cs)
           (ValueError ''unknown recommendation constraint(s)'')]
        @ map (\<lambda>k. fail_if (has k \<and> \<not> (case pure_num (val k) of Some q \<Rightarrow> 0 < q | None \<Rightarrow> False)) (constraint_error k)) MAX_CONSTRAINTS
        @ map (\<lambda>k. fail_if (has k \<and> pure_num (val k) = None) (constraint_error k)) NUMERIC_CONSTRAINTS
        @ map (\<lambda>k. fail_if (has k \<and> \<not> safe_text (val k)) (constraint_error k)) TEXT_CONSTRAINTS
        @ [fail_if (has ''configuration'' \<and> \<not> configuration_ok (txt ''configuration'')) (constraint_error ''configuration''),
           fail_if (has ''python'' \<and> \<not> python_ok (txt ''python'')) (constraint_error ''python''),
           fail_if (has ''transport'' \<and> txt ''transport'' \<notin> {''openai_compat'', ''codex_cli''}) (constraint_error ''transport''),
           fail_if (has ''serving_scope'' \<and> txt ''serving_scope'' \<notin> {''same_host'', ''remote'', ''unreported''}) (constraint_error ''serving_scope''),
           fail_if (has ''serving_os'' \<and> txt ''serving_os'' \<notin> {''Linux'', ''Darwin'', ''Windows'', ''Other''}) (constraint_error ''serving_os''),
           fail_if (has ''serving_architecture'' \<and> 32 < length (txt ''serving_architecture'')) (constraint_error ''serving_architecture'')]))"

definition check_objectives :: "pyval \<Rightarrow> string list res" where
  "check_objectives v =
     (let e = ValueError ''recommendation objectives must be unique known values'' in
      case v of
        PStr _ \<Rightarrow> Inl (ValueError ''recommendation objectives must be a list'')
      | _ \<Rightarrow>
          res_bind (if truthy v then py_iter v else Inr [PStr ''accuracy'']) (\<lambda>vs.
            if \<not> list_all hashable vs then Inl (TypeError ''unhashable type'')
            else if py_distinct vs \<and> list_all (\<lambda>x. x \<in> set (map PStr OBJECTIVES)) vs then res_map text_of vs
            else Inl e))"

definition check_floor :: "pyval \<Rightarrow> rat option res" where
  "check_floor v =
     (if v = PNone then Inr None
      else case pure_num v of
             Some q \<Rightarrow> if 0 \<le> q \<and> q \<le> 1 then Inr (Some q) else Inl (ValueError ''accuracy floor must be between 0 and 1'')
           | None \<Rightarrow> Inl (ValueError ''accuracy floor must be between 0 and 1''))"

definition check_pack :: "pyval \<Rightarrow> string option res" where
  "check_pack v =
     (case v of
        PNone \<Rightarrow> Inr None
      | PStr s \<Rightarrow> if pack_ok s then Inr (Some s) else Inl (ValueError ''recommendation pack must be an exact sha256 fingerprint'')
      | _ \<Rightarrow> Inl (ValueError ''recommendation pack must be an exact sha256 fingerprint''))"

definition check_round :: "pyval \<Rightarrow> int res" where
  "check_round v =
     (case pure_num v of
        Some q \<Rightarrow> if q \<in> {1, 2, 3, 4} then Inr \<lfloor>q\<rfloor> else Inl (ValueError ''recommendation round must be one of 1, 2, 3, or 4'')
      | None \<Rightarrow> if hashable v then Inl (ValueError ''recommendation round must be one of 1, 2, 3, or 4'')
                else Inl (TypeError ''unhashable type''))"

text \<open>What becomes of a matched row.\<close>

datatype gate = Insufficient | Missing | Below | Eligible candidate

definition gate_row :: "string list \<Rightarrow> rat option \<Rightarrow> agg_row \<Rightarrow> gate" where
  "gate_row objectives accuracy_floor row =
     (let c = \<lparr>ca_row = row, ca_metrics = candidate_metrics row\<rparr> in
      if ar_pass row = None then Insufficient
      else if list_ex (\<lambda>ob. objective_value c ob = None) objectives then Missing
      else case accuracy_floor of
             Some f \<Rightarrow> if the (mt_accuracy_low (ca_metrics c)) < f then Below else Eligible c
           | None \<Rightarrow> Eligible c)"

fun eligible_of :: "gate \<Rightarrow> candidate option" where
  "eligible_of (Eligible c) = Some c" | "eligible_of _ = None"

text \<open>\<open>any(dominates(other, c) for other in eligible if other is not c)\<close>: identity is the position.\<close>

definition dominated :: "string list \<Rightarrow> candidate list \<Rightarrow> nat \<Rightarrow> bool" where
  "dominated objectives cs i = list_ex (\<lambda>j. j \<noteq> i \<and> dominates (cs ! j) (cs ! i) objectives) [0..<length cs]"

definition frontier :: "string list \<Rightarrow> candidate list \<Rightarrow> candidate list" where
  "frontier objectives cs = map (nth cs) (filter (\<lambda>i. \<not> dominated objectives cs i) [0..<length cs])"

record recommendation =
  rc_pack :: "string option"
  rc_available :: "string list"
  rc_status :: string
  rc_matched :: nat
  rc_eligible :: nat
  rc_candidates :: "candidate list"
  rc_out_constraints :: nat
  rc_out_insufficient :: nat
  rc_out_missing :: nat
  rc_out_floor :: nat
  rc_out_dominated :: nat

definition shortlist :: "jobj \<Rightarrow> string list \<Rightarrow> rat option \<Rightarrow> string \<Rightarrow> string list \<Rightarrow> agg_row list \<Rightarrow> recommendation res" where
  "shortlist constraints objectives accuracy_floor pack available rows =
     res_bind (res_map (\<lambda>row. matches_constraints row constraints) rows) (\<lambda>oks.
       let matched = map fst (filter snd (zip rows oks));
           gates = map (gate_row objectives accuracy_floor) matched;
           cs = List.map_filter eligible_of gates;
           front = frontier objectives cs;
           n = (\<lambda>P. length (filter P gates))
       in Inr \<lparr>rc_pack = Some pack, rc_available = available,
            rc_status = (if matched = [] then ''NO_MATCH'' else if cs = [] then ''INSUFFICIENT_EVIDENCE''
                         else if length cs = 1 then ''SINGLE_ELIGIBLE_CONFIGURATION'' else ''DESCRIPTIVE_CANDIDATES''),
            rc_matched = length matched, rc_eligible = length cs,
            rc_candidates = sort_key (\<lambda>c. (str_lower (ar_model (ca_row c)), ar_configuration (ca_row c))) front,
            rc_out_constraints = length rows - length matched,
            rc_out_insufficient = n (\<lambda>g. g = Insufficient), rc_out_missing = n (\<lambda>g. g = Missing), rc_out_floor = n (\<lambda>g. g = Below),
            rc_out_dominated = length cs - length front\<rparr>)"

definition nothing_found :: "string option \<Rightarrow> string list \<Rightarrow> string \<Rightarrow> recommendation" where
  "nothing_found pack available status =
     \<lparr>rc_pack = pack, rc_available = available, rc_status = status, rc_matched = 0, rc_eligible = 0, rc_candidates = [],
      rc_out_constraints = 0, rc_out_insufficient = 0, rc_out_missing = 0, rc_out_floor = 0, rc_out_dominated = 0\<rparr>"

definition recommend_rows ::
  "agg_row list \<Rightarrow> pyval \<Rightarrow> pyval \<Rightarrow> pyval \<Rightarrow> pyval \<Rightarrow> pyval \<Rightarrow> recommendation res" where
  "recommend_rows aggregate_rows round_number pack constraints objectives accuracy_floor =
     res_bind (check_round round_number) (\<lambda>n.
     res_bind (case constraints of PNone \<Rightarrow> Inr [] | PDict d \<Rightarrow> Inr d
               | _ \<Rightarrow> Inl (ValueError ''recommendation constraints must be an object'')) (\<lambda>cs.
     res_bind (check_constraints cs) (\<lambda>_.
     res_bind (check_objectives objectives) (\<lambda>obs.
     res_bind (check_floor accuracy_floor) (\<lambda>fl.
     res_bind (check_pack pack) (\<lambda>pk.
       let rows = filter (\<lambda>r. ar_round r = n) aggregate_rows;
           available = sort (remdups (map ar_pack rows));
           selected = (case pk of Some p \<Rightarrow> Some p | None \<Rightarrow> (case available of [p] \<Rightarrow> Some p | _ \<Rightarrow> None))
       in if pk = None \<and> 1 < length available then Inr (nothing_found selected available ''PACK_REQUIRED'')
          else case selected of
                 None \<Rightarrow> Inr (nothing_found selected available ''INSUFFICIENT_EVIDENCE'')
               | Some p \<Rightarrow>
                   if p \<notin> set available then Inr (nothing_found selected available ''INSUFFICIENT_EVIDENCE'')
                   else shortlist cs obs fl p available (filter (\<lambda>r. ar_pack r = p) rows)))))))"

definition recommend_configurations ::
  "(string \<Rightarrow> string) \<Rightarrow> (pyval \<Rightarrow> string) \<Rightarrow> (rat \<Rightarrow> rat) \<Rightarrow> jobj list \<Rightarrow> pyval \<Rightarrow> pyval \<Rightarrow> pyval \<Rightarrow> pyval \<Rightarrow> pyval
    \<Rightarrow> recommendation res" where
  "recommend_configurations sha dumps sq submissions round_number pack constraints objectives accuracy_floor =
     res_bind (aggregate_submissions sha dumps sq submissions) (\<lambda>rows.
       recommend_rows rows round_number pack constraints objectives accuracy_floor)"

section \<open>Dominance is a strict order\<close>

lemma no_worse_trans: "no_worse ob a b \<Longrightarrow> no_worse ob b c \<Longrightarrow> no_worse ob a c"
  by (auto simp: no_worse_def split: if_splits)

lemma no_worse_refl [simp]: "no_worse ob a a"
  by (simp add: no_worse_def)

lemma dominates_irrefl: "\<not> dominates c c obs"
  by (simp add: dominates_def list_ex_iff)

lemma dominates_trans:
  assumes "dominates a b obs" and "dominates b c obs"
  shows "dominates a c obs"
proof -
  let ?v = "\<lambda>x ob. the (objective_value x ob)"
  have le: "no_worse ob (?v a ob) (?v b ob)" "no_worse ob (?v b ob) (?v c ob)" if "ob \<in> set obs" for ob
    using assms that by (simp_all add: dominates_def list_all_iff)
  obtain ob where ob: "ob \<in> set obs" "\<not> no_worse ob (?v b ob) (?v a ob)"
    using assms(1) by (auto simp: dominates_def list_ex_iff)
  have "\<not> no_worse ob (?v c ob) (?v a ob)" using ob le(2) [OF ob(1)] no_worse_trans by blast
  moreover have "no_worse ob' (?v a ob') (?v c ob')" if "ob' \<in> set obs" for ob'
    using le [OF that] no_worse_trans by blast
  ultimately show ?thesis using assms ob(1) by (auto simp: dominates_def list_all_iff list_ex_iff)
qed

lemma frontier_filter: "frontier obs cs = filter (\<lambda>c. \<forall>d \<in> set cs. \<not> dominates d c obs) cs"
proof -
  have "dominated obs cs i \<longleftrightarrow> (\<exists>d \<in> set cs. dominates d (cs ! i) obs)" if "i < length cs" for i
  proof
    assume "dominated obs cs i"
    then show "\<exists>d \<in> set cs. dominates d (cs ! i) obs" by (auto simp: dominated_def list_ex_iff)
  next
    assume "\<exists>d \<in> set cs. dominates d (cs ! i) obs"
    then obtain j where j: "j < length cs" "dominates (cs ! j) (cs ! i) obs" by (metis in_set_conv_nth)
    then have "j \<noteq> i" using dominates_irrefl by blast
    then show "dominated obs cs i" using j by (auto simp: dominated_def list_ex_iff)
  qed
  then have "filter (\<lambda>i. \<not> dominated obs cs i) [0..<length cs]
      = filter (\<lambda>i. \<forall>d \<in> set cs. \<not> dominates d (cs ! i) obs) [0..<length cs]"
    by (intro filter_cong) auto
  then have "frontier obs cs = map (nth cs) (filter ((\<lambda>c. \<forall>d \<in> set cs. \<not> dominates d c obs) \<circ> nth cs) [0..<length cs])"
    by (simp add: frontier_def o_def)
  also have "\<dots> = filter (\<lambda>c. \<forall>d \<in> set cs. \<not> dominates d c obs) (map (nth cs) [0..<length cs])"
    by (simp add: filter_map)
  finally show ?thesis by (simp add: map_nth)
qed

text \<open>Every candidate is listed or beaten by a listed one.\<close>

lemma frontier_covers:
  assumes "c \<in> set cs"
  shows "c \<in> set (frontier obs cs) \<or> (\<exists>d \<in> set (frontier obs cs). dominates d c obs)"
  using assms
proof (induction "card {d \<in> set cs. dominates d c obs}" arbitrary: c rule: less_induct)
  case less
  show ?case
  proof (cases "\<exists>d \<in> set cs. dominates d c obs")
    case False
    then show ?thesis using less.prems by (simp add: frontier_filter)
  next
    case True
    then obtain d where d: "d \<in> set cs" "dominates d c obs" by blast
    have "{e \<in> set cs. dominates e d obs} \<subset> {e \<in> set cs. dominates e c obs}"
      using d dominates_trans dominates_irrefl by blast
    then have "card {e \<in> set cs. dominates e d obs} < card {e \<in> set cs. dominates e c obs}"
      by (simp add: psubset_card_mono)
    then show ?thesis using less.hyps [OF _ d(1)] d(2) dominates_trans by blast
  qed
qed

lemma gates_partition:
  "length (List.map_filter eligible_of gates) + length (filter (\<lambda>g. g = Insufficient) gates)
     + length (filter (\<lambda>g. g = Missing) gates) + length (filter (\<lambda>g. g = Below) gates) = length gates"
proof (induction gates)
  case (Cons g gates)
  then show ?case by (cases g) (simp_all add: List.map_filter_simps)
qed (simp add: List.map_filter_simps)

definition meets :: "string list \<Rightarrow> rat option \<Rightarrow> candidate \<Rightarrow> bool" where
  "meets objectives accuracy_floor c \<longleftrightarrow>
     ca_metrics c = candidate_metrics (ca_row c) \<and> MIN_BASELINE_SUBMISSIONS \<le> ar_observed (ca_row c)
     \<and> list_all (\<lambda>ob. objective_value c ob \<noteq> None) objectives
     \<and> (case accuracy_floor of None \<Rightarrow> True | Some f \<Rightarrow> \<exists>q. mt_accuracy_low (ca_metrics c) = Some q \<and> f \<le> q)"

text \<open>The rows that aggregation makes: an interval stands on enough bundles.\<close>

definition row_ok :: "agg_row \<Rightarrow> bool" where
  "row_ok r \<longleftrightarrow> (ar_pass r \<noteq> None \<longrightarrow> MIN_BASELINE_SUBMISSIONS \<le> ar_observed r)"

lemma eligible_meets:
  assumes "row_ok row" and "gate_row obs fl row = Eligible c"
  shows "ca_row c = row \<and> meets obs fl c"
  using assms
  by (auto simp: gate_row_def Let_def meets_def row_ok_def list_ex_iff list_all_iff candidate_metrics_def
      split: if_splits option.splits)

definition matched_rows :: "jobj \<Rightarrow> agg_row list \<Rightarrow> agg_row list" where
  "matched_rows constraints rows = filter (\<lambda>r. matches_constraints r constraints = Inr True) rows"

definition eligible_rows :: "string list \<Rightarrow> rat option \<Rightarrow> agg_row list \<Rightarrow> candidate list" where
  "eligible_rows obs fl rows = List.map_filter eligible_of (map (gate_row obs fl) rows)"

lemma res_map_matched:
  "res_map (\<lambda>row. matches_constraints row cs) rows = Inr oks \<Longrightarrow> map fst (filter snd (zip rows oks)) = matched_rows cs rows"
  by (induction rows arbitrary: oks) (auto simp: matched_rows_def split: sum.splits)

lemma shortlist_facts:
  assumes "shortlist constraints obs fl pack available rows = Inr r"
  shows "rc_matched r = length (matched_rows constraints rows)"
    and "rc_out_constraints r + rc_matched r = length rows"
    and "rc_eligible r = length (eligible_rows obs fl (matched_rows constraints rows))"
    and "rc_eligible r + rc_out_insufficient r + rc_out_missing r + rc_out_floor r = rc_matched r"
    and "rc_out_dominated r + length (rc_candidates r) = rc_eligible r"
    and "set (rc_candidates r) = set (frontier obs (eligible_rows obs fl (matched_rows constraints rows)))"
proof -
  obtain oks where oks: "res_map (\<lambda>row. matches_constraints row constraints) rows = Inr oks"
    using assms unfolding shortlist_def by (auto simp: res_bind_Inr_iff)
  define gates where "gates = map (gate_row obs fl) (matched_rows constraints rows)"
  define cs where "cs = List.map_filter eligible_of gates"
  have r: "rc_matched r = length (matched_rows constraints rows)" "rc_out_constraints r = length rows - length (matched_rows constraints rows)"
    "rc_eligible r = length cs" "rc_out_insufficient r = length (filter (\<lambda>g. g = Insufficient) gates)"
    "rc_out_missing r = length (filter (\<lambda>g. g = Missing) gates)" "rc_out_floor r = length (filter (\<lambda>g. g = Below) gates)"
    "rc_out_dominated r = length cs - length (frontier obs cs)" "length (rc_candidates r) = length (frontier obs cs)"
    "set (rc_candidates r) = set (frontier obs cs)"
    using assms unfolding shortlist_def oks res_bind.simps Let_def res_map_matched [OF oks] gates_def [symmetric] cs_def [symmetric]
    by auto
  have le: "length (matched_rows constraints rows) \<le> length rows" "length (frontier obs cs) \<le> length cs"
    by (simp_all add: matched_rows_def frontier_filter)
  show "rc_matched r = length (matched_rows constraints rows)" "rc_out_constraints r + rc_matched r = length rows"
    "rc_out_dominated r + length (rc_candidates r) = rc_eligible r"
    "rc_eligible r = length (eligible_rows obs fl (matched_rows constraints rows))"
    "set (rc_candidates r) = set (frontier obs (eligible_rows obs fl (matched_rows constraints rows)))"
    using r le by (simp_all add: eligible_rows_def cs_def gates_def)
  have "length gates = rc_matched r" by (simp add: gates_def r(1))
  then show "rc_eligible r + rc_out_insufficient r + rc_out_missing r + rc_out_floor r = rc_matched r"
    using gates_partition [of gates] r by (simp add: cs_def)
qed

text \<open>The request: the round, the objectives and the floor that \<open>recommend_rows\<close> reads.\<close>

definition constraints_of :: "pyval \<Rightarrow> jobj" where
  "constraints_of v = (case v of PDict d \<Rightarrow> d | _ \<Rightarrow> [])"

definition pack_rows :: "int \<Rightarrow> string \<Rightarrow> agg_row list \<Rightarrow> agg_row list" where
  "pack_rows k p rows = filter (\<lambda>x. ar_pack x = p) (filter (\<lambda>x. ar_round x = k) rows)"

text \<open>The answer has no rows, or it is a shortlist of the rows of one available pack.\<close>

definition no_pack :: "recommendation \<Rightarrow> bool" where
  "no_pack r \<longleftrightarrow> rc_status r = ''PACK_REQUIRED'' \<or> rc_pack r = None \<or> the (rc_pack r) \<notin> set (rc_available r)"

lemma recommend_rows_cases:
  assumes "recommend_rows rows n pack constraints objectives fl = Inr r"
  obtains k obs q where "check_round n = Inr k" "check_objectives objectives = Inr obs" "check_floor fl = Inr q"
    and "(no_pack r \<and> (\<exists>sel av st. r = nothing_found sel av st))
      \<or> (\<not> no_pack r \<and> shortlist (constraints_of constraints) obs q (the (rc_pack r)) (rc_available r) (pack_rows k (the (rc_pack r)) rows) = Inr r)"
proof -
  obtain k cs obs q pk where c: "check_round n = Inr k" "check_objectives objectives = Inr obs" "check_floor fl = Inr q"
    "check_pack pack = Inr pk"
    "(case constraints of PNone \<Rightarrow> Inr [] | PDict d \<Rightarrow> Inr d | _ \<Rightarrow> Inl (ValueError ''recommendation constraints must be an object'')) = Inr cs"
    "check_constraints cs = Inr ()"
    using assms unfolding recommend_rows_def by (auto simp: res_bind_Inr_iff)
  define av where "av = sort (remdups (map ar_pack (filter (\<lambda>x. ar_round x = k) rows)))"
  define sel where "sel = (case pk of Some p \<Rightarrow> Some p | None \<Rightarrow> (case av of [p] \<Rightarrow> Some p | _ \<Rightarrow> None))"
  have cs: "constraints_of constraints = cs" using c(5) by (cases constraints) (simp_all add: constraints_of_def)
  have eq: "(if pk = None \<and> 1 < length av then Inr (nothing_found sel av ''PACK_REQUIRED'')
          else case sel of
                 None \<Rightarrow> Inr (nothing_found sel av ''INSUFFICIENT_EVIDENCE'')
               | Some p \<Rightarrow> if p \<notin> set av then Inr (nothing_found sel av ''INSUFFICIENT_EVIDENCE'')
                   else shortlist cs obs q p av (pack_rows k p rows)) = Inr r"
    using assms unfolding recommend_rows_def c res_bind.simps Let_def av_def [symmetric] sel_def [symmetric] pack_rows_def by simp
  have sh: "rc_pack r' = Some p \<and> rc_available r' = av' \<and> rc_status r' \<noteq> ''PACK_REQUIRED''" if "shortlist cs obs q p av' xs = Inr r'" for p av' xs r'
    using that unfolding shortlist_def by (auto simp: res_bind_Inr_iff Let_def split: if_split_asm)
  show thesis
  proof (cases "(pk = None \<and> 1 < length av) \<or> sel = None \<or> the sel \<notin> set av")
    case True
    then have "no_pack r \<and> (\<exists>sel av st. r = nothing_found sel av st)"
      using eq by (auto simp: no_pack_def nothing_found_def split: if_splits option.splits)
    then show ?thesis using that [OF c(1-3)] by blast
  next
    case False
    then obtain p where p: "sel = Some p" "p \<in> set av" by auto
    then have e: "shortlist cs obs q p av (pack_rows k p rows) = Inr r" using eq False by auto
    then show ?thesis using that [OF c(1-3)] sh [OF e] cs p by (simp add: no_pack_def)
  qed
qed


definition demo_identity :: identity where
  "demo_identity = \<lparr>id_environment = PDict [(''os'', PStr ''Linux'')], id_serving = PDict [], id_model = PStr ''m'', id_transport = PStr ''openai_compat'',
     id_parameters = PDict [], id_metadata = PDict []\<rparr>"

definition demo_agg :: "string \<Rightarrow> rat \<Rightarrow> agg_row" where
  "demo_agg conf low =
     \<lparr>ar_round = 1, ar_pack = ''p'', ar_model = ''m'', ar_configuration = conf, ar_identity = demo_identity, ar_group = new_group,
      ar_observed = 5, ar_pass = Some \<lparr>iv_estimate = 1, iv_low = low, iv_high = 1, iv_observed = 5\<rparr>, ar_completion_observed = 5,
      ar_completion = None, ar_wall_p50 = None, ar_wall_p90 = None, ar_wall_observed = 0, ar_tokens_p50 = None, ar_tokens_observed = 0\<rparr>"

lemma demo_recommended:
  "case recommend_rows [demo_agg ''a'' (1/2), demo_agg ''b'' (3/4)] (PInt 1) PNone (PDict [(''os'', PStr ''linux'')]) PNone (PFloat (1/4)) of
     Inl _ \<Rightarrow> False | Inr r \<Rightarrow> map ca_row (rc_candidates r) = [demo_agg ''b'' (3/4)] \<and> rc_eligible r = 2"
  by code_simp

lemma demo_request:
  "check_round (PInt 1) = Inr 1" "check_objectives PNone = Inr [''accuracy'']" "check_floor (PFloat (1/4)) = Inr (Some (1/4))"
  "list_all row_ok [demo_agg ''a'' (1/2), demo_agg ''b'' (3/4)]"
  by code_simp+


section \<open>One bundle, one vote\<close>

definition sum_of :: "('v \<Rightarrow> int) \<Rightarrow> ('k, 'v) dict \<Rightarrow> int" where
  "sum_of f d = (\<Sum>(k, v)\<leftarrow>d. f v)"

lemma sum_of_update:
  "dict_wf d \<Longrightarrow> sum_of f (AList.update k v d) + (case map_of d k of None \<Rightarrow> 0 | Some w \<Rightarrow> f w) = sum_of f d + f v"
  by (induction d) (auto simp: sum_of_def dict_wf_def)

lemma update_in: "(k', v') \<in> set (AList.update k v d) \<Longrightarrow> (k', v') = (k, v) \<or> (k', v') \<in> set d"
  by (induction d) (auto split: if_splits)

lemma add_items_runs: "lg_runs (foldl add_item g items) = lg_runs g"
  by (induction items arbitrary: g) (simp_all add: add_item_def split: option.splits)

lemma add_metrics_runs: "lg_runs (add_metrics n d items g) = lg_runs g + 1"
  by (simp add: add_metrics_def add_items_runs)

definition locals_ok :: "(agg_key, local_group) dict \<Rightarrow> bool" where
  "locals_ok ls \<longleftrightarrow> dict_wf ls \<and> (\<forall>(k, l) \<in> set ls. 1 \<le> lg_runs l)"

lemma round_step_ok:
  assumes "round_step payload nm conf ls nv = Inr ls'" and "locals_ok ls"
  shows "locals_ok ls' \<and> sum_of lg_runs ls' = sum_of lg_runs ls + 1"
proof -
  obtain key n d items where ls': "ls' = AList.update key (add_metrics n d items (dict_get ls key new_local)) ls"
    using assms(1) unfolding round_step_def by (auto simp: res_bind_Inr_iff Let_def split: prod.splits)
  have old: "0 \<le> lg_runs (dict_get ls key new_local)"
    using assms(2) by (fastforce simp: locals_ok_def dict_get_def new_local_def split: option.splits dest: map_of_SomeD)
  have "locals_ok ls'"
    using assms(2) old unfolding ls' locals_ok_def by (auto simp: add_metrics_runs dict_wf_update dest!: update_in)
  moreover have "dict_wf ls" using assms(2) by (simp add: locals_ok_def)
  from sum_of_update [OF this, of lg_runs key "add_metrics n d items (dict_get ls key new_local)"] have "sum_of lg_runs ls' = sum_of lg_runs ls + 1"
    by (simp add: ls' add_metrics_runs dict_get_def new_local_def split: option.splits)
  ultimately show ?thesis by simp
qed

lemma round_steps_ok:
  "res_fold (round_step payload nm conf) ls rounds = Inr ls' \<Longrightarrow> locals_ok ls
     \<Longrightarrow> locals_ok ls' \<and> sum_of lg_runs ls' = sum_of lg_runs ls + int (length rounds)"
proof (induction rounds arbitrary: ls)
  case (Cons r rounds)
  then obtain l where l: "round_step payload nm conf ls r = Inr l" "res_fold (round_step payload nm conf) l rounds = Inr ls'"
    by (auto split: sum.splits)
  show ?case using round_step_ok [OF l(1) Cons.prems(2)] Cons.IH [OF l(2)] by simp
qed simp

definition model_runs :: "pyval \<Rightarrow> int" where
  "model_runs v = (case v of PDict m \<Rightarrow> (case jget m ''rounds'' of PDict rs \<Rightarrow> int (length rs) | _ \<Rightarrow> 0) | _ \<Rightarrow> 0)"

definition payload_runs :: "jobj \<Rightarrow> int" where
  "payload_runs p = (case jget p ''models'' of PList ms \<Rightarrow> (\<Sum>m\<leftarrow>ms. model_runs m) | _ \<Rightarrow> 0)"

lemma obj_of_Inr [simp]: "obj_of v = Inr d \<longleftrightarrow> v = PDict d"
  by (cases v) (simp_all add: obj_of_def)

lemma model_step_ok:
  assumes "model_step sha dumps payload s v = Inr s'" and "locals_ok (snd s)"
  shows "locals_ok (snd s') \<and> sum_of lg_runs (snd s') = sum_of lg_runs (snd s) + model_runs v"
proof -
  obtain model conf nm rounds where m: "v = PDict model" "jitem model ''rounds'' = Inr (PDict rounds)"
    and r: "res_fold (round_step payload nm conf) (snd s) rounds = Inr (snd s')"
    using assms(1) unfolding model_step_def
    by (auto simp: res_bind_Inr_iff split: if_splits)
  have "model_runs v = int (length rounds)"
    using m by (auto simp: model_runs_def jitem_def jget_def dict_get_def split: option.splits)
  then show ?thesis using round_steps_ok [OF r assms(2)] by simp
qed

lemma model_steps_ok:
  "res_fold (model_step sha dumps payload) s vs = Inr s' \<Longrightarrow> locals_ok (snd s)
     \<Longrightarrow> locals_ok (snd s') \<and> sum_of lg_runs (snd s') = sum_of lg_runs (snd s) + (\<Sum>v\<leftarrow>vs. model_runs v)"
proof (induction vs arbitrary: s)
  case (Cons v vs)
  then obtain t where t: "model_step sha dumps payload s v = Inr t" "res_fold (model_step sha dumps payload) t vs = Inr s'"
    by (auto split: sum.splits)
  show ?case using model_step_ok [OF t(1) Cons.prems(2)] Cons.IH [OF t(2)] by simp
qed simp

definition group_ok :: "nat \<Rightarrow> group \<Rightarrow> bool" where
  "group_ok n g \<longleftrightarrow> gr_submissions g \<le> int n \<and> gr_submissions g \<le> gr_runs g
     \<and> int (length (gr_pass_rates g)) \<le> gr_submissions g \<and> int (length (gr_completion_rates g)) \<le> gr_submissions g
     \<and> int (length (gr_walls g)) \<le> gr_submissions g \<and> int (length (gr_rates g)) \<le> gr_submissions g"

lemma group_ok_mono: "group_ok n g \<Longrightarrow> n \<le> m \<Longrightarrow> group_ok m g"
  by (simp add: group_ok_def)

lemma add_local_ok: "group_ok n g \<Longrightarrow> 1 \<le> lg_runs l \<Longrightarrow> group_ok (Suc n) (add_local l g)"
  by (simp add: group_ok_def add_local_def)

lemma add_local_runs: "gr_runs (add_local l g) = gr_runs g + lg_runs l"
  by (simp add: add_local_def)

lemma add_bundle_ok:
  assumes "locals_ok ls" and "dict_wf gs" and "\<forall>(k, g) \<in> set gs. group_ok n g"
  shows "dict_wf (add_bundle ls gs) \<and> (\<forall>(k, g) \<in> set (add_bundle ls gs). group_ok (Suc n) g)
    \<and> sum_of gr_runs (add_bundle ls gs) = sum_of gr_runs gs + sum_of lg_runs ls"
proof -
  text \<open>Keys of the bundle that are still to come have not been touched.\<close>
  have "dict_wf ls \<Longrightarrow> \<forall>(k, l) \<in> set ls. 1 \<le> lg_runs l \<Longrightarrow> dict_wf gs \<Longrightarrow> \<forall>(k, g) \<in> set gs. group_ok (Suc n) g \<and> (k \<in> fst ` set ls \<longrightarrow> group_ok n g)
      \<Longrightarrow> dict_wf (add_bundle ls gs) \<and> (\<forall>(k, g) \<in> set (add_bundle ls gs). group_ok (Suc n) g)
        \<and> sum_of gr_runs (add_bundle ls gs) = sum_of gr_runs gs + sum_of lg_runs ls" for gs
  proof (induction ls arbitrary: gs)
    case Nil
    then show ?case by (auto simp: add_bundle_def sum_of_def)
  next
    case (Cons kl ls)
    obtain k l where kl: "kl = (k, l)" by (cases kl)
    define gs' where "gs' = AList.update k (add_local l (dict_get gs k new_group)) gs"
    have old: "group_ok n (dict_get gs k new_group)"
      using Cons.prems(4) kl by (fastforce simp: dict_get_def new_group_def group_ok_def split: option.splits dest: map_of_SomeD)
    then have new: "group_ok (Suc n) (add_local l (dict_get gs k new_group))"
      using Cons.prems(2) kl by (auto intro: add_local_ok)
    have k: "k \<notin> fst ` set ls" using Cons.prems(1) kl by (auto simp: dict_wf_def)
    have "\<forall>(k', g) \<in> set gs'. group_ok (Suc n) g \<and> (k' \<in> fst ` set ls \<longrightarrow> group_ok n g)"
      using Cons.prems(4) new k unfolding gs'_def by (force simp: kl dest!: update_in)
    moreover have "dict_wf gs'" using Cons.prems(3) by (simp add: gs'_def dict_wf_update)
    ultimately have IH: "dict_wf (add_bundle ls gs') \<and> (\<forall>(k, g) \<in> set (add_bundle ls gs'). group_ok (Suc n) g)
        \<and> sum_of gr_runs (add_bundle ls gs') = sum_of gr_runs gs' + sum_of lg_runs ls"
      using Cons.IH [of gs'] Cons.prems(1,2) by (simp add: dict_wf_def)
    have "sum_of gr_runs gs' = sum_of gr_runs gs + lg_runs l"
      using sum_of_update [OF Cons.prems(3), of gr_runs k "add_local l (dict_get gs k new_group)"]
      by (cases "map_of gs k") (simp_all add: gs'_def add_local_runs dict_get_def new_group_def)
    moreover have "add_bundle (kl # ls) gs = add_bundle ls gs'" by (simp add: add_bundle_def gs'_def kl)
    ultimately show ?case using IH by (simp add: sum_of_def kl)
  qed
  moreover have "\<forall>(k, g) \<in> set gs. group_ok (Suc n) g \<and> (k \<in> fst ` set ls \<longrightarrow> group_ok n g)"
    using assms(3) by (auto intro: group_ok_mono)
  ultimately show ?thesis using assms(1,2) by (simp add: locals_ok_def)
qed

lemma payload_step_ok:
  assumes "payload_step sha dumps s p = Inr s'" and "dict_wf (snd s)" and "\<forall>(k, g) \<in> set (snd s). group_ok n g"
  shows "dict_wf (snd s') \<and> (\<forall>(k, g) \<in> set (snd s'). group_ok (Suc n) g)
    \<and> sum_of gr_runs (snd s') = sum_of gr_runs (snd s) + payload_runs p"
proof -
  obtain ms l where ms: "need p ''models'' = Inr ms" "res_fold (model_step sha dumps p) (fst s, []) ms = Inr l"
    and s': "s' = (fst l, add_bundle (snd l) (snd s))"
    using assms(1) unfolding payload_step_def by (auto simp: res_bind_Inr_iff)
  have l: "locals_ok (snd l) \<and> sum_of lg_runs (snd l) = (\<Sum>v\<leftarrow>ms. model_runs v)"
    using model_steps_ok [OF ms(2)] by (simp add: locals_ok_def sum_of_def)
  have "(\<Sum>v\<leftarrow>ms. model_runs v) = payload_runs p"
  proof -
    have z: "(\<Sum>c\<leftarrow>w. model_runs (PStr (f c))) = 0" for f and w :: "'c list" by (induction w) (simp_all add: model_runs_def)
    obtain v where v: "jitem p ''models'' = Inr v" "py_iter v = Inr ms"
      using ms(1) by (auto simp: need_def res_bind_Inr_iff)
    then have "jget p ''models'' = v" by (auto simp: jitem_def jget_def dict_get_def split: option.splits)
    then show ?thesis using v(2) z [of "\<lambda>c. [c]"] z [of fst]
      by (auto simp: payload_runs_def py_iter_def o_def case_prod_unfold split: pyval.splits)
  qed
  then show ?thesis using add_bundle_ok [of "snd l" "snd s" n] l assms(2,3) s' by simp
qed

lemma payload_steps_ok:
  "res_fold (payload_step sha dumps) s ps = Inr s' \<Longrightarrow> dict_wf (snd s) \<Longrightarrow> \<forall>(k, g) \<in> set (snd s). group_ok n g
     \<Longrightarrow> dict_wf (snd s') \<and> (\<forall>(k, g) \<in> set (snd s'). group_ok (n + length ps) g)
       \<and> sum_of gr_runs (snd s') = sum_of gr_runs (snd s) + (\<Sum>p\<leftarrow>ps. payload_runs p)"
proof (induction ps arbitrary: s n)
  case (Cons p ps)
  then obtain t where t: "payload_step sha dumps s p = Inr t" "res_fold (payload_step sha dumps) t ps = Inr s'"
    by (auto split: sum.splits)
  note one = payload_step_ok [OF t(1) Cons.prems(2,3)]
  show ?case using Cons.IH [OF t(2), of "Suc n"] one by simp
qed simp

definition row_key :: "agg_row \<Rightarrow> agg_key" where
  "row_key r = (ar_round r, ar_pack r, ar_model r, ar_configuration r)"

lemma agg_row_facts:
  assumes "agg_row_of sq confs (k, g) = Inr r"
  shows "row_key r = k \<and> ar_group r = g \<and> ar_observed r = length (gr_pass_rates g) \<and> ar_completion_observed r = length (gr_completion_rates g) \<and> row_ok r"
  using assms
  by (cases k) (auto simp: agg_row_of_def row_key_def row_ok_def cluster_interval_def Let_def split: option.splits if_splits)

lemma agg_rows_facts:
  "res_map (agg_row_of sq confs) kgs = Inr rows \<Longrightarrow> map row_key rows = map fst kgs \<and> map ar_group rows = map snd kgs \<and> list_all row_ok rows"
proof (induction kgs arbitrary: rows)
  case (Cons kg kgs)
  obtain k g where kg: "kg = (k, g)" by (cases kg)
  obtain r rs where r: "agg_row_of sq confs (k, g) = Inr r" "res_map (agg_row_of sq confs) kgs = Inr rs" "rows = r # rs"
    using Cons.prems by (auto simp: kg split: sum.splits)
  show ?case using agg_row_facts [OF r(1)] Cons.IH [OF r(2)] by (simp add: r(3) kg)
qed simp


definition demo_bundle :: jobj where
  "demo_bundle =
     [(''environment'', PDict [(''os'', PStr ''Linux'')]),
      (''benchmark'', PDict [(''packs'', PDict [(''1'', PStr ''p'')])]),
      (''models'', PList (replicate 2 (PDict
         [(''public_name'', PStr ''m''), (''transport'', PStr ''openai_compat''), (''parameters'', PDict []), (''public_metadata'', PDict []),
          (''rounds'', PDict [(''1'', PDict [(''passed'', PInt 3), (''total'', PInt 4)])])])))]"

lemma demo_aggregated:
  "case aggregate_submissions (\<lambda>_. ''0123456789'') (\<lambda>_. []) (\<lambda>_. 0) [demo_bundle] of
     Inl _ \<Rightarrow> False | Inr rows \<Rightarrow> map (gr_runs \<circ> ar_group) rows = [2] \<and> map ar_observed rows = [1]"
  by code_simp


end
