(* ===== verification/Public.thy ===== *)
theory Public
  imports Community
begin

text \<open>
  Public bundles (\<open>src/llm_hardtest/public_results.py\<close>): what counts as public text, and the
  validation that every bundle passes before it is exported, loaded or aggregated.

  \<open>sha\<close> is the hexadecimal SHA-256 and \<open>dumps\<close> the bytes of the canonical JSON text. Values are
  parsed JSON without \<open>NaN\<close> and infinities, so \<open>math.isfinite\<close> only fails on an integer that is too
  large for a float. The searched patterns are written as predicates on the text.
\<close>

section \<open>Public text\<close>

definition private_string :: "string \<Rightarrow> bool" where
  "private_string s \<longleftrightarrow>
     (case s of [] \<Rightarrow> False | c # _ \<Rightarrow> c = CHR ''/'' \<or> c = CHR ''~'')
     \<or> (case s of a # b # c # _ \<Rightarrow> ch_alpha a \<and> b = CHR '':'' \<and> (c = bslash \<or> c = CHR ''/'') | _ \<Rightarrow> False)
     \<or> bslash \<in> set s \<or> str_contains ''://'' s \<or> str_contains ''/Users/'' s \<or> str_contains ''/home/'' s
     \<or> CHR ''@'' \<in> set s \<or> list_ex (\<lambda>c. ch_code c < 32) s"

definition run_of :: "nat \<Rightarrow> (char \<Rightarrow> bool) \<Rightarrow> string \<Rightarrow> bool" where
  "run_of n p s \<longleftrightarrow> n \<le> length s \<and> list_all p (take n s)"

definition token_ch :: "char \<Rightarrow> bool" where
  "token_ch c \<longleftrightarrow> ch_alnum c \<or> c = CHR ''_'' \<or> c = CHR ''-''"

definition secret_here :: "string \<Rightarrow> bool" where
  "secret_here s \<longleftrightarrow>
     (starts_with ''AKIA'' s \<and> run_of 16 (\<lambda>c. ch_digit c \<or> ch_upper c) (drop 4 s))
     \<or> (starts_with ''sk-'' s \<and> run_of 16 token_ch (drop 3 s))
     \<or> (list_ex (\<lambda>c. starts_with (''gh'' @ [c, CHR ''-'']) s) ''opusr'' \<and> run_of 16 token_ch (drop 4 s))"

fun secret_string :: "string \<Rightarrow> bool" where
  "secret_string [] = secret_here []"
| "secret_string (c # s) = (secret_here (c # s) \<or> secret_string s)"

definition public_text :: "nat \<Rightarrow> pyval \<Rightarrow> string option" where
  "public_text maximum v =
     (case v of
        PStr s \<Rightarrow>
          (let text = str_strip s; parts = split_on (CHR ''/'') (str_replace_ch bslash ''/'' text) in
           if text = [] \<or> maximum < length text \<or> private_string text \<or> secret_string text
              \<or> list_ex (\<lambda>p. p \<in> {''.'', ''..''}) parts
           then None else Some text)
      | _ \<Rightarrow> None)"

section \<open>Tables\<close>

definition METADATA_FIELDS :: "string list" where
  "METADATA_FIELDS = [''model_revision'', ''quantization'', ''model_format'', ''parameter_count_b'', ''server'', ''server_version'',
     ''accelerator'', ''accelerator_count'', ''memory_gb'', ''system_memory_gb'']"

definition METADATA_NUMERIC_FIELDS :: "string list" where
  "METADATA_NUMERIC_FIELDS = [''parameter_count_b'', ''accelerator_count'', ''memory_gb'', ''system_memory_gb'']"

definition PARAMETER_FIELDS :: "string list" where
  "PARAMETER_FIELDS = [''reasoning_effort'', ''context_window'', ''max_tokens'', ''temperature'', ''top_p'', ''top_k'', ''min_p'']"

definition ROUND_FIELDS :: "string list" where
  "ROUND_FIELDS = [''attempts'', ''passed'', ''total'', ''mean_wall_seconds'', ''manual_review'', ''incomplete'', ''infrastructure_errors'',
     ''planned_attempts'', ''release_ready'', ''handoff_utility'', ''handoff_applicable'', ''false_green'', ''tampering'',
     ''mean_auto_score'', ''auto_score_max'']"

definition TASK_FIELDS :: "string list" where
  "TASK_FIELDS = [''task'', ''attempt'', ''public_passed'', ''public_total'', ''hidden_passed'', ''hidden_total'', ''auto_score'',
     ''release_ready'', ''handoff_utility'', ''false_green'', ''tampering'', ''timed_out'', ''wall_seconds'', ''tokens'']"

definition TASK_BOOLEAN_FIELDS :: "string list" where
  "TASK_BOOLEAN_FIELDS = [''release_ready'', ''false_green'', ''tampering'', ''timed_out'']"

definition TASK_OPTIONAL_BOOLEAN_FIELDS :: "string list" where
  "TASK_OPTIONAL_BOOLEAN_FIELDS = [''handoff_utility'']"

definition TASK_NUMERIC_FIELDS :: "string list" where
  "TASK_NUMERIC_FIELDS =
     filter (\<lambda>k. k \<notin> set (''task'' # TASK_BOOLEAN_FIELDS @ TASK_OPTIONAL_BOOLEAN_FIELDS)) TASK_FIELDS"

definition PUBLIC_ITEM_FIELDS :: "string list" where
  "PUBLIC_ITEM_FIELDS = [''item'', ''attempt'', ''status'', ''wall_seconds'', ''tokens'']"

definition SERVING_SCOPES :: "string list" where
  "SERVING_SCOPES = [''same_host'', ''remote'', ''unreported'']"

definition SERVING_SYSTEMS :: "string list" where
  "SERVING_SYSTEMS = [''Linux'', ''Darwin'', ''Windows'', ''Other'']"

definition FORBIDDEN_KEYS :: "string list" where
  "FORBIDDEN_KEYS = [''api_key'', ''api_key_env'', ''base_url'', ''content'', ''error'', ''generated_at'', ''key'', ''label'', ''prompt'',
     ''raw_usage'', ''response'', ''run_id'', ''transcript'']"

definition PRIVACY :: pyval where
  "PRIVACY = PDict [(''raw_artifacts_included'', PBool False), (''credentials_included'', PBool False),
     (''local_paths_included'', PBool False), (''submission_mode'', PStr ''explicit-opt-in'')]"

section \<open>Checks of single values\<close>

text \<open>\<open>math.isfinite\<close>: an integer of at least \<open>2^1024 - 2^970\<close> does not convert to a float.\<close>

definition isfinite :: "pyval \<Rightarrow> bool res" where
  "isfinite v =
     (case v of
        PInt i \<Rightarrow> if \<bar>i\<bar> < 2 ^ 1024 - 2 ^ 970 then Inr True else Inl (OtherError ''int too large to convert to float'')
      | PFloat _ \<Rightarrow> Inr True
      | _ \<Rightarrow> Inl (TypeError ''must be real number''))"

text \<open>A number that is not a boolean, is finite and lies in a range, or the given exception.\<close>

definition check_number :: "(rat \<Rightarrow> bool) \<Rightarrow> exn \<Rightarrow> pyval \<Rightarrow> unit res" where
  "check_number ok e v =
     (case pure_num v of
        None \<Rightarrow> Inl e
      | Some q \<Rightarrow> res_bind (isfinite v) (\<lambda>fin. fail_if (\<not> fin \<or> \<not> ok q) e))"

definition need_in :: "pyval \<Rightarrow> string list \<Rightarrow> exn \<Rightarrow> unit res" where
  "need_in v ws e = res_bind (in_str_set v ws) (\<lambda>known. fail_if (\<not> known) e)"

definition as_obj :: "exn \<Rightarrow> pyval \<Rightarrow> jobj res" where
  "as_obj e v = (case v of PDict d \<Rightarrow> Inr d | _ \<Rightarrow> Inl e)"

definition as_list :: "exn \<Rightarrow> pyval \<Rightarrow> pyval list res" where
  "as_list e v = (case v of PList xs \<Rightarrow> Inr xs | _ \<Rightarrow> Inl e)"

definition key_set :: "jobj \<Rightarrow> string set" where
  "key_set d = set (map fst d)"

definition bad_model :: "nat \<Rightarrow> string \<Rightarrow> exn" where
  "bad_model index msg = ValueError (''public model '' @ show_nat index @ '' '' @ msg)"

section \<open>Identity of the bundle\<close>

definition bundle_id :: "(string \<Rightarrow> string) \<Rightarrow> (pyval \<Rightarrow> string) \<Rightarrow> jobj \<Rightarrow> string" where
  "bundle_id sha dumps d = ''sha256:'' @ sha (dumps (PDict d))"

definition TOP_FIELDS :: "string list" where
  "TOP_FIELDS = [''schema_version'', ''bundle_id'', ''tool'', ''benchmark'', ''environment'', ''models'', ''privacy'']"

definition schema_of :: "jobj \<Rightarrow> int option" where
  "schema_of payload = (case jget payload ''schema_version'' of PInt n \<Rightarrow> if n \<in> {1, 2, 3, 4} then Some n else None | _ \<Rightarrow> None)"

definition check_top :: "jobj \<Rightarrow> int res" where
  "check_top payload =
     (case schema_of payload of
        Some n \<Rightarrow> if key_set payload = set TOP_FIELDS then Inr n
                  else Inl (ValueError ''public result has unsupported or unexpected top-level fields'')
      | None \<Rightarrow> Inl (ValueError ''public result has unsupported or unexpected top-level fields''))"

definition check_bundle_id :: "(string \<Rightarrow> string) \<Rightarrow> (pyval \<Rightarrow> string) \<Rightarrow> jobj \<Rightarrow> unit res" where
  "check_bundle_id sha dumps payload =
     fail_if (case jget payload ''bundle_id'' of
                PStr s \<Rightarrow> \<not> pack_ok s \<or> s \<noteq> bundle_id sha dumps (filter (\<lambda>(k, _). k \<noteq> ''bundle_id'') payload)
              | _ \<Rightarrow> True)
       (ValueError ''public result bundle_id does not match its content'')"

definition check_tool :: "pyval \<Rightarrow> unit res" where
  "check_tool v =
     (let e = ValueError ''public result tool identity is invalid'' in
      res_bind (as_obj e v) (\<lambda>d.
        fail_if (key_set d \<noteq> {''name'', ''version''} \<or> jget d ''name'' \<noteq> PStr ''llm-hardtest-report''
                 \<or> public_text 32 (jget d ''version'') = None) e))"

definition round_names :: "int list \<Rightarrow> string list" where
  "round_names rounds = map show_int rounds"

definition round_ok :: "pyval \<Rightarrow> bool" where
  "round_ok v = (case v of PInt n \<Rightarrow> n \<in> {1, 2, 3, 4} | _ \<Rightarrow> False)"

definition int_of :: "pyval \<Rightarrow> int" where
  "int_of v = (case v of PInt n \<Rightarrow> n | _ \<Rightarrow> 0)"

definition fingerprint_ok :: "pyval \<Rightarrow> bool" where
  "fingerprint_ok v = (case v of PStr s \<Rightarrow> pack_ok s | _ \<Rightarrow> False)"

definition python_version_ok :: "pyval \<Rightarrow> bool" where
  "python_version_ok v = (case v of PStr s \<Rightarrow> python_ok s | _ \<Rightarrow> False)"

definition check_benchmark :: "pyval \<Rightarrow> int list res" where
  "check_benchmark v =
     (let e = ValueError ''public result benchmark identity is invalid''; er = ValueError ''public result selected rounds are invalid'';
          ep = ValueError ''public result pack fingerprints are invalid'' in
      res_bind (as_obj e v) (\<lambda>d.
        if key_set d \<noteq> {''rounds'', ''packs''} then Inl e
        else res_bind (as_list er (jget d ''rounds'')) (\<lambda>vs.
          if vs = [] \<or> \<not> list_all round_ok vs \<or> \<not> distinct vs then Inl er
          else let rounds = map int_of vs in
               res_bind (as_obj ep (jget d ''packs'')) (\<lambda>packs.
                 if key_set packs \<noteq> set (round_names rounds)
                    \<or> \<not> list_all fingerprint_ok (dict_vals packs) then Inl ep
                 else Inr rounds))))"

definition check_environment :: "pyval \<Rightarrow> jobj res" where
  "check_environment v =
     (let e = ValueError ''public result environment is invalid'' in
      res_bind (as_obj e v) (\<lambda>d.
        if key_set d \<noteq> {''os'', ''architecture'', ''python''} then Inl e
        else res_bind (need_in (jget d ''os'') [''Linux'', ''Darwin'', ''Windows'', ''Other''] e) (\<lambda>_.
          if public_text 32 (jget d ''architecture'') = None \<or> \<not> python_version_ok (jget d ''python'') then Inl e
          else Inr d)))"

section \<open>Models\<close>

definition model_fields :: "int \<Rightarrow> string list" where
  "model_fields n = [''public_name'', ''transport'', ''rounds'', ''parameters'', ''public_metadata'']
     @ (if 3 \<le> n then [''serving_environment''] else []) @ (if 4 \<le> n then [''execution_scaffold''] else [])"

definition check_scaffold :: "exn \<Rightarrow> pyval \<Rightarrow> unit res" where
  "check_scaffold e v =
     res_bind (as_obj e v) (\<lambda>d. res_seq
       [fail_if (key_set d \<noteq> {''agent_backend'', ''isolation_mode'', ''network'', ''fail_closed''}) e,
        need_in (jget d ''agent_backend'') [''codex_cli'', ''opencode_cli'', ''pi_cli''] e,
        need_in (jget d ''isolation_mode'') [''none'', ''macos_seatbelt''] e,
        need_in (jget d ''network'') [''unrestricted'', ''model_endpoint_only''] e,
        fail_if (\<not> is_bool (jget d ''fail_closed'')) e,
        fail_if (jget d ''isolation_mode'' = PStr ''macos_seatbelt''
                 \<and> (\<not> truthy (jget d ''fail_closed'') \<or> jget d ''network'' \<noteq> PStr ''model_endpoint_only'')) e,
        fail_if (jget d ''isolation_mode'' = PStr ''none''
                 \<and> (truthy (jget d ''fail_closed'') \<or> jget d ''network'' \<noteq> PStr ''unrestricted'')) e])"

definition check_public_serving :: "nat \<Rightarrow> jobj \<Rightarrow> pyval \<Rightarrow> unit res" where
  "check_public_serving index env v =
     (let e = bad_model index ''serving environment is invalid'' in
      res_bind (as_obj e v) (\<lambda>d. res_seq
        [fail_if (key_set d \<noteq> {''scope'', ''os'', ''architecture''}) e,
         need_in (jget d ''scope'') SERVING_SCOPES e,
         fail_if (jget d ''os'' \<noteq> PNone \<and> \<not> str_in (jget d ''os'') SERVING_SYSTEMS) e,
         fail_if (jget d ''architecture'' \<noteq> PNone \<and> public_text 32 (jget d ''architecture'') = None) e,
         fail_if (jget d ''scope'' = PStr ''same_host''
                  \<and> (jget d ''os'' \<noteq> jget env ''os'' \<or> jget d ''architecture'' \<noteq> jget env ''architecture''))
           (bad_model index ''same_host environment contradicts runner''),
         fail_if (jget d ''scope'' = PStr ''unreported'' \<and> (jget d ''os'' \<noteq> PNone \<or> jget d ''architecture'' \<noteq> PNone))
           (bad_model index ''unreported environment has coordinates'')]))"

text \<open>One item outcome; \<open>seen\<close> holds the identities of the items before it.\<close>

definition attempt_ok :: "pyval \<Rightarrow> bool" where
  "attempt_ok v = (case v of PInt a \<Rightarrow> 1 \<le> a | _ \<Rightarrow> False)"

definition tokens_ok :: "pyval \<Rightarrow> bool" where
  "tokens_ok v = (case v of PNone \<Rightarrow> True | PInt t \<Rightarrow> 0 \<le> t | _ \<Rightarrow> False)"

definition check_item :: "nat \<Rightarrow> (pyval \<times> pyval) list \<Rightarrow> pyval \<Rightarrow> (pyval \<times> pyval) list res" where
  "check_item index seen v =
     (case v of
        PDict d \<Rightarrow>
          (let it = jget d ''item''; att = jget d ''attempt''; wall = jget d ''wall_seconds''; tokens = jget d ''tokens'';
               e = bad_model index ''item outcome is invalid'' in
           if key_set d \<noteq> set PUBLIC_ITEM_FIELDS then Inl (bad_model index ''has an invalid item outcome'')
           else if \<not> hashable it \<or> \<not> hashable att then Inl (TypeError ''unhashable type'')
           else if list_ex (\<lambda>(i, a). py_eq i it \<and> py_eq a att) seen \<or> public_text 80 it = None \<or> \<not> attempt_ok att then Inl e
           else res_bind (need_in (jget d ''status'') (map status_name all_status) e) (\<lambda>_.
                res_bind (if wall = PNone then Inr ()
                          else check_number (\<lambda>q. 0 \<le> q) (bad_model index ''item wall_seconds is invalid'') wall) (\<lambda>_.
                if \<not> tokens_ok tokens then Inl (bad_model index ''item tokens is invalid'')
                else Inr (seen @ [(it, att)]))))
      | _ \<Rightarrow> Inl (bad_model index ''has an invalid item outcome''))"

definition check_items :: "nat \<Rightarrow> pyval \<Rightarrow> unit res" where
  "check_items index v =
     res_bind (as_list (bad_model index ''items must be a list'') v) (\<lambda>items.
       map_sum id (\<lambda>_. ()) (res_fold (check_item index) [] items))"

definition check_task_field :: "nat \<Rightarrow> string \<times> pyval \<Rightarrow> unit res" where
  "check_task_field index kv =
     (case kv of (k, v) \<Rightarrow>
        let e = bad_model index (''task '' @ k @ '' is invalid'') in
        if k = ''task'' then Inr ()
        else if k \<in> set TASK_BOOLEAN_FIELDS then fail_if (\<not> is_bool v) e
        else if k \<in> set TASK_OPTIONAL_BOOLEAN_FIELDS then fail_if (v \<noteq> PNone \<and> \<not> is_bool v) e
        else if k \<notin> set TASK_NUMERIC_FIELDS then Inl e
        else if v = PNone then Inr () else check_number (\<lambda>q. 0 \<le> q) e v)"

definition check_task :: "nat \<Rightarrow> pyval \<Rightarrow> unit res" where
  "check_task index v =
     res_bind (as_obj (bad_model index ''has an invalid task row'') v) (\<lambda>d. res_seq
       [fail_if (\<not> key_set d \<subseteq> set TASK_FIELDS) (bad_model index ''has an invalid task row''),
        fail_if (public_text 80 (jget d ''task'') = None) (bad_model index ''has an unsafe task id''),
        res_all (check_task_field index) d])"

definition check_round_field :: "nat \<Rightarrow> string \<Rightarrow> string \<times> pyval \<Rightarrow> unit res" where
  "check_round_field index n kv =
     (case kv of (k, v) \<Rightarrow>
        if k = ''items'' then check_items index v
        else if k = ''tasks''
        then res_bind (as_list (bad_model index ''tasks must be a list'') v) (res_all (check_task index))
        else if v = PNone then Inr ()
        else check_number (\<lambda>q. 0 \<le> q) (bad_model index (''round metric '' @ k @ '' is invalid'')) v)"

definition round_items :: "jobj \<Rightarrow> jobj list" where
  "round_items result = (case jget result ''items'' of PList vs \<Rightarrow> map (\<lambda>v. case v of PDict d \<Rightarrow> d | _ \<Rightarrow> []) vs | _ \<Rightarrow> [])"

definition outcomes :: "jobj \<Rightarrow> status \<Rightarrow> int" where
  "outcomes result st = int (length (filter (\<lambda>d. jget d ''status'' = PStr (status_name st)) (round_items result)))"

definition expected_metrics :: "string \<Rightarrow> jobj \<Rightarrow> (string \<times> int) list" where
  "expected_metrics n result =
     (if n = ''4'' then [(''release_ready'', outcomes result PASS)]
      else [(''passed'', outcomes result PASS), (''total'', outcomes result PASS + outcomes result FAIL),
            (''incomplete'', outcomes result INCOMPLETE), (''manual_review'', outcomes result REVIEW),
            (''infrastructure_errors'', outcomes result INVALID)])"

definition check_public_round :: "nat \<Rightarrow> int \<Rightarrow> string \<times> pyval \<Rightarrow> unit res" where
  "check_public_round index schema nv =
     (case nv of (n, v) \<Rightarrow>
        let e = (\<lambda>msg. bad_model index (''round '' @ n @ '' '' @ msg)) in
        res_bind (as_obj (e ''is invalid'') v) (\<lambda>result. res_seq
          [fail_if (\<not> key_set result \<subseteq> set (ROUND_FIELDS @ (if n = ''4'' then [''tasks''] else []) @ (if 2 \<le> schema then [''items''] else [])))
             (e ''has extra fields''),
           fail_if (2 \<le> schema \<and> \<not> dict_has result ''items'') (e ''has no item outcomes''),
           res_all (check_round_field index n) result,
           (if 2 \<le> schema
            then res_all (\<lambda>(metric, expected). fail_if (dict_has result metric \<and> \<not> py_eq (jget result metric) (PInt expected))
                            (e (metric @ '' contradicts item outcomes''))) (expected_metrics n result)
            else Inr ())]))"

text \<open>\<open>set(v) - allowed\<close> iterates over any value; \<open>v.items()\<close> needs an object.\<close>

definition check_allowed :: "pyval \<Rightarrow> string list \<Rightarrow> exn \<Rightarrow> unit res" where
  "check_allowed v ws e =
     res_bind (py_iter v) (\<lambda>ks.
       if \<not> list_all hashable ks then Inl (TypeError ''unhashable type'')
       else fail_if (\<not> set ks \<subseteq> set (map PStr ws)) e)"

definition check_metadata_field :: "nat \<Rightarrow> string \<times> pyval \<Rightarrow> unit res" where
  "check_metadata_field index kv =
     (case kv of (k, v) \<Rightarrow>
        if k \<in> set METADATA_NUMERIC_FIELDS
        then check_number (\<lambda>q. 0 < q) (bad_model index (''metadata '' @ k @ '' is invalid'')) v
        else fail_if (public_text 160 v = None) (bad_model index (''metadata '' @ k @ '' is unsafe'')))"

definition check_parameter :: "nat \<Rightarrow> string \<times> pyval \<Rightarrow> unit res" where
  "check_parameter index kv =
     (case kv of (k, v) \<Rightarrow>
        if k = ''reasoning_effort''
        then fail_if (public_text 32 v = None) (bad_model index ''reasoning effort is invalid'')
        else check_number (\<lambda>_. True) (bad_model index (''parameter '' @ k @ '' is invalid'')) v)"

definition check_public_model :: "int \<Rightarrow> int list \<Rightarrow> jobj \<Rightarrow> nat \<Rightarrow> pyval \<Rightarrow> unit res" where
  "check_public_model schema rounds env index v =
     res_bind (as_obj (bad_model index ''has unexpected fields'') v) (\<lambda>m. res_seq
       [fail_if (key_set m \<noteq> set (model_fields schema)) (bad_model index ''has unexpected fields''),
        fail_if (public_text 160 (jget m ''public_name'') = None) (bad_model index ''has an unsafe public_name''),
        need_in (jget m ''transport'') [''openai_compat'', ''codex_cli''] (bad_model index ''has an invalid transport''),
        (if 4 \<le> schema then check_scaffold (bad_model index ''execution scaffold is invalid'') (jget m ''execution_scaffold'') else Inr ()),
        (if 3 \<le> schema then check_public_serving index env (jget m ''serving_environment'') else Inr ()),
        res_bind (as_obj (bad_model index ''rounds must be an object'') (jget m ''rounds'')) (\<lambda>rs. res_seq
          [fail_if (\<not> key_set rs \<subseteq> set (round_names rounds)) (bad_model index ''contains an unselected round''),
           res_all (check_public_round index schema) rs]),
        check_allowed (jget m ''public_metadata'') METADATA_FIELDS (bad_model index ''metadata is not allowlisted''),
        check_allowed (jget m ''parameters'') PARAMETER_FIELDS (bad_model index ''parameters are not allowlisted''),
        res_bind (as_obj (AttributeError ''items'') (jget m ''public_metadata'')) (res_all (check_metadata_field index)),
        res_bind (as_obj (AttributeError ''items'') (jget m ''parameters'')) (res_all (check_parameter index))])"

definition check_public_models :: "int \<Rightarrow> int list \<Rightarrow> jobj \<Rightarrow> pyval \<Rightarrow> unit res" where
  "check_public_models schema rounds env v =
     (let e = ValueError ''public result requires at least one model'' in
      res_bind (as_list e v) (\<lambda>ms.
        if ms = [] then Inl e else res_all (\<lambda>(i, m). check_public_model schema rounds env (Suc i) m) (enumerate 0 ms)))"

section \<open>The whole bundle\<close>

text \<open>\<open>_walk\<close>: every key of every object with its path and value. The elements of a list are walked,
  but a string that stands in a list is not reported.\<close>

fun walk :: "string \<Rightarrow> pyval \<Rightarrow> (string \<times> string \<times> pyval) list"
  and walk_dict :: "string \<Rightarrow> (string \<times> pyval) list \<Rightarrow> (string \<times> string \<times> pyval) list"
  and walk_list :: "string \<Rightarrow> nat \<Rightarrow> pyval list \<Rightarrow> (string \<times> string \<times> pyval) list" where
  "walk path (PDict d) = walk_dict path d"
| "walk path (PList xs) = walk_list path 0 xs"
| "walk path v = []"
| "walk_dict path [] = []"
| "walk_dict path ((k, v) # d) = (path, k, v) # walk (path @ ''.'' @ k) v @ walk_dict path d"
| "walk_list path i [] = []"
| "walk_list path i (v # vs) = walk (path @ ''['' @ show_nat i @ '']'') v @ walk_list path (Suc i) vs"

definition check_entry :: "string \<times> string \<times> pyval \<Rightarrow> unit res" where
  "check_entry e =
     (case e of (path, k, v) \<Rightarrow> res_seq
        [fail_if (k \<in> set FORBIDDEN_KEYS) (ValueError (''forbidden private field at '' @ path @ ''.'' @ k)),
         fail_if (case v of PStr s \<Rightarrow> private_string s \<or> secret_string s | _ \<Rightarrow> False)
           (ValueError (''private-looking string at '' @ path @ ''.'' @ k))])"

definition validate_public_result :: "(string \<Rightarrow> string) \<Rightarrow> (pyval \<Rightarrow> string) \<Rightarrow> pyval \<Rightarrow> pyval res" where
  "validate_public_result sha dumps v =
     res_bind (as_obj (ValueError ''public result must be a JSON object'') v) (\<lambda>payload.
     res_bind (check_top payload) (\<lambda>schema.
     res_bind (check_bundle_id sha dumps payload) (\<lambda>_.
     res_bind (check_tool (jget payload ''tool'')) (\<lambda>_.
     res_bind (check_benchmark (jget payload ''benchmark'')) (\<lambda>rounds.
     res_bind (check_environment (jget payload ''environment'')) (\<lambda>env.
     res_bind (res_seq
       [check_public_models schema rounds env (jget payload ''models''),
        fail_if (\<not> py_eq (jget payload ''privacy'') PRIVACY) (ValueError ''public result privacy declaration is invalid''),
        res_all check_entry (walk ''root'' v),
        fail_if (2000000 < length (dumps v)) (ValueError ''public result is too large'')]) (\<lambda>_. Inr v)))))))"

section \<open>What an accepted bundle holds\<close>

text \<open>Objects of parsed JSON have distinct keys, at every depth.\<close>

fun wf_val :: "pyval \<Rightarrow> bool" and wf_dict :: "(string \<times> pyval) list \<Rightarrow> bool" and wf_list :: "pyval list \<Rightarrow> bool" where
  "wf_val (PDict d) = (dict_wf d \<and> wf_dict d)"
| "wf_val (PList xs) = wf_list xs"
| "wf_val v = True"
| "wf_dict [] = True"
| "wf_dict ((k, v) # d) = (wf_val v \<and> wf_dict d)"
| "wf_list [] = True"
| "wf_list (v # vs) = (wf_val v \<and> wf_list vs)"

text \<open>All keys, and all strings that are values, at every depth.\<close>

fun names :: "pyval \<Rightarrow> string list" and names_dict :: "(string \<times> pyval) list \<Rightarrow> string list" and names_list :: "pyval list \<Rightarrow> string list" where
  "names (PDict d) = names_dict d"
| "names (PList xs) = names_list xs"
| "names v = []"
| "names_dict [] = []"
| "names_dict ((k, v) # d) = k # names v @ names_dict d"
| "names_list [] = []"
| "names_list (v # vs) = names v @ names_list vs"

fun texts :: "pyval \<Rightarrow> string list" and texts_dict :: "(string \<times> pyval) list \<Rightarrow> string list" and texts_list :: "pyval list \<Rightarrow> string list" where
  "texts (PDict d) = texts_dict d"
| "texts (PList xs) = texts_list xs"
| "texts (PStr s) = [s]"
| "texts v = []"
| "texts_dict [] = []"
| "texts_dict ((k, v) # d) = texts v @ texts_dict d"
| "texts_list [] = []"
| "texts_list (v # vs) = texts v @ texts_list vs"

text \<open>Only allowed keys, and no string that stands directly in a list.\<close>

fun allowed :: "string set \<Rightarrow> pyval \<Rightarrow> bool" and allowed_dict :: "string set \<Rightarrow> (string \<times> pyval) list \<Rightarrow> bool"
  and allowed_list :: "string set \<Rightarrow> pyval list \<Rightarrow> bool" where
  "allowed N (PDict d) = allowed_dict N d"
| "allowed N (PList xs) = allowed_list N xs"
| "allowed N v = True"
| "allowed_dict N [] = True"
| "allowed_dict N ((k, v) # d) = (k \<in> N \<and> allowed N v \<and> allowed_dict N d)"
| "allowed_list N [] = True"
| "allowed_list N (v # vs) = (\<not> is_str v \<and> allowed N v \<and> allowed_list N vs)"

definition PUBLIC_NAMES :: "string list" where
  "PUBLIC_NAMES = TOP_FIELDS @ [''name'', ''version'', ''rounds'', ''packs''] @ [''os'', ''architecture'', ''python'', ''scope'']
     @ [''1'', ''2'', ''3'', ''4''] @ model_fields 4 @ [''agent_backend'', ''isolation_mode'', ''network'', ''fail_closed'']
     @ ROUND_FIELDS @ [''tasks'', ''items''] @ TASK_FIELDS @ PUBLIC_ITEM_FIELDS @ METADATA_FIELDS @ PARAMETER_FIELDS
     @ [''raw_artifacts_included'', ''credentials_included'', ''local_paths_included'', ''submission_mode'']"

abbreviation ok_val :: "pyval \<Rightarrow> bool" where
  "ok_val \<equiv> allowed (set PUBLIC_NAMES)"

definition scalar :: "pyval \<Rightarrow> bool" where
  "scalar v \<longleftrightarrow> \<not> is_list v \<and> \<not> is_dict v"

lemma scalar_allowed: "scalar v \<Longrightarrow> allowed N v"
  by (cases v) (simp_all add: scalar_def)

lemma allowed_dict_iff: "allowed_dict N d \<longleftrightarrow> (\<forall>(k, v) \<in> set d. k \<in> N \<and> allowed N v)"
  by (induction d) auto

lemma allowed_list_iff: "allowed_list N xs \<longleftrightarrow> (\<forall>v \<in> set xs. \<not> is_str v \<and> allowed N v)"
  by (induction xs) auto

lemma wf_dict_iff: "wf_dict d \<longleftrightarrow> (\<forall>(k, v) \<in> set d. wf_val v)"
  by (induction d) auto

lemma wf_list_iff: "wf_list xs \<longleftrightarrow> (\<forall>v \<in> set xs. wf_val v)"
  by (induction xs) auto

lemma allowed_names:
  "allowed N v \<Longrightarrow> set (names v) \<subseteq> N"
  "allowed_dict N d \<Longrightarrow> set (names_dict d) \<subseteq> N"
  "allowed_list N xs \<Longrightarrow> set (names_list xs) \<subseteq> N"
  by (induction v and d and xs rule: names_names_dict_names_list.induct) auto

lemma allowed_texts:
  "allowed N v \<Longrightarrow> \<not> is_str v \<Longrightarrow> s \<in> set (texts v) \<Longrightarrow> \<exists>p k. (p, k, PStr s) \<in> set (walk path v)"
  "allowed_dict N d \<Longrightarrow> s \<in> set (texts_dict d) \<Longrightarrow> \<exists>p k. (p, k, PStr s) \<in> set (walk_dict path d)"
  "allowed_list N xs \<Longrightarrow> s \<in> set (texts_list xs) \<Longrightarrow> \<exists>p k. (p, k, PStr s) \<in> set (walk_list path i xs)"
proof (induction path v and path d and path i xs rule: walk_walk_dict_walk_list.induct)
  case (5 path k v d)
  then show ?case by (cases "is_str v") (cases v; auto)+
qed auto

lemma jget_mem: "dict_wf d \<Longrightarrow> (k, x) \<in> set d \<Longrightarrow> jget d k = x"
  by (simp add: jget_def dict_get_def dict_wf_def)

lemma allowed_obj:
  assumes "dict_wf d" and "key_set d \<subseteq> N" and "\<And>k. k \<in> key_set d \<Longrightarrow> allowed N (jget d k)"
  shows "allowed N (PDict d)"
  using assms by (force simp: allowed_dict_iff key_set_def jget_mem)

lemma wf_jget: "wf_val (PDict d) \<Longrightarrow> wf_val (jget d k)"
  by (auto simp: jget_def dict_get_def wf_dict_iff dest!: map_of_SomeD split: option.splits)

lemma as_obj_Inr: "as_obj e v = Inr d \<longleftrightarrow> v = PDict d"
  by (cases v) (auto simp: as_obj_def)

lemma as_list_Inr: "as_list e v = Inr xs \<longleftrightarrow> v = PList xs"
  by (cases v) (auto simp: as_list_def)

lemma need_in_Inr: "need_in v ws e = Inr u \<longleftrightarrow> (\<exists>s \<in> set ws. v = PStr s)"
  by (auto simp: need_in_def in_str_set_def fail_if_def hashable_def)

lemma public_text_str: "public_text n v = Some t \<Longrightarrow> \<exists>s. v = PStr s"
  by (cases v) (auto simp: public_text_def)

lemma public_text_scalar: "public_text n v = Some t \<Longrightarrow> scalar v"
  by (cases v) (auto simp: public_text_def scalar_def)

lemma check_number_Inr: "check_number ok e v = Inr u \<Longrightarrow> \<exists>q. pure_num v = Some q \<and> ok q"
  by (auto simp: check_number_def res_bind_Inr_iff fail_if_def split: option.splits if_splits)

lemma check_number_scalar: "check_number ok e v = Inr u \<Longrightarrow> scalar v"
  by (drule check_number_Inr) (cases v; auto simp: scalar_def pure_num_def)

lemma need_in_scalar: "need_in v ws e = Inr u \<Longrightarrow> scalar v"
  by (auto simp: need_in_Inr scalar_def)

lemmas check_simps = res_bind_Inr_iff as_obj_Inr as_list_Inr need_in_Inr

lemma in_names: "set xs \<subseteq> set PUBLIC_NAMES \<Longrightarrow> k \<in> set xs \<Longrightarrow> k \<in> set PUBLIC_NAMES"
  by blast

lemma public_names:
  "set TOP_FIELDS \<subseteq> set PUBLIC_NAMES" "{''name'', ''version''} \<subseteq> set PUBLIC_NAMES" "{''rounds'', ''packs''} \<subseteq> set PUBLIC_NAMES"
  "{''os'', ''architecture'', ''python''} \<subseteq> set PUBLIC_NAMES" "{''scope'', ''os'', ''architecture''} \<subseteq> set PUBLIC_NAMES"
  "{''agent_backend'', ''isolation_mode'', ''network'', ''fail_closed''} \<subseteq> set PUBLIC_NAMES"
  "set (model_fields n) \<subseteq> set PUBLIC_NAMES" "set TASK_FIELDS \<subseteq> set PUBLIC_NAMES" "set PUBLIC_ITEM_FIELDS \<subseteq> set PUBLIC_NAMES"
  "set METADATA_FIELDS \<subseteq> set PUBLIC_NAMES" "set PARAMETER_FIELDS \<subseteq> set PUBLIC_NAMES"
  "set (ROUND_FIELDS @ (if b then [''tasks''] else []) @ (if c then [''items''] else [])) \<subseteq> set PUBLIC_NAMES"
  "{''1'', ''2'', ''3'', ''4''} \<subseteq> set PUBLIC_NAMES"
  by (auto simp: PUBLIC_NAMES_def model_fields_def)

lemma show_int_rounds: "n \<in> {1, 2, 3, 4} \<Longrightarrow> show_int n \<in> {''1'', ''2'', ''3'', ''4''}"
proof -
  have "show_int 1 = ''1''" "show_int 2 = ''2''" "show_int 3 = ''3''" "show_int 4 = ''4''" by code_simp+
  then show "n \<in> {1, 2, 3, 4} \<Longrightarrow> ?thesis" by auto
qed

text \<open>An object whose keys are a known list: it suffices to look at each field once.\<close>

lemma allowed_fields:
  assumes "wf_val (PDict d)" and "key_set d \<subseteq> set ks" and "set ks \<subseteq> set PUBLIC_NAMES" and "list_all (\<lambda>k. ok_val (jget d k)) ks"
  shows "ok_val (PDict d)"
proof (rule allowed_obj)
  fix k assume "k \<in> key_set d"
  with assms(2) have "k \<in> set ks" by blast
  with assms(4) show "ok_val (jget d k)" by (simp add: list_all_iff)
qed (use assms in simp, use assms in blast)

lemma text_allowed: "public_text n v \<noteq> None \<Longrightarrow> allowed N v"
  using public_text_scalar scalar_allowed by blast

lemma need_in_allowed: "need_in v ws e = Inr u \<Longrightarrow> allowed N v"
  using need_in_scalar scalar_allowed by blast

lemma number_allowed: "check_number ok e v = Inr u \<Longrightarrow> allowed N v"
  using check_number_scalar scalar_allowed by blast

lemma set_pair: "{a, b} = set [a, b]" and set_triple: "{a, b, c} = set [a, b, c]" and set_quad: "{a, b, c, d} = set [a, b, c, d]"
  by simp_all

lemma tool_allowed:
  assumes "check_tool v = Inr ()" and "wf_val v"
  shows "ok_val v"
proof -
  obtain d where d: "v = PDict d" "key_set d = {''name'', ''version''}" "jget d ''name'' = PStr ''llm-hardtest-report''"
      "public_text 32 (jget d ''version'') \<noteq> None"
    using assms(1) by (simp add: check_tool_def Let_def check_simps) (elim exE conjE, rule that, assumption, simp_all)
  show ?thesis unfolding d(1)
    by (rule allowed_fields [of d "[''name'', ''version'']"])
      (use assms(2) d public_names(2) text_allowed in simp_all)
qed

lemma benchmark_rounds:
  assumes "check_benchmark v = Inr rounds"
  obtains d packs where "v = PDict d" "key_set d = {''rounds'', ''packs''}" "jget d ''rounds'' = PList (map PInt rounds)"
    "jget d ''packs'' = PDict packs" "key_set packs = set (round_names rounds)" "set rounds \<subseteq> {1, 2, 3, 4}" "rounds \<noteq> []" "distinct rounds"
    "list_all fingerprint_ok (dict_vals packs)"
proof -
  obtain d vs packs where d: "v = PDict d" "key_set d = {''rounds'', ''packs''}" "jget d ''rounds'' = PList vs"
      "jget d ''packs'' = PDict packs" "vs \<noteq> []" "distinct vs" "list_all round_ok vs"
      "rounds = map int_of vs" "key_set packs = set (round_names rounds)" "list_all fingerprint_ok (dict_vals packs)"
    using assms by (simp add: check_benchmark_def Let_def check_simps split: if_split_asm) (elim exE conjE, rule that, assumption, (assumption | rule sym, assumption | simp)+)
  have ints: "\<exists>n. x = PInt n \<and> n \<in> {1, 2, 3, 4}" if "x \<in> set vs" for x
    using d(7) that by (cases x) (auto simp: list_all_iff round_ok_def)
  have vs: "vs = map PInt rounds"
    unfolding d(8) map_map by (rule map_idI [symmetric]) (use ints in \<open>force simp: int_of_def\<close>)
  have "set rounds \<subseteq> {1, 2, 3, 4}" using ints by (auto simp: vs)
  moreover have "distinct rounds" using d(6) by (simp add: vs distinct_map)
  ultimately show ?thesis using d(1-5,9,10) vs by (intro that [of d packs]) auto
qed

lemma round_names_sub:
  assumes "set rounds \<subseteq> {1, 2, 3, 4}"
  shows "set (round_names rounds) \<subseteq> {''1'', ''2'', ''3'', ''4''}"
proof
  fix k assume "k \<in> set (round_names rounds)"
  then obtain n where n: "n \<in> set rounds" "k = show_int n" unfolding round_names_def set_map by (rule imageE)
  from assms n(1) have "n \<in> {1, 2, 3, 4}" by (rule subsetD)
  then show "k \<in> {''1'', ''2'', ''3'', ''4''}" unfolding n(2) by (rule show_int_rounds)
qed

lemma benchmark_allowed:
  assumes "check_benchmark v = Inr rounds" and "wf_val v"
  shows "ok_val v"
proof -
  obtain d packs where d: "v = PDict d" "key_set d = {''rounds'', ''packs''}" "jget d ''rounds'' = PList (map PInt rounds)"
    "jget d ''packs'' = PDict packs" "key_set packs = set (round_names rounds)" "set rounds \<subseteq> {1, 2, 3, 4}"
    "list_all fingerprint_ok (dict_vals packs)"
    by (rule benchmark_rounds [OF assms(1)])
  have "key_set packs \<subseteq> {''1'', ''2'', ''3'', ''4''}" unfolding d(5) using d(6) by (rule round_names_sub)
  then have "key_set packs \<subseteq> set PUBLIC_NAMES" using public_names(13) by (rule subset_trans)
  then have "ok_val (PDict packs)"
    unfolding allowed.simps allowed_dict_iff
  proof (intro ballI, clarify)
    fix k x assume ks: "key_set packs \<subseteq> set PUBLIC_NAMES" and m: "(k, x) \<in> set packs"
    have "fingerprint_ok x" using m d(7) by (force simp: list_all_iff dict_vals_def)
    then have "ok_val x" by (cases x) (simp_all add: fingerprint_ok_def)
    moreover have "k \<in> key_set packs" using m unfolding key_set_def by (metis fst_conv imageI list.set_map)
    ultimately show "k \<in> set PUBLIC_NAMES \<and> ok_val x" using ks by (metis subsetD)
  qed
  moreover have "ok_val (PList (map PInt rounds))" by (simp add: allowed_list_iff)
  ultimately show ?thesis unfolding d(1)
    by (intro allowed_fields [of d "[''rounds'', ''packs'']"]) (use assms(2) d(1-4) public_names(3) in simp_all)
qed

lemma environment_allowed:
  assumes "check_environment v = Inr d" and "wf_val v"
  shows "v = PDict d \<and> ok_val v"
proof -
  have d: "v = PDict d" "key_set d = {''os'', ''architecture'', ''python''}"
      "\<exists>e. need_in (jget d ''os'') [''Linux'', ''Darwin'', ''Windows'', ''Other''] e = Inr ()"
      "public_text 32 (jget d ''architecture'') \<noteq> None" "python_version_ok (jget d ''python'')"
    using assms(1) by (simp_all add: check_environment_def Let_def res_bind_Inr_iff as_obj_Inr split: if_split_asm)
      (elim exE conjE, simp add: exI)+
  have "ok_val (jget d ''python'')" using d(5) by (cases "jget d ''python''") (simp_all add: python_version_ok_def)
  moreover have "ok_val (jget d ''os'')" using d(3) need_in_allowed by metis
  ultimately have "ok_val (PDict d)"
    by (intro allowed_fields [of d "[''os'', ''architecture'', ''python'']"])
      (use assms(2) d(1,2,4) public_names(4) text_allowed in simp_all)
  then show ?thesis by (simp add: d(1))
qed

lemma scaffold_allowed:
  assumes "check_scaffold e v = Inr ()" and "wf_val v"
  shows "ok_val v"
proof -
  obtain d where d: "v = PDict d" "key_set d = {''agent_backend'', ''isolation_mode'', ''network'', ''fail_closed''}"
      "need_in (jget d ''agent_backend'') [''codex_cli'', ''opencode_cli'', ''pi_cli''] e = Inr ()"
      "need_in (jget d ''isolation_mode'') [''none'', ''macos_seatbelt''] e = Inr ()"
      "need_in (jget d ''network'') [''unrestricted'', ''model_endpoint_only''] e = Inr ()" "is_bool (jget d ''fail_closed'')"
    using assms(1) by (simp add: check_scaffold_def res_bind_Inr_iff as_obj_Inr) (elim exE conjE, rule that, assumption, simp_all)
  have "ok_val (jget d ''fail_closed'')" using d(6) by (cases "jget d ''fail_closed''") simp_all
  then show ?thesis unfolding d(1)
    by (intro allowed_fields [of d "[''agent_backend'', ''isolation_mode'', ''network'', ''fail_closed'']"])
      (use assms(2) d public_names(6) need_in_allowed in simp_all)
qed

lemma serving_allowed:
  assumes "check_public_serving i env v = Inr ()" and "wf_val v"
  shows "ok_val v"
proof -
  obtain d e where d: "v = PDict d" "key_set d = {''scope'', ''os'', ''architecture''}" "need_in (jget d ''scope'') SERVING_SCOPES e = Inr ()"
      "jget d ''os'' = PNone \<or> str_in (jget d ''os'') SERVING_SYSTEMS"
      "jget d ''architecture'' = PNone \<or> public_text 32 (jget d ''architecture'') \<noteq> None"
    using assms(1) by (simp add: check_public_serving_def Let_def res_bind_Inr_iff as_obj_Inr disj_imp)
      (elim exE conjE, rule that, assumption, (assumption | simp add: disj_imp)+)
  have "ok_val (jget d ''os'')" "ok_val (jget d ''architecture'')"
    using d(4,5) text_allowed by fastforce+
  then show ?thesis unfolding d(1)
    by (intro allowed_fields [of d "[''scope'', ''os'', ''architecture'']"])
      (use assms(2) d public_names(5) need_in_allowed in simp_all)
qed

section \<open>Model entries\<close>

lemma check_item_facts:
  assumes "check_item i seen v = Inr seen'"
  obtains d a it where "v = PDict d" "key_set d = set PUBLIC_ITEM_FIELDS" "jget d ''item'' = PStr it" "public_text 80 (PStr it) \<noteq> None"
    "jget d ''attempt'' = PInt a" "1 \<le> a" "\<exists>st. jget d ''status'' = PStr (status_name st)"
    "jget d ''wall_seconds'' = PNone \<or> (\<exists>q. pure_num (jget d ''wall_seconds'') = Some q \<and> 0 \<le> q)"
    "tokens_ok (jget d ''tokens'')" "seen' = seen @ [(PStr it, PInt a)]" "(PStr it, PInt a) \<notin> set seen"
proof -
  obtain d where v: "v = PDict d" using assms by (cases v) (simp_all add: check_item_def)
  define e where "e = bad_model i ''item outcome is invalid''"
  have f: "key_set d = set PUBLIC_ITEM_FIELDS" "public_text 80 (jget d ''item'') \<noteq> None" "attempt_ok (jget d ''attempt'')"
    "\<not> list_ex (\<lambda>(i, a). py_eq i (jget d ''item'') \<and> py_eq a (jget d ''attempt'')) seen"
    using assms by (simp_all add: v check_item_def Let_def split: if_split_asm)
  obtain it where it: "jget d ''item'' = PStr it" using f(2) public_text_str by blast
  obtain a where a: "jget d ''attempt'' = PInt a" "1 \<le> a" using f(3) by (cases "jget d ''attempt''") (simp_all add: attempt_ok_def)
  have new: "(PStr it, PInt a) \<notin> set seen" using f(4) by (force simp: it a list_ex_iff py_num_def)
  have r: "need_in (jget d ''status'') (map status_name all_status) e = Inr ()" "tokens_ok (jget d ''tokens'')"
    "jget d ''wall_seconds'' \<noteq> PNone \<longrightarrow> check_number (\<lambda>q. 0 \<le> q) (bad_model i ''item wall_seconds is invalid'') (jget d ''wall_seconds'') = Inr ()"
    "seen' = seen @ [(PStr it, PInt a)]"
    using assms by (simp_all add: v it a check_item_def Let_def res_bind_Inr_iff e_def split: if_split_asm)
  have "\<exists>st. jget d ''status'' = PStr (status_name st)" using r(1) unfolding need_in_Inr by auto
  moreover have "jget d ''wall_seconds'' = PNone \<or> (\<exists>q. pure_num (jget d ''wall_seconds'') = Some q \<and> 0 \<le> q)"
    using r(3) check_number_Inr by blast
  ultimately show ?thesis using that v f(1) it f(2) a r(2,4) new by metis
qed

lemma item_allowed:
  assumes "check_item i seen v = Inr seen'" and "wf_val v"
  shows "\<not> is_str v \<and> ok_val v"
proof -
  obtain d a it where d: "v = PDict d" "key_set d = set PUBLIC_ITEM_FIELDS" "jget d ''item'' = PStr it" "jget d ''attempt'' = PInt a"
    "\<exists>st. jget d ''status'' = PStr (status_name st)"
    "jget d ''wall_seconds'' = PNone \<or> (\<exists>q. pure_num (jget d ''wall_seconds'') = Some q \<and> 0 \<le> q)" "tokens_ok (jget d ''tokens'')"
    by (rule check_item_facts [OF assms(1)])
  obtain st where st: "jget d ''status'' = PStr (status_name st)" using d(5) ..
  have "ok_val (jget d ''wall_seconds'')" using d(6) by (cases "jget d ''wall_seconds''") (simp_all add: pure_num_def)
  moreover have "ok_val (jget d ''tokens'')" using d(7) by (cases "jget d ''tokens''") (simp_all add: tokens_ok_def)
  ultimately have "list_all (\<lambda>k. ok_val (jget d k)) PUBLIC_ITEM_FIELDS" by (simp add: PUBLIC_ITEM_FIELDS_def d(3,4) st)
  then have "ok_val (PDict d)" using assms(2) d(1,2) public_names(9) by (intro allowed_fields [of d PUBLIC_ITEM_FIELDS]) simp_all
  then show ?thesis by (simp add: d(1))
qed

definition item_id :: "pyval \<Rightarrow> pyval \<times> pyval" where
  "item_id v = (case v of PDict d \<Rightarrow> (jget d ''item'', jget d ''attempt'') | _ \<Rightarrow> (PNone, PNone))"

lemma items_fold:
  "res_fold (check_item i) seen vs = Inr seen' \<Longrightarrow> distinct seen \<Longrightarrow>
     (\<forall>v \<in> set vs. \<exists>s s'. check_item i s v = Inr s') \<and> distinct seen' \<and> seen' = seen @ map item_id vs"
proof (induction vs arbitrary: seen)
  case (Cons v vs)
  obtain s where s: "check_item i seen v = Inr s" "res_fold (check_item i) s vs = Inr seen'"
    using Cons.prems(1) by (simp split: sum.splits)
  obtain d a it where d: "v = PDict d" "jget d ''item'' = PStr it" "jget d ''attempt'' = PInt a" "s = seen @ [(PStr it, PInt a)]"
    "(PStr it, PInt a) \<notin> set seen" by (rule check_item_facts [OF s(1)])
  have "distinct s" using d(4,5) Cons.prems(2) by simp
  note ih = Cons.IH [OF s(2) this]
  have t: "s = seen @ [item_id v]" by (simp add: d item_id_def)
  show ?case
  proof (intro conjI)
    show "\<forall>w \<in> set (v # vs). \<exists>s s'. check_item i s w = Inr s'" using ih s(1) unfolding list.set by blast
    show "distinct seen'" using ih by blast
    show "seen' = seen @ map item_id (v # vs)" using ih by (simp add: t)
  qed
qed simp

lemma items_allowed:
  assumes "check_items i v = Inr ()" and "wf_val v"
  shows "ok_val v"
proof -
  obtain vs where vs: "v = PList vs" using assms(1) by (cases v) (simp_all add: check_items_def as_list_def)
  obtain seen where v: "res_fold (check_item i) [] vs = Inr seen"
    using assms(1) by (cases "res_fold (check_item i) [] vs") (simp_all add: vs check_items_def as_list_def)
  have "\<not> is_str x \<and> ok_val x" if x: "x \<in> set vs" for x
  proof -
    have "wf_val x" using assms(2) x by (simp add: vs wf_list_iff)
    moreover obtain s s' where "check_item i s x = Inr s'" using items_fold [OF v] x by (metis distinct.simps(1))
    ultimately show ?thesis using item_allowed by blast
  qed
  then show ?thesis by (simp add: vs allowed_list_iff)
qed

lemma task_allowed:
  assumes "check_task i v = Inr ()" and "wf_val v"
  shows "\<not> is_str v \<and> ok_val v"
proof -
  obtain d where d: "v = PDict d" using assms(1) by (cases v) (simp_all add: check_task_def as_obj_def)
  have f: "key_set d \<subseteq> set TASK_FIELDS" "public_text 80 (jget d ''task'') \<noteq> None" "res_all (check_task_field i) d = Inr ()"
    using assms(1) by (simp_all add: check_task_def d as_obj_def)
  have "ok_val (jget d k)" if k: "k \<in> key_set d" for k
  proof (cases "k = ''task''")
    case False
    obtain x where m: "(k, x) \<in> set d" using k by (auto simp: key_set_def)
    have "check_task_field i (k, x) = Inr ()" using f(3) m by (simp add: res_all_Inr_iff)
    then have "x = PNone \<or> is_bool x \<or> (\<exists>e. check_number (\<lambda>q. 0 \<le> q) e x = Inr ())"
      using False by (auto simp: check_task_field_def Let_def split: if_split_asm)
    moreover have "is_bool x \<Longrightarrow> ok_val x" by (cases x) simp_all
    ultimately have "ok_val x" using number_allowed by auto
    then show ?thesis using jget_mem [OF _ m] assms(2) d by simp
  qed (use f(2) text_allowed in simp)
  then show ?thesis using allowed_obj [of d "set PUBLIC_NAMES"] f(1) assms(2) public_names(8) by (simp add: d)
qed

lemma round_facts:
  assumes "check_public_round i schema (n, v) = Inr ()"
  obtains d where "v = PDict d"
    "key_set d \<subseteq> set (ROUND_FIELDS @ (if n = ''4'' then [''tasks''] else []) @ (if 2 \<le> schema then [''items''] else []))"
    "2 \<le> schema \<Longrightarrow> dict_has d ''items''" "\<And>k x. (k, x) \<in> set d \<Longrightarrow> check_round_field i n (k, x) = Inr ()"
    "\<And>k c. 2 \<le> schema \<Longrightarrow> (k, c) \<in> set (expected_metrics n d) \<Longrightarrow> dict_has d k \<Longrightarrow> py_eq (jget d k) (PInt c)"
proof -
  obtain d where d: "v = PDict d" using assms by (cases v) (simp_all add: check_public_round_def Let_def as_obj_def)
  have f: "key_set d \<subseteq> set (ROUND_FIELDS @ (if n = ''4'' then [''tasks''] else []) @ (if 2 \<le> schema then [''items''] else []))"
    "2 \<le> schema \<longrightarrow> dict_has d ''items''" "res_all (check_round_field i n) d = Inr ()"
    "2 \<le> schema \<longrightarrow> res_all (\<lambda>(metric, expected). fail_if (dict_has d metric \<and> \<not> py_eq (jget d metric) (PInt expected))
        (bad_model i (''round '' @ n @ '' '' @ metric @ '' contradicts item outcomes''))) (expected_metrics n d) = Inr ()"
    using assms by (cases "2 \<le> schema"; simp add: check_public_round_def Let_def d as_obj_def)+
  show ?thesis
    by (rule that [OF d f(1)]) (use f(2-4) in \<open>auto simp: res_all_Inr_iff simp del: split_paired_All\<close>)
qed

lemma round_field_allowed:
  assumes "check_round_field i n (k, v) = Inr ()" and "wf_val v"
  shows "ok_val v"
proof -
  consider "k = ''items''" | "k = ''tasks''" | "k \<noteq> ''items''" "k \<noteq> ''tasks''" by blast
  then show ?thesis
  proof cases
    case 1
    then show ?thesis using assms items_allowed by (simp add: check_round_field_def)
  next
    case 2
    obtain ts where ts: "v = PList ts" using assms(1) by (cases v) (simp_all add: check_round_field_def as_list_def 2)
    have "res_all (check_task i) ts = Inr ()" using assms(1) by (simp add: check_round_field_def as_list_def 2 ts)
    then show ?thesis using task_allowed assms(2) by (simp add: ts allowed_list_iff res_all_Inr_iff wf_list_iff) blast
  next
    case 3
    then show ?thesis using assms(1) number_allowed by (cases "v = PNone") (simp_all add: check_round_field_def)
  qed
qed

lemma rounds_allowed:
  assumes "check_public_round i schema (n, v) = Inr ()" and "wf_val v"
  shows "ok_val v"
proof (rule round_facts [OF assms(1)])
  fix d assume d: "v = PDict d"
    and ks: "key_set d \<subseteq> set (ROUND_FIELDS @ (if n = ''4'' then [''tasks''] else []) @ (if 2 \<le> schema then [''items''] else []))"
    and fs: "\<And>k x. (k, x) \<in> set d \<Longrightarrow> check_round_field i n (k, x) = Inr ()"
  have "ok_val x" if "(k, x) \<in> set d" for k x
    using round_field_allowed [OF fs [OF that]] that assms(2) by (auto simp: d wf_dict_iff)
  moreover have "key_set d \<subseteq> set PUBLIC_NAMES" using ks public_names(12) by (rule subset_trans)
  ultimately show ?thesis unfolding d allowed.simps allowed_dict_iff key_set_def by (metis (no_types, lifting) case_prodI2 fst_conv imageI list.set_map subset_eq)
qed

lemma allowlisted:
  assumes "check_allowed v ws e = Inr ()" and "as_obj e' v = Inr d" and "set ws \<subseteq> set PUBLIC_NAMES" and "wf_val v"
    and "\<And>k x. (k, x) \<in> set d \<Longrightarrow> scalar x"
  shows "ok_val v"
proof -
  have v: "v = PDict d" using assms(2) by (simp add: as_obj_Inr)
  have "set (map (\<lambda>(k, _). PStr k) d) \<subseteq> set (map PStr ws)"
    using assms(1) by (simp add: check_allowed_def v py_iter_def split: if_split_asm)
  then have "k \<in> set ws" if "(k, x) \<in> set d" for k x using that by force
  then show ?thesis using assms(3,5) scalar_allowed unfolding v allowed.simps allowed_dict_iff by blast
qed

lemma metadata_scalar: "check_metadata_field i (k, x) = Inr () \<Longrightarrow> scalar x"
  using check_number_scalar public_text_scalar by (auto simp: check_metadata_field_def split: if_split_asm)

lemma parameter_scalar: "check_parameter i (k, x) = Inr () \<Longrightarrow> scalar x"
  using check_number_scalar public_text_scalar by (auto simp: check_parameter_def split: if_split_asm)

lemma model_facts:
  assumes "check_public_model schema rounds env i v = Inr ()"
  obtains m rs md ps where "v = PDict m" "key_set m = set (model_fields schema)" "public_text 160 (jget m ''public_name'') \<noteq> None"
    "need_in (jget m ''transport'') [''openai_compat'', ''codex_cli''] (bad_model i ''has an invalid transport'') = Inr ()"
    "4 \<le> schema \<longrightarrow> check_scaffold (bad_model i ''execution scaffold is invalid'') (jget m ''execution_scaffold'') = Inr ()"
    "3 \<le> schema \<longrightarrow> check_public_serving i env (jget m ''serving_environment'') = Inr ()"
    "jget m ''rounds'' = PDict rs" "key_set rs \<subseteq> set (round_names rounds)"
    "\<And>n r. (n, r) \<in> set rs \<Longrightarrow> check_public_round i schema (n, r) = Inr ()"
    "jget m ''public_metadata'' = PDict md" "jget m ''parameters'' = PDict ps"
    "check_allowed (PDict md) METADATA_FIELDS (bad_model i ''metadata is not allowlisted'') = Inr ()"
    "check_allowed (PDict ps) PARAMETER_FIELDS (bad_model i ''parameters are not allowlisted'') = Inr ()"
    "\<And>k x. (k, x) \<in> set md \<Longrightarrow> check_metadata_field i (k, x) = Inr ()" "\<And>k x. (k, x) \<in> set ps \<Longrightarrow> check_parameter i (k, x) = Inr ()"
proof -
  obtain m where m: "v = PDict m" using assms by (cases v) (simp_all add: check_public_model_def as_obj_def)
  have f: "key_set m = set (model_fields schema)" "public_text 160 (jget m ''public_name'') \<noteq> None"
    "need_in (jget m ''transport'') [''openai_compat'', ''codex_cli''] (bad_model i ''has an invalid transport'') = Inr ()"
    "4 \<le> schema \<longrightarrow> check_scaffold (bad_model i ''execution scaffold is invalid'') (jget m ''execution_scaffold'') = Inr ()"
    "3 \<le> schema \<longrightarrow> check_public_serving i env (jget m ''serving_environment'') = Inr ()"
    "\<exists>rs. jget m ''rounds'' = PDict rs \<and> key_set rs \<subseteq> set (round_names rounds) \<and> res_all (check_public_round i schema) rs = Inr ()"
    "check_allowed (jget m ''public_metadata'') METADATA_FIELDS (bad_model i ''metadata is not allowlisted'') = Inr ()"
    "check_allowed (jget m ''parameters'') PARAMETER_FIELDS (bad_model i ''parameters are not allowlisted'') = Inr ()"
    "\<exists>md. jget m ''public_metadata'' = PDict md \<and> res_all (check_metadata_field i) md = Inr ()"
    "\<exists>ps. jget m ''parameters'' = PDict ps \<and> res_all (check_parameter i) ps = Inr ()"
    using assms by (simp_all add: check_public_model_def m as_obj_Inr res_bind_Inr_iff conj_commute split: if_split_asm)
  obtain rs md ps where g: "jget m ''rounds'' = PDict rs" "key_set rs \<subseteq> set (round_names rounds)" "res_all (check_public_round i schema) rs = Inr ()"
      "jget m ''public_metadata'' = PDict md" "res_all (check_metadata_field i) md = Inr ()"
      "jget m ''parameters'' = PDict ps" "res_all (check_parameter i) ps = Inr ()"
    using f(6,9,10) by (elim exE conjE)
  show ?thesis
    by (rule that [OF m f(1-5) g(1,2) _ g(4,6)]) (use f(7,8) g in \<open>simp_all add: res_all_Inr_iff\<close>)
qed

lemma model_allowed:
  assumes "check_public_model schema rounds env i v = Inr ()" and "wf_val v" and "set (round_names rounds) \<subseteq> set PUBLIC_NAMES"
  shows "\<not> is_str v \<and> ok_val v"
proof (rule model_facts [OF assms(1)])
  fix m rs md ps
  assume m: "v = PDict m" and ks: "key_set m = set (model_fields schema)" and nm: "public_text 160 (jget m ''public_name'') \<noteq> None"
    and tr: "need_in (jget m ''transport'') [''openai_compat'', ''codex_cli''] (bad_model i ''has an invalid transport'') = Inr ()"
    and sc: "4 \<le> schema \<longrightarrow> check_scaffold (bad_model i ''execution scaffold is invalid'') (jget m ''execution_scaffold'') = Inr ()"
    and se: "3 \<le> schema \<longrightarrow> check_public_serving i env (jget m ''serving_environment'') = Inr ()"
    and rs: "jget m ''rounds'' = PDict rs" "key_set rs \<subseteq> set (round_names rounds)"
      "\<And>n r. (n, r) \<in> set rs \<Longrightarrow> check_public_round i schema (n, r) = Inr ()"
    and md: "jget m ''public_metadata'' = PDict md" "check_allowed (PDict md) METADATA_FIELDS (bad_model i ''metadata is not allowlisted'') = Inr ()"
      "\<And>k x. (k, x) \<in> set md \<Longrightarrow> check_metadata_field i (k, x) = Inr ()"
    and ps: "jget m ''parameters'' = PDict ps" "check_allowed (PDict ps) PARAMETER_FIELDS (bad_model i ''parameters are not allowlisted'') = Inr ()"
      "\<And>k x. (k, x) \<in> set ps \<Longrightarrow> check_parameter i (k, x) = Inr ()"
  have wf: "wf_val (jget m k)" for k using wf_jget assms(2) by (simp add: m del: wf_val.simps)
  have "ok_val r" if r: "(n, r) \<in> set rs" for n r
  proof -
    have "wf_val r" using wf [of "''rounds''"] r by (auto simp: rs(1) wf_dict_iff)
    then show ?thesis by (rule rounds_allowed [OF rs(3) [OF r]])
  qed
  then have "ok_val (jget m ''rounds'')"
    using rs(2) assms(3) unfolding rs(1) allowed.simps allowed_dict_iff key_set_def by force
  moreover have "ok_val (jget m ''public_metadata'')"
    using allowlisted [OF md(2), of undefined md] wf [of "''public_metadata''"] metadata_scalar [OF md(3)] public_names(10) by (simp add: md(1) as_obj_def)
  moreover have "ok_val (jget m ''parameters'')"
    using allowlisted [OF ps(2), of undefined ps] wf [of "''parameters''"] parameter_scalar [OF ps(3)] public_names(11) by (simp add: ps(1) as_obj_def)
  moreover have "ok_val (jget m ''transport'')" "ok_val (jget m ''public_name'')" using need_in_allowed [OF tr] text_allowed [OF nm] by simp_all
  moreover have "4 \<le> schema \<Longrightarrow> ok_val (jget m ''execution_scaffold'')" using sc scaffold_allowed wf by blast
  moreover have "3 \<le> schema \<Longrightarrow> ok_val (jget m ''serving_environment'')" using se serving_allowed wf by blast
  ultimately have "list_all (\<lambda>k. ok_val (jget m k)) (model_fields schema)" by (simp add: model_fields_def)
  then have "ok_val (PDict m)" using assms(2) ks public_names(7) by (intro allowed_fields [of m "model_fields schema"]) (simp_all add: m)
  then show ?thesis by (simp add: m)
qed

lemma privacy_allowed:
  assumes "py_eq v PRIVACY"
  shows "ok_val v"
proof -
  obtain d where d: "v = PDict d" using assms by (cases v) (simp_all add: PRIVACY_def py_num_def)
  obtain e where e: "PRIVACY = PDict e" "fst ` set e \<subseteq> set PUBLIC_NAMES" "\<forall>x \<in> snd ` set e. scalar x"
    by (simp add: PRIVACY_def PUBLIC_NAMES_def scalar_def)
  have "py_sub d' e \<Longrightarrow> allowed_dict (set PUBLIC_NAMES) d'" for d'
  proof (induction d')
    case (Cons kv d')
    obtain k x where kv: "kv = (k, x)" by (cases kv)
    obtain w where w: "map_of e k = Some w" "py_eq x w" "py_sub d' e" using Cons.prems by (simp add: kv split: option.splits)
    have "(k, w) \<in> set e" using w(1) by (rule map_of_SomeD)
    then have "k \<in> set PUBLIC_NAMES" "scalar w" using e(2,3) by force+
    moreover have "scalar x" using w(2) \<open>scalar w\<close> by (cases x; cases w) (simp_all add: scalar_def py_num_def)
    ultimately show ?case using Cons.IH [OF w(3)] scalar_allowed by (simp add: kv)
  qed simp
  then show ?thesis using assms by (simp add: d e(1))
qed

section \<open>Accepted bundles\<close>

lemma validate_facts:
  assumes "validate_public_result sha dumps v = Inr w"
  obtains p schema rounds env where "v = PDict p" "w = v" "check_top p = Inr schema" "check_bundle_id sha dumps p = Inr ()"
    "check_tool (jget p ''tool'') = Inr ()" "check_benchmark (jget p ''benchmark'') = Inr rounds" "check_environment (jget p ''environment'') = Inr env"
    "check_public_models schema rounds env (jget p ''models'') = Inr ()" "py_eq (jget p ''privacy'') PRIVACY" "res_all check_entry (walk ''root'' v) = Inr ()"
proof -
  obtain p where v: "v = PDict p" using assms by (cases v) (simp_all add: validate_public_result_def as_obj_def)
  from assms obtain schema rounds env where f: "check_top p = Inr schema" "check_bundle_id sha dumps p = Inr ()"
      "check_tool (jget p ''tool'') = Inr ()" "check_benchmark (jget p ''benchmark'') = Inr rounds" "check_environment (jget p ''environment'') = Inr env"
      "res_seq [check_public_models schema rounds env (jget p ''models''),
        fail_if (\<not> py_eq (jget p ''privacy'') PRIVACY) (ValueError ''public result privacy declaration is invalid''),
        res_all check_entry (walk ''root'' v),
        fail_if (2000000 < length (dumps v)) (ValueError ''public result is too large'')] = Inr ()" "w = v"
    unfolding validate_public_result_def v as_obj_def pyval.case res_bind.simps res_bind_Inr_iff by auto
  show ?thesis by (rule that [OF v f(7) f(1-5)]) (use f(6) in simp_all)
qed

lemma check_top_facts: "check_top p = Inr schema \<Longrightarrow> key_set p = set TOP_FIELDS \<and> jget p ''schema_version'' = PInt schema \<and> schema \<in> {1, 2, 3, 4}"
  by (cases "jget p ''schema_version''") (auto simp: check_top_def schema_of_def split: if_split_asm)

lemma models_allowed:
  assumes "check_public_models schema rounds env v = Inr ()" and "wf_val v" and "set (round_names rounds) \<subseteq> set PUBLIC_NAMES"
  shows "ok_val v"
proof -
  obtain ms where ms: "v = PList ms" using assms(1) by (cases v) (simp_all add: check_public_models_def as_list_def Let_def)
  have r: "res_all (\<lambda>(i, m). check_public_model schema rounds env (Suc i) m) (enumerate 0 ms) = Inr ()"
    using assms(1) by (simp add: check_public_models_def as_list_def Let_def ms split: if_split_asm)
  have "\<not> is_str m \<and> ok_val m" if m: "m \<in> set ms" for m
  proof -
    obtain i where "i < length ms" "ms ! i = m" using m by (auto simp: in_set_conv_nth)
    then have "(i, m) \<in> set (enumerate 0 ms)" by (auto simp: in_set_enumerate_eq)
    then have "check_public_model schema rounds env (Suc i) m = Inr ()" using r by (auto simp: res_all_Inr_iff)
    moreover have "wf_val m" using assms(2) m by (simp add: ms wf_list_iff)
    ultimately show ?thesis using model_allowed assms(3) by blast
  qed
  then show ?thesis by (simp add: ms allowed_list_iff)
qed

lemma validated_allowed:
  assumes "validate_public_result sha dumps v = Inr w" and "wf_val v"
  shows "ok_val v"
proof (rule validate_facts [OF assms(1)])
  fix p schema rounds env
  assume v: "v = PDict p" and top: "check_top p = Inr schema" and b: "check_bundle_id sha dumps p = Inr ()" and t: "check_tool (jget p ''tool'') = Inr ()"
    and be: "check_benchmark (jget p ''benchmark'') = Inr rounds" and en: "check_environment (jget p ''environment'') = Inr env"
    and ms: "check_public_models schema rounds env (jget p ''models'') = Inr ()" and pr: "py_eq (jget p ''privacy'') PRIVACY"
  have wf: "wf_val (jget p k)" for k using wf_jget assms(2) by (simp add: v del: wf_val.simps)
  have "set rounds \<subseteq> {1, 2, 3, 4}" by (rule benchmark_rounds [OF be])
  then have "set (round_names rounds) \<subseteq> {''1'', ''2'', ''3'', ''4''}" by (rule round_names_sub)
  then have rn: "set (round_names rounds) \<subseteq> set PUBLIC_NAMES" using public_names(13) by (rule subset_trans)
  have "ok_val (jget p ''bundle_id'')" using b by (cases "jget p ''bundle_id''") (simp_all add: check_bundle_id_def)
  then have "list_all (\<lambda>k. ok_val (jget p k)) TOP_FIELDS"
    using check_top_facts [OF top] tool_allowed [OF t wf] benchmark_allowed [OF be wf] environment_allowed [OF en wf, THEN conjunct2]
      models_allowed [OF ms wf rn] privacy_allowed [OF pr] by (simp add: TOP_FIELDS_def)
  then show ?thesis
    using assms(2) check_top_facts [OF top] public_names(1) unfolding v by (intro allowed_fields [of p TOP_FIELDS]) simp_all
qed

text \<open>C27. An accepted public bundle is private: every key at every depth is on the allowlist, none is a
  forbidden key, and no string in it, at any depth, looks like a path, a URL, an address, a control
  character or a secret. The bundle is returned unchanged.\<close>

theorem public_bundle_private:
  assumes "validate_public_result sha dumps v = Inr w" and "wf_val v"
  shows "w = v \<and> set (names v) \<subseteq> set PUBLIC_NAMES \<and> set (names v) \<inter> set FORBIDDEN_KEYS = {}
    \<and> (\<forall>s \<in> set (texts v). \<not> private_string s \<and> \<not> secret_string s)"
proof -
  note ok = validated_allowed [OF assms]
  have w: "w = v" and es: "res_all check_entry (walk ''root'' v) = Inr ()" and ns: "\<not> is_str v"
    by (rule validate_facts [OF assms(1)]; simp)+
  have "\<not> private_string s \<and> \<not> secret_string s" if s: "s \<in> set (texts v)" for s
  proof -
    obtain p k where "(p, k, PStr s) \<in> set (walk ''root'' v)" using allowed_texts(1) [OF ok ns s] by blast
    then have "check_entry (p, k, PStr s) = Inr ()" using es by (simp add: res_all_Inr_iff)
    then show ?thesis by (simp add: check_entry_def)
  qed
  moreover have "set PUBLIC_NAMES \<inter> set FORBIDDEN_KEYS = {}" by code_simp
  ultimately show ?thesis using w allowed_names(1) [OF ok] by blast
qed

definition demo_sha :: "string \<Rightarrow> string" where
  "demo_sha s = replicate 64 (CHR ''0'')"

definition demo_dumps :: "pyval \<Rightarrow> string" where
  "demo_dumps v = ''{}''"

definition demo_round_one :: pyval where
  "demo_round_one = PDict [(''passed'', PInt 1), (''total'', PInt 2), (''items'', PList
     [PDict [(''item'', PStr ''q1''), (''attempt'', PInt 1), (''status'', PStr ''PASS''), (''wall_seconds'', PFloat (3/2)), (''tokens'', PInt 12)],
      PDict [(''item'', PStr ''q2''), (''attempt'', PInt 1), (''status'', PStr ''FAIL''), (''wall_seconds'', PNone), (''tokens'', PNone)]])]"

definition demo_public_model :: pyval where
  "demo_public_model = PDict
     [(''public_name'', PStr ''demo-model''), (''transport'', PStr ''openai_compat''),
      (''execution_scaffold'', PDict [(''agent_backend'', PStr ''codex_cli''), (''isolation_mode'', PStr ''none''),
         (''network'', PStr ''unrestricted''), (''fail_closed'', PBool False)]),
      (''serving_environment'', PDict [(''scope'', PStr ''same_host''), (''os'', PStr ''Linux''), (''architecture'', PStr ''x86_64'')]),
      (''rounds'', PDict [(''1'', demo_round_one)]), (''parameters'', PDict [(''temperature'', PFloat (1/5))]),
      (''public_metadata'', PDict [(''quantization'', PStr ''Q4_K_M''), (''memory_gb'', PInt 64)])]"

definition demo_public :: jobj where
  "demo_public =
     [(''schema_version'', PInt 4), (''bundle_id'', PStr (''sha256:'' @ replicate 64 (CHR ''0''))),
      (''tool'', PDict [(''name'', PStr ''llm-hardtest-report''), (''version'', PStr ''1.0'')]),
      (''benchmark'', PDict [(''rounds'', PList [PInt 1]), (''packs'', PDict [(''1'', PStr (''sha256:'' @ replicate 64 (CHR ''a'')))])]),
      (''environment'', PDict [(''os'', PStr ''Linux''), (''architecture'', PStr ''x86_64''), (''python'', PStr ''3.12'')]),
      (''models'', PList [demo_public_model]), (''privacy'', PRIVACY)]"

lemma demo_public_checks:
  "check_top demo_public = Inr 4" "check_bundle_id demo_sha demo_dumps demo_public = Inr ()" "check_tool (jget demo_public ''tool'') = Inr ()"
  "check_benchmark (jget demo_public ''benchmark'') = Inr [1]"
  "check_environment (jget demo_public ''environment'') = Inr [(''os'', PStr ''Linux''), (''architecture'', PStr ''x86_64''), (''python'', PStr ''3.12'')]"
  "check_public_models 4 [1] [(''os'', PStr ''Linux''), (''architecture'', PStr ''x86_64''), (''python'', PStr ''3.12'')] (jget demo_public ''models'') = Inr ()"
  "py_eq (jget demo_public ''privacy'') PRIVACY" "res_all check_entry (walk ''root'' (PDict demo_public)) = Inr ()"
  by code_simp+

lemma demo_public_accepted: "validate_public_result demo_sha demo_dumps (PDict demo_public) = Inr (PDict demo_public)"
  unfolding validate_public_result_def as_obj_def pyval.case res_bind.simps demo_public_checks
  by (simp add: demo_public_checks demo_dumps_def res_seq_def fail_if_def)

lemma demo_public_wf: "wf_val (PDict demo_public)"
  by code_simp

theorem public_bundle_private_witness:
  "set (names (PDict demo_public)) \<inter> set FORBIDDEN_KEYS = {} \<and> ''demo-model'' \<in> set (texts (PDict demo_public))
     \<and> \<not> secret_string ''demo-model'' \<and> secret_string ''gho-0123456789abcdef'' \<and> private_string ''C:/key''"
proof -
  have "''demo-model'' \<in> set (texts (PDict demo_public))" by code_simp
  moreover have "secret_string ''gho-0123456789abcdef''" "private_string ''C:/key''" by code_simp+
  ultimately show ?thesis using public_bundle_private [OF demo_public_accepted demo_public_wf] by blast
qed

end
