(* ===== verification/Intake.thy ===== *)
theory Intake
  imports Public Packs
begin

text \<open>
  Loading public bundles and handing them to the aggregation: \<open>load_public_bundle\<close> of
  \<open>public_results.py\<close>, \<open>submission_relative_path\<close> of \<open>github_submit.py\<close> and
  \<open>load_submission_directory\<close> of \<open>community_results.py\<close>.

  A directory entry carries what the file system and the parsers answer about it: whether it is a
  link or a regular file, the result of \<open>json.load\<close>, the members of the archive (\<open>None\<close> when it is
  not an archive), and what its \<open>submission.json\<close> decodes to.
\<close>

section \<open>Files\<close>

record bundle_file =
  bf_name :: string
  bf_link :: bool
  bf_regular :: bool
  bf_json :: "pyval res"
  bf_members :: "(string \<times> nat \<times> nat) list option"
  bf_submission :: "pyval res"

definition load_public_bundle :: "(string \<Rightarrow> string) \<Rightarrow> (pyval \<Rightarrow> string) \<Rightarrow> bundle_file \<Rightarrow> pyval res" where
  "load_public_bundle sha dumps f =
     (let suffix = str_lower (suffix_of (bf_name f)) in
      if suffix = ''.json'' then res_bind (bf_json f) (validate_public_result sha dumps)
      else if suffix \<noteq> ''.zip'' then Inl (ValueError ''public result must be a .json or .zip file'')
      else (case bf_members f of
              None \<Rightarrow> Inl (ValueError ''invalid public bundle: File is not a zip file'')
            | Some ms \<Rightarrow>
                if map fst ms \<noteq> [''submission.json'', ''PRIVACY.txt''] then Inl (ValueError ''public bundle contains unexpected files'')
                else if list_ex (\<lambda>(_, n, c). 2000000 < n \<or> 2000000 < c) ms then Inl (ValueError ''public bundle is too large'')
                else res_bind (bf_submission f) (validate_public_result sha dumps)))"

definition digest_of :: "string \<Rightarrow> string" where
  "digest_of s = (if starts_with ''sha256:'' s then drop 7 s else s)"

text \<open>The last component of \<open>submission_relative_path\<close>.\<close>

definition submission_name :: "jobj \<Rightarrow> string res" where
  "submission_name payload =
     res_bind (res_bind (jitem payload ''bundle_id'') text_of) (\<lambda>s.
       let digest = digest_of s in
       if length digest = 64 \<and> list_all hex_ch digest then Inr (digest @ ''.json'')
       else Inl (ValueError ''submission has an invalid bundle ID''))"

definition load_entry ::
  "(string \<Rightarrow> string) \<Rightarrow> (pyval \<Rightarrow> string) \<Rightarrow> pyval list \<times> jobj list \<Rightarrow> bundle_file \<Rightarrow> (pyval list \<times> jobj list) res" where
  "load_entry sha dumps s f =
     (if bf_name f = ''.gitkeep'' then Inr s
      else if bf_link f \<or> \<not> bf_regular f \<or> str_lower (suffix_of (bf_name f)) \<noteq> ''.json''
      then Inl (ValueError (''unexpected submission entry: '' @ bf_name f))
      else res_bind (res_bind (load_public_bundle sha dumps f) obj_of) (\<lambda>payload.
           res_bind (submission_name payload) (\<lambda>expected.
             if bf_name f \<noteq> expected then Inl (ValueError (''submission filename does not match bundle ID: '' @ bf_name f))
             else if jget payload ''bundle_id'' \<in> set (fst s) then Inl (ValueError ''duplicate public bundle'')
             else Inr (fst s @ [jget payload ''bundle_id''], snd s @ [payload]))))"

definition load_submission_directory ::
  "(string \<Rightarrow> string) \<Rightarrow> (pyval \<Rightarrow> string) \<Rightarrow> bundle_file list option \<Rightarrow> jobj list res" where
  "load_submission_directory sha dumps directory =
     (case directory of
        None \<Rightarrow> Inl (ValueError ''submission directory does not exist as a regular directory'')
      | Some files \<Rightarrow> map_sum id snd (res_fold (load_entry sha dumps) ([], []) (sort_key bf_name files)))"

section \<open>Loops that can only fail in one way\<close>

lemma res_fold_one_error:
  assumes "I s" and "\<And>s x. I s \<Longrightarrow> x \<in> set xs \<Longrightarrow> f s x = Inl e \<or> (\<exists>t. f s x = Inr t \<and> I t)"
  shows "res_fold f s xs = Inl e \<or> (\<exists>t. res_fold f s xs = Inr t \<and> I t)"
  using assms
proof (induction xs arbitrary: s)
  case (Cons x xs)
  have "f s x = Inl e \<or> (\<exists>t. f s x = Inr t \<and> I t)" using Cons.prems by simp
  then show ?case
  proof (elim disjE exE conjE)
    fix t assume t: "f s x = Inr t" "I t"
    have "res_fold f t xs = Inl e \<or> (\<exists>u. res_fold f t xs = Inr u \<and> I u)" using Cons.IH [OF t(2)] Cons.prems(2) by simp
    then show ?thesis using t by simp
  qed simp
qed simp

lemma res_fold_never:
  assumes "I s" and "\<And>s x. I s \<Longrightarrow> x \<in> set xs \<Longrightarrow> \<exists>t. f s x = Inr t \<and> I t"
  obtains t where "res_fold f s xs = Inr t" "I t"
proof -
  have "\<exists>t. res_fold f s xs = Inr t \<and> I t" using assms
  proof (induction xs arbitrary: s)
    case (Cons x xs)
    obtain t where "f s x = Inr t" "I t" using Cons.prems by (meson list.set_intros(1))
    then show ?case using Cons.IH [of t] Cons.prems(2) by simp
  qed simp
  then show ?thesis using that by blast
qed

lemma jitem_has: "k \<in> key_set d \<Longrightarrow> jitem d k = Inr (jget d k)"
  by (cases "map_of d k") (simp_all add: jitem_def jget_def dict_get_def key_set_def map_of_eq_None_iff)

lemma jget_or_has: "k \<in> key_set d \<Longrightarrow> jget_or d k v = jget d k"
  by (cases "map_of d k") (simp_all add: jget_or_def jget_def dict_get_def key_set_def map_of_eq_None_iff)

section \<open>Validated bundles aggregate\<close>

abbreviation collision :: exn where
  "collision \<equiv> ValueError ''public configuration ID collision''"

definition identified :: "(string, identity) dict \<times> (agg_key, 'v) dict \<Rightarrow> bool" where
  "identified s \<longleftrightarrow> (\<forall>((_, _, _, conf), _) \<in> set (snd s). dict_has (fst s) conf)"

lemma identified_update:
  assumes "identified (confs, gs)" and "dict_has confs conf"
  shows "identified (confs, AList.update (n, pack, nm, conf) g gs)"
  using assms by (auto simp: identified_def dest!: update_in)

lemma identified_grow: "identified (confs, gs) \<Longrightarrow> identified (confs @ [(conf, i)], gs)"
  by (fastforce simp: identified_def dict_has_def)

lemma identity_total:
  assumes "schema \<in> {1, 2, 3, 4}" and "jget p ''schema_version'' = PInt schema" and "key_set p = set TOP_FIELDS"
    and "key_set m = set (model_fields schema)"
  shows "\<exists>i. identity_of p m = Inr i \<and> id_model i = jget m ''public_name'' \<and> (\<exists>conf. configuration_id sha dumps p m = Inr conf)"
proof -
  have v: "schema_at_least p n = Inr (n \<le> schema)" for n
    using assms(2,3) by (simp add: schema_at_least_def jget_or_has TOP_FIELDS_def py_num_def)
  have "jitem p ''environment'' = Inr (jget p ''environment'')" by (rule jitem_has) (simp add: assms(3) TOP_FIELDS_def)
  moreover have "jitem m k = Inr (jget m k)" if "k \<in> set (model_fields schema)" for k using that by (simp add: jitem_has assms(4))
  ultimately show ?thesis
    by (cases "3 \<le> schema"; cases "4 \<le> schema")
      (simp_all add: configuration_id_def identity_of_def normalized_serving_environment_def normalized_execution_scaffold_def v model_fields_def)
qed

lemma round_name_int: "n \<in> {''1'', ''2'', ''3'', ''4''} \<Longrightarrow> \<exists>k. py_int (PStr n) = Inr k"
proof -
  have "py_int (PStr ''1'') = Inr 1" "py_int (PStr ''2'') = Inr 2" "py_int (PStr ''3'') = Inr 3" "py_int (PStr ''4'') = Inr 4" by code_simp+
  then show "n \<in> {''1'', ''2'', ''3'', ''4''} \<Longrightarrow> ?thesis" by (elim insertE emptyE) auto
qed

lemma res_map_objs: "\<forall>v \<in> set vs. is_dict v \<Longrightarrow> \<exists>ds. res_map obj_of vs = Inr ds"
proof (induction vs)
  case (Cons v vs)
  then obtain d where "v = PDict d" by (cases v) simp_all
  then show ?case using Cons by (auto simp: obj_of_def)
qed simp

lemma round_items_total:
  assumes "check_public_round i schema (n, v) = Inr ()" and "wf_val v"
  obtains d items where "v = PDict d" "res_bind (py_iter (jget_or d ''items'' (PList []))) (res_map obj_of) = Inr items"
proof (rule round_facts [OF assms(1)])
  fix d assume d: "v = PDict d" and fs: "\<And>k x. (k, x) \<in> set d \<Longrightarrow> check_round_field i n (k, x) = Inr ()"
  show ?thesis
  proof (cases "map_of d ''items''")
    case None
    then show ?thesis by (intro that [OF d, of "[]"]) (simp add: jget_or_def dict_get_def py_iter_def)
  next
    case (Some x)
    then have "check_items i x = Inr ()" using fs [of "''items''" x] by (simp add: map_of_SomeD check_round_field_def)
    then obtain vs where vs: "x = PList vs" "check_items i (PList vs) = Inr ()" by (cases x) (simp_all add: check_items_def as_list_def)
    obtain seen where f: "res_fold (check_item i) [] vs = Inr seen"
      using vs(2) by (cases "res_fold (check_item i) [] vs") (simp_all add: check_items_def as_list_def)
    have "is_dict w" if w: "w \<in> set vs" for w
    proof -
      obtain s s' where "check_item i s w = Inr s'" using items_fold [OF f] w by (metis distinct.simps(1))
      then show ?thesis by (cases w) (simp_all add: check_item_def)
    qed
    then obtain ds where "res_map obj_of vs = Inr ds" using res_map_objs by blast
    then show ?thesis using Some vs(1) by (intro that [OF d, of ds]) (simp add: jget_or_def dict_get_def py_iter_def)
  qed
qed

lemma round_step_total:
  assumes "check_benchmark (jget p ''benchmark'') = Inr rounds" and "key_set p = set TOP_FIELDS" and "n \<in> set (round_names rounds)"
    and "check_public_round i schema (n, v) = Inr ()" and "wf_val v"
    and "identified (confs, gs)" and "dict_has confs conf"
  shows "\<exists>gs'. round_step p nm conf gs (n, v) = Inr gs' \<and> identified (confs, gs')"
proof (rule benchmark_rounds [OF assms(1)])
  fix d packs
  assume d: "jget p ''benchmark'' = PDict d" "key_set d = {''rounds'', ''packs''}" "jget d ''packs'' = PDict packs" "key_set packs = set (round_names rounds)"
    "set rounds \<subseteq> {1, 2, 3, 4}" "list_all fingerprint_ok (dict_vals packs)"
  have b: "jitem p ''benchmark'' = Inr (PDict d)" using jitem_has [of "''benchmark''" p] by (simp add: assms(2) TOP_FIELDS_def d(1))
  have ps: "dict_item (PDict d) ''packs'' = Inr (PDict packs)" using jitem_has [of "''packs''" d] by (simp add: dict_item_def d(2,3))
  have n: "n \<in> key_set packs" using assms(3) d(4) by simp
  have "(n, jget packs n) \<in> set packs" using n jitem_has [OF n] by (simp add: jitem_def map_of_SomeD split: option.splits)
  then have "fingerprint_ok (jget packs n)" using d(6) by (force simp: list_all_iff dict_vals_def)
  then obtain s where "jget packs n = PStr s" by (cases "jget packs n") (simp_all add: fingerprint_ok_def)
  then have pack: "res_bind (dict_item (PDict packs) n) text_of = Inr s" using jitem_has [OF n] by (simp add: dict_item_def text_of_def)
  have "n \<in> {''1'', ''2'', ''3'', ''4''}" using round_names_sub [OF d(5)] assms(3) by (rule subsetD)
  then obtain k where k: "py_int (PStr n) = Inr k" using round_name_int by blast
  obtain r items where r: "v = PDict r" "res_bind (py_iter (jget_or r ''items'' (PList []))) (res_map obj_of) = Inr items"
    by (rule round_items_total [OF assms(4,5)])
  have "round_step p nm conf gs (n, v) =
    Inr (AList.update (k, s, nm, conf) (add_metrics n r items (dict_get gs (k, s, nm, conf) new_local)) gs)"
    by (simp only: round_step_def prod.case b ps pack k r obj_of_def pyval.case res_bind.simps Let_def)
  then show ?thesis using identified_update [OF assms(6,7)] by blast
qed

lemma model_step_total:
  assumes "check_public_model schema rounds env i v = Inr ()" and "wf_val v"
    and "check_benchmark (jget p ''benchmark'') = Inr rounds" and "key_set p = set TOP_FIELDS"
    and "jget p ''schema_version'' = PInt schema" and "schema \<in> {1, 2, 3, 4}" and "identified s"
  shows "model_step sha dumps p s v = Inl collision \<or> (\<exists>t. model_step sha dumps p s v = Inr t \<and> identified t)"
proof (rule model_facts [OF assms(1)])
  fix m rs
  assume m: "v = PDict m" "key_set m = set (model_fields schema)" "public_text 160 (jget m ''public_name'') \<noteq> None"
    and rs: "jget m ''rounds'' = PDict rs" "key_set rs \<subseteq> set (round_names rounds)"
      "\<And>n r. (n, r) \<in> set rs \<Longrightarrow> check_public_round i schema (n, r) = Inr ()"
  obtain nm where nm: "jget m ''public_name'' = PStr nm" using m(3) public_text_str by blast
  obtain j conf where j: "identity_of p m = Inr j" "id_model j = PStr nm" "configuration_id sha dumps p m = Inr conf"
    using identity_total [OF assms(6,5,4) m(2), of sha dumps] nm by auto
  define confs where "confs = (if dict_has (fst s) conf then fst s else fst s @ [(conf, j)])"
  have rounds: "jitem m ''rounds'' = Inr (PDict rs)"
    using jitem_has [of "''rounds''" m] by (simp add: m(2) model_fields_def rs(1))
  have I: "identified (confs, snd s)" using assms(7) by (cases s) (simp add: confs_def identified_grow)
  have has: "dict_has confs conf" by (simp add: confs_def dict_has_def)
  have wf: "wf_val r" if "(n, r) \<in> set rs" for n r
    using wf_jget [of m "''rounds''"] assms(2) that unfolding m(1) rs(1) by (auto simp: wf_dict_iff)
  have "\<exists>gs. round_step p nm conf g nr = Inr gs \<and> identified (confs, gs)" if g: "identified (confs, g)" and nr: "nr \<in> set rs" for g nr
  proof -
    obtain n r where e: "nr = (n, r)" by (cases nr)
    have "n \<in> set (round_names rounds)" using nr rs(2) unfolding e key_set_def by force
    then show ?thesis unfolding e using round_step_total [OF assms(3,4) _ rs(3) wf g has] nr e by blast
  qed
  then obtain gs where "res_fold (round_step p nm conf) (snd s) rs = Inr gs" "identified (confs, gs)"
    by (rule res_fold_never [where I = "\<lambda>g. identified (confs, g)", OF I])
  then show ?thesis
    by (simp add: model_step_def m(1) obj_of_def j rounds text_of_def confs_def)
qed

lemma add_bundle_identified:
  fixes locals :: "(agg_key, local_group) dict" and groups :: "(agg_key, group) dict"
  assumes "identified (confs, locals)" and "identified (confs, groups)"
  shows "identified (confs, add_bundle locals groups)"
  using assms
proof (induction locals arbitrary: groups)
  case (Cons kl locals)
  obtain n pack nm conf l where kl: "kl = ((n, pack, nm, conf), l)" by (metis prod.exhaust)
  have "identified (confs, AList.update (n, pack, nm, conf) (add_local l (dict_get groups (n, pack, nm, conf) new_group)) groups)"
    using Cons.prems by (intro identified_update) (simp_all add: kl identified_def)
  moreover have "identified (confs, locals)" using Cons.prems(1) by (simp add: identified_def)
  ultimately show ?case using Cons.IH by (simp add: add_bundle_def kl)
qed (simp add: add_bundle_def)

definition accepted :: "(string \<Rightarrow> string) \<Rightarrow> (pyval \<Rightarrow> string) \<Rightarrow> jobj \<Rightarrow> bool" where
  "accepted sha dumps p \<longleftrightarrow> wf_val (PDict p) \<and> (\<exists>w. validate_public_result sha dumps (PDict p) = Inr w)"

text \<open>What later identities keep of the earlier ones.\<close>

lemma identified_mono: "identified (confs, gs) \<Longrightarrow> (\<And>c. dict_has confs c \<Longrightarrow> dict_has confs' c) \<Longrightarrow> identified (confs', gs)"
  by (fastforce simp: identified_def)

lemma model_step_grows: "model_step sha dumps p s v = Inr t \<Longrightarrow> dict_has (fst s) c \<Longrightarrow> dict_has (fst t) c"
  unfolding model_step_def by (auto simp: res_bind_Inr_iff dict_has_def split: if_split_asm)

lemma payload_step_total:
  assumes "accepted sha dumps p" and "identified s"
  shows "payload_step sha dumps s p = Inl collision \<or> (\<exists>t. payload_step sha dumps s p = Inr t \<and> identified t)"
proof -
  obtain w where w: "validate_public_result sha dumps (PDict p) = Inr w" and wf: "wf_val (PDict p)"
    using assms(1) by (auto simp: accepted_def)
  show ?thesis
  proof (rule validate_facts [OF w])
    fix q schema rounds env
    assume q: "PDict p = PDict q" and top: "check_top q = Inr schema" and be: "check_benchmark (jget q ''benchmark'') = Inr rounds"
      and ms: "check_public_models schema rounds env (jget q ''models'') = Inr ()"
    obtain vs where vs: "jget p ''models'' = PList vs" using ms q by (cases "jget q ''models''") (simp_all add: check_public_models_def as_list_def Let_def)
    have r: "res_all (\<lambda>(i, m). check_public_model schema rounds env (Suc i) m) (enumerate 0 vs) = Inr ()"
      using ms q vs by (simp add: check_public_models_def as_list_def Let_def split: if_split_asm)
    have t: "key_set p = set TOP_FIELDS" "jget p ''schema_version'' = PInt schema" "schema \<in> {1, 2, 3, 4}" using check_top_facts [OF top] q by simp_all
    have need: "need p ''models'' = Inr vs" using jitem_has [of "''models''" p] by (simp add: need_def t(1) TOP_FIELDS_def vs py_iter_def)
    have wfs: "wf_val v" if "v \<in> set vs" for v using wf_jget [OF wf, of "''models''"] that by (simp add: vs wf_list_iff)
    define I where "I l = (identified l \<and> (\<forall>c. dict_has (fst s) c \<longrightarrow> dict_has (fst l) c))" for l :: local_state
    have step: "model_step sha dumps p l v = Inl collision \<or> (\<exists>u. model_step sha dumps p l v = Inr u \<and> I u)"
      if l: "I l" and v: "v \<in> set vs" for l v
    proof -
      obtain i where "i < length vs" "vs ! i = v" using v by (auto simp: in_set_conv_nth)
      then have "(i, v) \<in> set (enumerate 0 vs)" by (auto simp: in_set_enumerate_eq)
      then have "check_public_model schema rounds env (Suc i) v = Inr ()" using r by (auto simp: res_all_Inr_iff)
      moreover have "check_benchmark (jget p ''benchmark'') = Inr rounds" using be q by simp
      ultimately show ?thesis
        using model_step_total [OF _ wfs [OF v] _ t, of rounds env "Suc i" l sha dumps] model_step_grows [of sha dumps p l v] l unfolding I_def by blast
    qed
    have "identified (fst s, [] :: (agg_key, local_group) dict)" by (simp add: identified_def)
    then have "I (fst s, [])" by (simp add: I_def)
    then have "res_fold (model_step sha dumps p) (fst s, []) vs = Inl collision \<or> (\<exists>l. res_fold (model_step sha dumps p) (fst s, []) vs = Inr l \<and> I l)"
      by (rule res_fold_one_error) (rule step)
    then show ?thesis
    proof (elim disjE exE conjE)
      fix l assume l: "res_fold (model_step sha dumps p) (fst s, []) vs = Inr l" "I l"
      have "identified (fst l, snd s)" using assms(2) l(2) unfolding I_def by (cases s) (metis fst_conv snd_conv identified_mono)
      then have "identified (fst l, add_bundle (snd l) (snd s))" using l(2) unfolding I_def by (cases l) (simp add: add_bundle_identified)
      then show ?thesis using l(1) by (simp add: payload_step_def need)
    qed (simp add: payload_step_def need)
  qed
qed

lemma agg_rows_total:
  assumes "identified (confs, kgs)"
  shows "\<exists>rows. res_map (agg_row_of sq confs) kgs = Inr rows"
  using assms
proof (induction kgs)
  case (Cons kg kgs)
  obtain n pack nm conf g where kg: "kg = ((n, pack, nm, conf), g)" by (metis prod.exhaust)
  have "dict_has confs conf" "identified (confs, kgs)" using Cons.prems by (simp_all add: kg identified_def)
  then show ?case using Cons.IH by (auto simp: kg agg_row_of_def dict_has_iff)
qed simp

lemma accepted_aggregate:
  assumes "\<forall>p \<in> set ps. accepted sha dumps p"
  shows "aggregate_submissions sha dumps sq ps = Inl collision \<or> (\<exists>rows. aggregate_submissions sha dumps sq ps = Inr rows)"
proof -
  have step: "payload_step sha dumps s p = Inl collision \<or> (\<exists>t. payload_step sha dumps s p = Inr t \<and> identified t)"
    if "identified s" "p \<in> set ps" for s p using assms payload_step_total that by blast
  have "identified ([], [] :: (agg_key, group) dict)" by (simp add: identified_def)
  then have "res_fold (payload_step sha dumps) ([], []) ps = Inl collision \<or> (\<exists>s. res_fold (payload_step sha dumps) ([], []) ps = Inr s \<and> identified s)"
    by (rule res_fold_one_error) (rule step)
  then show ?thesis
  proof (elim disjE exE conjE)
    fix s assume s: "res_fold (payload_step sha dumps) ([], []) ps = Inr s" "identified s"
    define key where "key = (\<lambda>((n :: int, _ :: string, nm :: string, conf :: string), _ :: group). (n, str_lower nm, conf))"
    have "identified (fst s, sort_key key (snd s))" using s(2) by (simp add: identified_def)
    from agg_rows_total [OF this, of sq] show ?thesis using s(1) by (auto simp: aggregate_submissions_def key_def)
  qed (simp add: aggregate_submissions_def)
qed

section \<open>Loading a directory\<close>

definition intake_ok :: "(string \<Rightarrow> string) \<Rightarrow> (pyval \<Rightarrow> string) \<Rightarrow> pyval list \<times> jobj list \<Rightarrow> bool" where
  "intake_ok sha dumps s \<longleftrightarrow> fst s = map (\<lambda>p. jget p ''bundle_id'') (snd s) \<and> distinct (fst s) \<and> (\<forall>p \<in> set (snd s). accepted sha dumps p)"

definition kept :: "bundle_file \<Rightarrow> bool" where
  "kept f \<longleftrightarrow> bf_name f \<noteq> ''.gitkeep''"

definition parsed :: "bundle_file \<Rightarrow> bool" where
  "parsed f \<longleftrightarrow> (case bf_json f of Inl _ \<Rightarrow> True | Inr v \<Rightarrow> wf_val v)"

lemma intake_start: "intake_ok sha dumps ([], [])"
  by (simp add: intake_ok_def)

lemma load_entry_ok:
  assumes "load_entry sha dumps s f = Inr t" and "intake_ok sha dumps s" and "parsed f"
  shows "intake_ok sha dumps t \<and> length (snd t) = length (snd s) + (if kept f then 1 else 0)"
proof (cases "kept f")
  case True
  then obtain p where js: "str_lower (suffix_of (bf_name f)) = ''.json''" and l: "load_public_bundle sha dumps f = Inr (PDict p)"
      and new: "jget p ''bundle_id'' \<notin> set (fst s)" and t: "t = (fst s @ [jget p ''bundle_id''], snd s @ [p])"
    using assms(1) unfolding load_entry_def kept_def by (auto simp: res_bind_Inr_iff split: if_split_asm)
  obtain v where v: "bf_json f = Inr v" "validate_public_result sha dumps v = Inr (PDict p)"
    using l by (auto simp: load_public_bundle_def Let_def js res_bind_Inr_iff)
  have "PDict p = v" by (rule validate_facts [OF v(2)]) simp
  then have "accepted sha dumps p" using v assms(3) by (auto simp: accepted_def parsed_def simp del: wf_val.simps)
  then show ?thesis using assms(2) new True by (auto simp: t intake_ok_def)
qed (use assms in \<open>simp add: load_entry_def kept_def\<close>)

lemma load_entries_ok:
  "res_fold (load_entry sha dumps) s fs = Inr t \<Longrightarrow> intake_ok sha dumps s \<Longrightarrow> \<forall>f \<in> set fs. parsed f
     \<Longrightarrow> intake_ok sha dumps t \<and> length (snd t) = length (snd s) + length (filter kept fs)"
proof (induction fs arbitrary: s)
  case (Cons f fs)
  obtain u where u: "load_entry sha dumps s f = Inr u" "res_fold (load_entry sha dumps) u fs = Inr t"
    using Cons.prems(1) by (auto split: sum.splits)
  show ?case using load_entry_ok [OF u(1) Cons.prems(2)] Cons.IH [OF u(2)] Cons.prems(3) by auto
qed simp


definition demo_file :: "string \<Rightarrow> bundle_file" where
  "demo_file nm = \<lparr>bf_name = nm, bf_link = False, bf_regular = True, bf_json = Inr (PDict demo_public), bf_members = None,
     bf_submission = Inl (OtherError ''no archive'')\<rparr>"

definition demo_directory :: "bundle_file list" where
  "demo_directory = [demo_file (replicate 64 (CHR ''0'') @ ''.json''), demo_file ''.gitkeep'']"

lemma demo_directory_loads: "load_submission_directory demo_sha demo_dumps (Some demo_directory) = Inr [demo_public]"
proof -
  define nm where "nm = replicate 64 (CHR ''0'') @ ''.json''"
  have sorted: "sort_key bf_name demo_directory = [demo_file ''.gitkeep'', demo_file nm]"
    by (simp add: demo_directory_def demo_file_def nm_def numeral_eq_Suc)
  have "load_public_bundle demo_sha demo_dumps (demo_file nm) = Inr (PDict demo_public)"
  proof -
    have "str_lower (suffix_of nm) = ''.json''" unfolding nm_def by code_simp
    then show ?thesis by (simp add: load_public_bundle_def demo_file_def demo_public_accepted)
  qed
  moreover have "str_lower (suffix_of nm) = ''.json''" "nm \<noteq> ''.gitkeep''" "submission_name demo_public = Inr nm" unfolding nm_def by code_simp+
  ultimately show ?thesis
    by (simp add: load_submission_directory_def sorted load_entry_def) (simp add: demo_file_def obj_of_def)
qed


end
