(* ===== verification/Paired.thy ===== *)
theory Paired
  imports Community
begin

text \<open>
  Paired comparison of two exact configurations (\<open>src/llm_hardtest/paired_comparison.py\<close>) with the
  sampler and the percentile of \<open>calibration.py\<close>: the collapse of bundles to observations, the
  sign-flip test, the Holm adjustment, the resolution audit, and the comparison itself.

  Numbers are exact rationals. \<open>hash seed n\<close> is the integer that the sampler reads from the SHA-256 of
  the seed's digest followed by the counter \<open>n\<close>. An identity is the record of \<open>Community\<close>; the code
  also stores the configuration ID in it, which is the key it is stored under.
\<close>

section \<open>Constants\<close>

definition BOOTSTRAP_SAMPLES :: nat where "BOOTSTRAP_SAMPLES = 2000"

definition SIGN_FLIP_EXACT_LIMIT :: nat where "SIGN_FLIP_EXACT_LIMIT = 65536"

definition SIGN_FLIP_MONTE_CARLO_SAMPLES :: nat where "SIGN_FLIP_MONTE_CARLO_SAMPLES = 20000"

definition SIGN_FLIP_ABSOLUTE_TOLERANCE :: rat where "SIGN_FLIP_ABSOLUTE_TOLERANCE = 1 / 10 ^ 12"

definition FAMILYWISE_ALPHA :: rat where "FAMILYWISE_ALPHA = 5 / 100"

definition MIN_EXPECTED_BOOTSTRAP_TAIL_DRAWS :: nat where "MIN_EXPECTED_BOOTSTRAP_TAIL_DRAWS = 100"

section \<open>Observations\<close>

record observation =
  ob_bundle :: string
  ob_round :: int
  ob_pack :: string
  ob_configuration :: string
  ob_identity :: identity
  ob_accuracy :: "rat option"
  ob_completion :: "rat option"
  ob_latency :: "rat option"
  ob_throughput :: "rat option"

definition ob_value :: "observation \<Rightarrow> string \<Rightarrow> rat option" where
  "ob_value o1 objective =
     (if objective = ''accuracy'' then ob_accuracy o1 else if objective = ''completion'' then ob_completion o1
      else if objective = ''latency'' then ob_latency o1 else ob_throughput o1)"

type_synonym obs_key = "string \<times> int \<times> string \<times> string"

text \<open>The sums of a group are the ones of \<open>add_metrics\<close>; its run counter is not used here.\<close>

definition obs_round ::
  "jobj \<Rightarrow> string \<Rightarrow> (obs_key, local_group) dict \<Rightarrow> string \<times> pyval \<Rightarrow> (obs_key, local_group) dict res" where
  "obs_round payload conf groups nv =
     (case nv of (n, v) \<Rightarrow>
        res_bind (py_int (PStr n)) (\<lambda>k.
        res_bind (jitem payload ''benchmark'') (\<lambda>b.
        res_bind (dict_item b ''packs'') (\<lambda>ps.
        res_bind (res_bind (dict_item ps n) text_of) (\<lambda>pack.
        res_bind (res_bind (jitem payload ''bundle_id'') text_of) (\<lambda>bundle.
        res_bind (obj_of v) (\<lambda>metrics.
        res_bind (res_bind (py_iter (jget_or metrics ''items'' (PList []))) (res_map obj_of)) (\<lambda>items.
          let key = (bundle, k, pack, conf) in
          Inr (AList.update key (add_metrics n metrics items (dict_get groups key new_local)) groups)))))))))"

type_synonym obs_state = "(string, identity) dict \<times> (obs_key, local_group) dict"

definition obs_model :: "(string \<Rightarrow> string) \<Rightarrow> (pyval \<Rightarrow> string) \<Rightarrow> jobj \<Rightarrow> obs_state \<Rightarrow> pyval \<Rightarrow> obs_state res" where
  "obs_model sha dumps payload s v =
     res_bind (obj_of v) (\<lambda>model.
     res_bind (configuration_id sha dumps payload model) (\<lambda>conf.
     res_bind (identity_of payload model) (\<lambda>i.
       if dict_get (fst s) conf i \<noteq> i then Inl (ValueError ''public configuration ID collision'')
       else res_bind (res_bind (jitem model ''rounds'') obj_of) (\<lambda>rounds.
            res_bind (res_fold (obs_round payload conf) (snd s) rounds) (\<lambda>groups.
              Inr (if dict_has (fst s) conf then fst s else fst s @ [(conf, i)], groups))))))"

definition obs_payload :: "(string \<Rightarrow> string) \<Rightarrow> (pyval \<Rightarrow> string) \<Rightarrow> obs_state \<Rightarrow> jobj \<Rightarrow> obs_state res" where
  "obs_payload sha dumps s payload =
     res_bind (need payload ''models'') (\<lambda>models. res_fold (obs_model sha dumps payload) s models)"

definition obs_row :: "(string, identity) dict \<Rightarrow> obs_key \<times> local_group \<Rightarrow> observation res" where
  "obs_row identities kg =
     (case kg of ((bundle, n, pack, conf), g) \<Rightarrow>
        case map_of identities conf of
          None \<Rightarrow> Inl (KeyError conf)
        | Some i \<Rightarrow> Inr
            \<lparr>ob_bundle = bundle, ob_round = n, ob_pack = pack, ob_configuration = conf, ob_identity = i,
             ob_accuracy = (if 0 < lg_total g then Some (lg_passed g / lg_total g) else None),
             ob_completion = (if 0 < attempted g then Some (lg_total g / attempted g) else None),
             ob_latency = (if lg_walls g = [] then None else Some (mean_rat (lg_walls g))),
             ob_throughput = (if lg_rates g = [] then None else Some (mean_rat (lg_rates g)))\<rparr>)"

definition bundle_observations :: "(string \<Rightarrow> string) \<Rightarrow> (pyval \<Rightarrow> string) \<Rightarrow> jobj list \<Rightarrow> observation list res" where
  "bundle_observations sha dumps submissions =
     res_bind (res_fold (obs_payload sha dumps) ([], []) submissions) (\<lambda>s.
       res_map (obs_row (fst s)) (sort_key fst (snd s)))"

section \<open>Sampling\<close>

record sampler =
  sa_seed :: string
  sa_counter :: nat

definition new_sampler :: "string \<Rightarrow> sampler" where
  "new_sampler seed = \<lparr>sa_seed = seed, sa_counter = 0\<rparr>"

definition choice :: "(string \<Rightarrow> nat \<Rightarrow> nat) \<Rightarrow> 'a list \<Rightarrow> sampler \<Rightarrow> ('a \<times> sampler) res" where
  "choice hash vs g =
     (if vs = [] then Inl (ValueError ''cannot sample an empty collection'')
      else Inr (vs ! (hash (sa_seed g) (sa_counter g) mod length vs), g\<lparr>sa_counter := sa_counter g + 1\<rparr>))"

text \<open>\<open>[draw() for _ in range(n)]\<close> with the generator passed on.\<close>

fun sample_many :: "nat \<Rightarrow> (sampler \<Rightarrow> ('a \<times> sampler) res) \<Rightarrow> sampler \<Rightarrow> ('a list \<times> sampler) res" where
  "sample_many 0 draw g = Inr ([], g)"
| "sample_many (Suc n) draw g =
     res_bind (draw g) (\<lambda>(x, g). res_bind (sample_many n draw g) (\<lambda>(xs, g). Inr (x # xs, g)))"

definition sample_mean :: "(string \<Rightarrow> nat \<Rightarrow> nat) \<Rightarrow> rat list \<Rightarrow> sampler \<Rightarrow> (rat \<times> sampler) res" where
  "sample_mean hash effects g =
     res_bind (sample_many (length effects) (choice hash effects) g) (\<lambda>(xs, g). Inr (mean_rat xs, g))"

text \<open>\<open>_percentile\<close> of \<open>calibration.py\<close>, on a list that is not empty.\<close>

definition quantile :: "rat list \<Rightarrow> rat \<Rightarrow> rat" where
  "quantile vs p = sort vs ! nat (max 0 (min (int (length vs) - 1) (\<lceil>p * of_nat (length vs)\<rceil> - 1)))"

section \<open>The sign-flip test\<close>

record sign_test =
  st_p :: rat
  st_exact :: bool
  st_assignments :: nat
  st_evaluated :: nat
  st_extreme :: nat

text \<open>The effects with the sign that the mask \<open>m\<close> gives to each index.\<close>

definition flipped :: "rat list \<Rightarrow> nat \<Rightarrow> rat list" where
  "flipped effects m = map (\<lambda>(i, e). if odd (m div 2 ^ i) then e else - e) (enumerate 0 effects)"

definition as_extreme :: "rat list \<Rightarrow> rat list \<Rightarrow> bool" where
  "as_extreme effects xs \<longleftrightarrow> \<bar>mean_rat effects\<bar> \<le> \<bar>mean_rat xs\<bar> + SIGN_FLIP_ABSOLUTE_TOLERANCE"

definition up_8 :: "rat \<Rightarrow> rat" where
  "up_8 p = of_int \<lceil>p * 100000000\<rceil> / 100000000"

fun random_signs :: "(string \<Rightarrow> nat \<Rightarrow> nat) \<Rightarrow> rat list \<Rightarrow> sampler \<Rightarrow> (rat list \<times> sampler) res" where
  "random_signs hash [] g = Inr ([], g)"
| "random_signs hash (e # es) g =
     res_bind (choice hash [False, True] g) (\<lambda>(b, g).
     res_bind (random_signs hash es g) (\<lambda>(xs, g). Inr ((if b then e else - e) # xs, g)))"

definition sign_flip_test :: "(string \<Rightarrow> nat \<Rightarrow> nat) \<Rightarrow> rat list \<Rightarrow> string \<Rightarrow> sign_test res" where
  "sign_flip_test hash effects seed =
     (let assignments = 2 ^ length effects in
      if assignments \<le> SIGN_FLIP_EXACT_LIMIT
      then let extreme = length (filter (\<lambda>m. as_extreme effects (flipped effects m)) [0..<assignments]) in
           Inr \<lparr>st_p = min 1 (up_8 (of_nat extreme / of_nat assignments)), st_exact = True, st_assignments = assignments,
                st_evaluated = assignments, st_extreme = extreme\<rparr>
      else res_bind (sample_many SIGN_FLIP_MONTE_CARLO_SAMPLES (random_signs hash effects) (new_sampler seed)) (\<lambda>(xss, _).
           let extreme = length (filter (as_extreme effects) xss) in
           Inr \<lparr>st_p = min 1 (up_8 (of_nat (extreme + 1) / of_nat (SIGN_FLIP_MONTE_CARLO_SAMPLES + 1))), st_exact = False,
                st_assignments = assignments, st_evaluated = SIGN_FLIP_MONTE_CARLO_SAMPLES, st_extreme = extreme\<rparr>))"

section \<open>Resolution\<close>

definition bootstrap_sample_count :: "nat \<Rightarrow> nat" where
  "bootstrap_sample_count family =
     (if family = 0 then 0
      else max BOOTSTRAP_SAMPLES (nat \<lceil>2 * of_nat family * of_nat MIN_EXPECTED_BOOTSTRAP_TAIL_DRAWS / FAMILYWISE_ALPHA\<rceil>))"

text \<open>\<open>min(1.0, 2.0 ** (1 - n))\<close>.\<close>

definition raw_floor :: "nat \<Rightarrow> rat" where
  "raw_floor n = min 1 (2 / 2 ^ n)"

function pairs_from :: "nat \<Rightarrow> nat \<Rightarrow> nat" where
  "pairs_from family n = (if FAMILYWISE_ALPHA \<le> raw_floor n * of_nat family then pairs_from family (Suc n) else n)"
  by auto

definition minimum_nonzero_pairs_for_holm :: "nat \<Rightarrow> nat" where
  "minimum_nonzero_pairs_for_holm family = (if family = 0 then 0 else pairs_from family 0)"

record resolution =
  rs_limited :: bool
  rs_tolerance :: rat
  rs_nonzero :: nat
  rs_raw_floor :: rat
  rs_multiplier :: nat
  rs_holm_floor :: rat
  rs_required :: nat
  rs_additional :: nat

definition nonzero_pairs :: "rat list \<Rightarrow> nat" where
  "nonzero_pairs effects =
     length (filter (\<lambda>e. SIGN_FLIP_ABSOLUTE_TOLERANCE * of_nat (length effects) / 2 < \<bar>e\<bar>) effects)"

definition inference_resolution :: "rat list \<Rightarrow> nat \<Rightarrow> resolution" where
  "inference_resolution effects family =
     (let nonzero = nonzero_pairs effects; required = minimum_nonzero_pairs_for_holm family in
      \<lparr>rs_limited = (required - nonzero \<noteq> 0), rs_tolerance = SIGN_FLIP_ABSOLUTE_TOLERANCE * of_nat (length effects) / 2,
       rs_nonzero = nonzero, rs_raw_floor = raw_floor nonzero, rs_multiplier = family,
       rs_holm_floor = min 1 (raw_floor nonzero * of_nat family), rs_required = required, rs_additional = required - nonzero\<rparr>)"

termination pairs_from
proof (relation "measure (\<lambda>(family, n). 40 * family + 1 - n)"; simp)
  fix family n :: nat
  assume a: "FAMILYWISE_ALPHA \<le> raw_floor n * of_nat family"
  have "raw_floor n * of_nat family \<le> 2 / 2 ^ n * of_nat family"
    by (intro mult_right_mono) (simp_all add: raw_floor_def)
  with a have "FAMILYWISE_ALPHA \<le> 2 / 2 ^ n * of_nat family" by (rule order_trans)
  then have "(2 ^ n :: rat) \<le> of_nat (40 * family)" by (simp add: FAMILYWISE_ALPHA_def field_simps)
  moreover have "of_nat (2 ^ n) = (2 ^ n :: rat)" by simp
  ultimately have "2 ^ n \<le> 40 * family" by (metis of_nat_le_iff)
  moreover have "n < 2 ^ n" by (rule less_exp)
  ultimately show "40 * family - n < Suc (40 * family) - n" by linarith
qed

declare pairs_from.simps [simp del]

section \<open>Rows of a comparison\<close>

datatype verdict =
    INSUFFICIENT | PENDING | LEFT_BETTER | RIGHT_BETTER | LEFT_SMALL_EFFECT | RIGHT_SMALL_EFFECT | INCONCLUSIVE

record pair_interval =
  pi_low :: rat
  pi_high :: rat

record objective_row =
  or_objective :: string
  or_unit :: string
  or_pairs :: nat
  or_left_mean :: "rat option"
  or_right_mean :: "rat option"
  or_advantage :: "rat option"
  or_floor :: rat
  or_interval :: "pair_interval option"
  or_simultaneous :: "pair_interval option"
  or_resolution :: "resolution option"
  or_p_raw :: "rat option"
  or_p_holm :: "rat option"
  or_test :: "sign_test option"
  or_met :: "bool option"
  or_class :: verdict

definition paired_intervals ::
  "(string \<Rightarrow> nat \<Rightarrow> nat) \<Rightarrow> rat list \<Rightarrow> string \<Rightarrow> nat \<Rightarrow> nat \<Rightarrow> (pair_interval \<times> pair_interval) res" where
  "paired_intervals hash effects seed family samples =
     res_bind (sample_many samples (sample_mean hash effects) (new_sampler seed)) (\<lambda>(draws, _).
       let q = (\<lambda>p. py_round 6 (quantile draws p)); tail = FAMILYWISE_ALPHA / (2 * of_nat family) in
       Inr (\<lparr>pi_low = q (25 / 1000), pi_high = q (975 / 1000)\<rparr>, \<lparr>pi_low = q tail, pi_high = q (1 - tail)\<rparr>))"

text \<open>The sort of \<open>_holm_adjust\<close> and its loop: \<open>previous\<close> is the running maximum, the first rank is 1.\<close>

definition holm_key :: "objective_row \<Rightarrow> rat \<times> string" where
  "holm_key r = (the (or_p_raw r), or_objective r)"

fun holm_loop :: "nat \<Rightarrow> nat \<Rightarrow> rat \<Rightarrow> objective_row list \<Rightarrow> (string \<times> rat) list" where
  "holm_loop family rank previous [] = []"
| "holm_loop family rank previous (r # rs) =
     (let adjusted = min 1 (the (or_p_raw r) * (of_nat family - of_nat rank + 1)); top = max previous adjusted in
      (or_objective r, py_round 8 top) # holm_loop family (Suc rank) top rs)"

definition holm_adjust :: "objective_row list \<Rightarrow> nat \<Rightarrow> objective_row list res" where
  "holm_adjust rows family =
     (let tested = filter (\<lambda>r. or_p_raw r \<noteq> None) rows in
      if family < length tested then Inl (ValueError ''Holm family cannot be smaller than tested objectives'')
      else let adj = map_of (holm_loop family 1 0 (sort_key holm_key tested)) in
           Inr (map (\<lambda>r. if or_p_raw r = None then r else r\<lparr>or_p_holm := adj (or_objective r)\<rparr>) rows))"

definition minimum_effect :: "jobj \<Rightarrow> string \<Rightarrow> (string \<times> rat) res" where
  "minimum_effect values objective =
     (let v = jget_or values objective (PFloat 0); e = ValueError (''minimum '' @ objective @ '' effect must be a finite non-negative number'') in
      case pure_num v of
        None \<Rightarrow> Inl e
      | Some q \<Rightarrow>
          if (case v of PInt i \<Rightarrow> 2 ^ 1024 - 2 ^ 970 \<le> \<bar>i\<bar> | _ \<Rightarrow> False) \<or> q < 0 then Inl e
          else if objective \<in> {''accuracy'', ''completion''} \<and> 1 < q
          then Inl (ValueError (''minimum '' @ objective @ '' effect cannot exceed 1''))
          else Inr (objective, q))"

definition minimum_effects :: "string list \<Rightarrow> pyval \<Rightarrow> (string \<times> rat) list res" where
  "minimum_effects objectives values =
     (case (if values = PNone then PDict [] else values) of
        PDict d \<Rightarrow>
          if \<not> set (map fst d) \<subseteq> set objectives then Inl (ValueError ''minimum effect supplied for unselected objective(s)'')
          else res_map (minimum_effect d) objectives
      | _ \<Rightarrow> Inl (ValueError ''comparison minimum effects must be an object''))"

text \<open>The pairs of one objective, its effects, and its row before any test.\<close>

definition value_pairs :: "string \<Rightarrow> (observation \<times> observation) list \<Rightarrow> (rat \<times> rat) list" where
  "value_pairs objective shared =
     List.map_filter (\<lambda>(l, r). case (ob_value l objective, ob_value r objective) of (Some x, Some y) \<Rightarrow> Some (x, y) | _ \<Rightarrow> None) shared"

definition effects_of :: "string \<Rightarrow> (rat \<times> rat) list \<Rightarrow> rat list" where
  "effects_of objective ps = map (\<lambda>(l, r). if objective = ''latency'' then r - l else l - r) ps"

definition mean_6 :: "rat list \<Rightarrow> rat option" where
  "mean_6 xs = (if xs = [] then None else Some (py_round 6 (mean_rat xs)))"

definition pending_row :: "(string \<times> rat) list \<Rightarrow> string \<Rightarrow> (rat \<times> rat) list \<Rightarrow> objective_row" where
  "pending_row floors objective ps =
     \<lparr>or_objective = objective,
      or_unit = (if objective = ''latency'' then ''seconds'' else if objective \<in> {''accuracy'', ''completion''} then ''rate'' else ''tokens_per_second''),
      or_pairs = length ps, or_left_mean = mean_6 (map fst ps), or_right_mean = mean_6 (map snd ps),
      or_advantage = mean_6 (effects_of objective ps), or_floor = the (map_of floors objective), or_interval = None, or_simultaneous = None,
      or_resolution = None, or_p_raw = None, or_p_holm = None, or_test = None, or_met = None,
      or_class = (if MIN_BASELINE_SUBMISSIONS \<le> length ps then PENDING else INSUFFICIENT)\<rparr>"

definition test_row :: "(string \<Rightarrow> nat \<Rightarrow> nat) \<Rightarrow> string \<Rightarrow> nat \<Rightarrow> nat \<Rightarrow> objective_row \<times> rat list \<Rightarrow> objective_row res" where
  "test_row hash seed family samples re =
     (case re of (r, effects) \<Rightarrow>
        if or_class r = INSUFFICIENT then Inr r
        else res_bind (paired_intervals hash effects (seed @ or_objective r) family samples) (\<lambda>(iv, sv).
             res_bind (sign_flip_test hash effects (seed @ or_objective r)) (\<lambda>t.
               Inr (r\<lparr>or_interval := Some iv, or_simultaneous := Some sv, or_resolution := Some (inference_resolution effects family),
                      or_test := Some t, or_p_raw := Some (st_p t)\<rparr>))))"

definition classify :: "objective_row \<Rightarrow> objective_row" where
  "classify r =
     (case (or_interval r, or_simultaneous r, or_p_holm r) of
        (Some iv, Some sv, Some p) \<Rightarrow>
          let t = or_floor r; sig = (p < FAMILYWISE_ALPHA);
              left = (if t = 0 then 0 < pi_low iv else t < pi_low sv); right = (if t = 0 then pi_high iv < 0 else pi_high sv < - t);
              verdict = (\<lambda>m c. r\<lparr>or_met := Some m, or_class := c\<rparr>)
          in if or_class r = INSUFFICIENT then r
             else if sig \<and> left then verdict True LEFT_BETTER
             else if sig \<and> right then verdict True RIGHT_BETTER
             else if sig \<and> 0 < pi_low iv then verdict False LEFT_SMALL_EFFECT
             else if sig \<and> pi_high iv < 0 then verdict False RIGHT_SMALL_EFFECT
             else verdict False INCONCLUSIVE
      | _ \<Rightarrow> r)"

section \<open>The comparison\<close>

text \<open>The last status is \<open>INCONCLUSIVE\<close> in the code.\<close>

datatype comparison_status =
    NO_OBSERVATIONS | PACK_REQUIRED | NO_MATCH | INSUFFICIENT_EVIDENCE | LEFT_DIRECTIONAL_EVIDENCE | RIGHT_DIRECTIONAL_EVIDENCE
  | MIXED_DIRECTIONAL_EVIDENCE | STATISTICAL_ONLY_EVIDENCE | RESOLUTION_LIMITED | NOT_DECISIVE

record comparison =
  cm_pack :: "string option"
  cm_available :: "string list"
  cm_explicit :: bool
  cm_family :: nat
  cm_samples :: nat
  cm_confidence :: "rat option"
  cm_required :: nat
  cm_limited :: nat
  cm_status :: comparison_status
  cm_left :: "identity option"
  cm_right :: "identity option"
  cm_shared :: nat
  cm_tested :: nat
  cm_rows :: "objective_row list"

definition relabel :: "string \<Rightarrow> 'a res \<Rightarrow> 'a res" where
  "relabel msg m = (case m of Inl (ValueError _) \<Rightarrow> Inl (ValueError msg) | _ \<Rightarrow> m)"

definition check_side :: "string \<Rightarrow> pyval \<Rightarrow> string res" where
  "check_side side v =
     (case v of
        PStr s \<Rightarrow> if configuration_ok s then Inr s else Inl (ValueError (side @ '' configuration must be an exact 10-character ID''))
      | _ \<Rightarrow> Inl (ValueError (side @ '' configuration must be an exact 10-character ID'')))"

definition check_comparison_objectives :: "pyval \<Rightarrow> string list res" where
  "check_comparison_objectives v =
     (if is_str v then Inl (ValueError ''comparison objectives must be a list'')
      else relabel ''comparison objectives must be unique known values'' (check_objectives v))"

definition check_family :: "string list \<Rightarrow> pyval \<Rightarrow> nat option res" where
  "check_family objectives v =
     (case v of
        PNone \<Rightarrow> Inr None
      | PInt n \<Rightarrow> if int (length objectives) \<le> n \<and> n \<le> int (length OBJECTIVES) then Inr (Some (nat n))
                  else Inl (ValueError ''multiplicity family size is out of range'')
      | _ \<Rightarrow> Inl (ValueError ''multiplicity family size is out of range''))"

definition add_identity :: "(string, identity) dict \<Rightarrow> observation \<Rightarrow> (string, identity) dict res" where
  "add_identity ids row =
     (if dict_get ids (ob_configuration row) (ob_identity row) \<noteq> ob_identity row
      then Inl (ValueError ''paired comparison configuration identity collision'')
      else Inr (if dict_has ids (ob_configuration row) then ids else ids @ [(ob_configuration row, ob_identity row)]))"

text \<open>\<open>by_bundle\<close>: for each bundle the rows of the two configurations.\<close>

definition add_pair ::
  "string \<Rightarrow> string \<Rightarrow> (string, (string, observation) dict) dict \<Rightarrow> observation \<Rightarrow> (string, (string, observation) dict) dict res" where
  "add_pair left right bs row =
     (if ob_configuration row \<noteq> left \<and> ob_configuration row \<noteq> right then Inr bs
      else let sides = dict_get bs (ob_bundle row) [] in
           if dict_get sides (ob_configuration row) row \<noteq> row then Inl (ValueError ''duplicate paired bundle observation'')
           else Inr (AList.update (ob_bundle row) (AList.update (ob_configuration row) row sides) bs))"

definition shared_pairs :: "string \<Rightarrow> string \<Rightarrow> (string, (string, observation) dict) dict \<Rightarrow> (observation \<times> observation) list" where
  "shared_pairs left right bs =
     List.map_filter (\<lambda>(_, sides). case (map_of sides left, map_of sides right) of (Some l, Some r) \<Rightarrow> Some (l, r) | _ \<Rightarrow> None) bs"

definition status_of :: "nat \<Rightarrow> nat \<Rightarrow> verdict set \<Rightarrow> comparison_status" where
  "status_of tested limited directions =
     (let decisive = directions \<inter> {LEFT_BETTER, RIGHT_BETTER} in
      if tested = 0 then INSUFFICIENT_EVIDENCE
      else if decisive = {LEFT_BETTER} then LEFT_DIRECTIONAL_EVIDENCE
      else if decisive = {RIGHT_BETTER} then RIGHT_DIRECTIONAL_EVIDENCE
      else if decisive \<noteq> {} then MIXED_DIRECTIONAL_EVIDENCE
      else if directions \<inter> {LEFT_SMALL_EFFECT, RIGHT_SMALL_EFFECT} \<noteq> {} then STATISTICAL_ONLY_EVIDENCE
      else if limited = tested then RESOLUTION_LIMITED else NOT_DECISIVE)"

definition compare_shared ::
  "(string \<Rightarrow> nat \<Rightarrow> nat) \<Rightarrow> string \<Rightarrow> string list \<Rightarrow> (string \<times> rat) list \<Rightarrow> nat option \<Rightarrow> (observation \<times> observation) list
    \<Rightarrow> (comparison_status \<times> nat \<times> nat \<times> nat \<times> nat \<times> objective_row list) res" where
  "compare_shared hash seed objectives floors explicit shared =
     (let pairs = map (\<lambda>ob. (ob, value_pairs ob shared)) objectives;
          rows = map (\<lambda>(ob, ps). (pending_row floors ob ps, effects_of ob ps)) pairs;
          tested = length (filter (\<lambda>(r, _). or_class r = PENDING) rows);
          family = (case explicit of None \<Rightarrow> tested | Some n \<Rightarrow> n);
          samples = (if tested = 0 then 0 else bootstrap_sample_count family)
      in res_bind (res_map (test_row hash seed family samples) rows) (\<lambda>rs.
         res_bind (holm_adjust rs family) (\<lambda>rs.
         let rs = map classify rs;
             limited = length (filter (\<lambda>r. case or_resolution r of Some x \<Rightarrow> rs_limited x | None \<Rightarrow> False) rs)
         in Inr (status_of tested limited (set (map or_class rs)), tested, family, samples, limited, rs))))"

text \<open>The result before any pair is looked at.\<close>

definition no_comparison :: "string option \<Rightarrow> string list \<Rightarrow> nat option \<Rightarrow> comparison" where
  "no_comparison pack available explicit =
     (let family = (case explicit of None \<Rightarrow> 0 | Some n \<Rightarrow> n) in
      \<lparr>cm_pack = pack, cm_available = available, cm_explicit = (explicit \<noteq> None), cm_family = family, cm_samples = 0, cm_confidence = None,
       cm_required = minimum_nonzero_pairs_for_holm family, cm_limited = 0, cm_status = NO_OBSERVATIONS, cm_left = None, cm_right = None,
       cm_shared = 0, cm_tested = 0, cm_rows = []\<rparr>)"

definition compare_rows ::
  "(string \<Rightarrow> nat \<Rightarrow> nat) \<Rightarrow> comparison \<Rightarrow> string \<Rightarrow> string \<Rightarrow> string \<Rightarrow> string list \<Rightarrow> (string \<times> rat) list \<Rightarrow> nat option
    \<Rightarrow> observation list \<Rightarrow> comparison res" where
  "compare_rows hash blank seed left right objectives floors explicit rows =
     res_bind (res_fold add_identity [] rows) (\<lambda>ids.
       if \<not> dict_has ids left \<or> \<not> dict_has ids right then Inr (blank\<lparr>cm_status := NO_MATCH\<rparr>)
       else res_bind (res_fold (add_pair left right) [] rows) (\<lambda>bs.
            let shared = shared_pairs left right bs in
            res_bind (compare_shared hash seed objectives floors explicit shared) (\<lambda>(status, tested, family, samples, limited, rs).
              Inr (blank\<lparr>cm_left := map_of ids left, cm_right := map_of ids right, cm_shared := length shared, cm_status := status,
                cm_tested := tested, cm_family := family, cm_samples := samples, cm_limited := limited, cm_rows := rs,
                cm_confidence := (if tested = 0 then None else Some (py_round 8 (1 - FAMILYWISE_ALPHA / of_nat family))),
                cm_required := minimum_nonzero_pairs_for_holm family\<rparr>))))"

text \<open>\<open>str(round_number)\<close>: the validated number may be the float 2.0.\<close>

definition round_text :: "pyval \<Rightarrow> string" where
  "round_text v = (case v of PInt n \<Rightarrow> show_int n | PFloat q \<Rightarrow> show_int \<lfloor>q\<rfloor> @ ''.0'' | _ \<Rightarrow> [])"

definition compare_selected ::
  "(string \<Rightarrow> nat \<Rightarrow> nat) \<Rightarrow> observation list \<Rightarrow> int \<Rightarrow> string \<Rightarrow> string \<Rightarrow> string \<Rightarrow> string option \<Rightarrow> string list \<Rightarrow> nat option
    \<Rightarrow> (string \<times> rat) list \<Rightarrow> comparison res" where
  "compare_selected hash observations n ntext left right pk obs explicit mins =
     (let rows = filter (\<lambda>r. ob_round r = n) observations;
          available = sort (remdups (map ob_pack rows));
          selected = (case pk of Some p \<Rightarrow> Some p | None \<Rightarrow> (case available of [p] \<Rightarrow> Some p | _ \<Rightarrow> None));
          blank = no_comparison selected available explicit
      in if pk = None \<and> 1 < length available then Inr (blank\<lparr>cm_status := PACK_REQUIRED\<rparr>)
         else case selected of
                None \<Rightarrow> Inr blank
              | Some p \<Rightarrow>
                  if p \<notin> set available then Inr blank
                  else compare_rows hash blank
                         (''paired:'' @ p @ '':'' @ ntext @ '':'' @ str_join '':'' (sort [left, right]) @ '':'')
                         left right obs mins explicit (filter (\<lambda>r. ob_pack r = p) rows))"

definition compare_paired_observations ::
  "(string \<Rightarrow> nat \<Rightarrow> nat) \<Rightarrow> observation list \<Rightarrow> pyval \<Rightarrow> pyval \<Rightarrow> pyval \<Rightarrow> pyval \<Rightarrow> pyval \<Rightarrow> pyval \<Rightarrow> pyval \<Rightarrow> comparison res" where
  "compare_paired_observations hash observations round_number left_conf right_conf pack objectives floors family =
     res_bind (relabel ''comparison round must be one of 1, 2, 3, or 4'' (check_round round_number)) (\<lambda>n.
     res_bind (check_side ''left'' left_conf) (\<lambda>left.
     res_bind (check_side ''right'' right_conf) (\<lambda>right.
       if left = right then Inl (ValueError ''paired comparison requires two distinct configurations'')
       else
     res_bind (relabel ''comparison pack must be an exact sha256 fingerprint'' (check_pack pack)) (\<lambda>pk.
     res_bind (check_comparison_objectives objectives) (\<lambda>obs.
     res_bind (check_family obs family) (\<lambda>explicit.
     res_bind (minimum_effects obs floors) (\<lambda>mins.
       compare_selected hash observations n (round_text round_number) left right pk obs explicit mins)))))))"

definition compare_submissions ::
  "(string \<Rightarrow> string) \<Rightarrow> (pyval \<Rightarrow> string) \<Rightarrow> (string \<Rightarrow> nat \<Rightarrow> nat) \<Rightarrow> jobj list \<Rightarrow> pyval \<Rightarrow> pyval \<Rightarrow> pyval \<Rightarrow> pyval \<Rightarrow> pyval
    \<Rightarrow> pyval \<Rightarrow> pyval \<Rightarrow> comparison res" where
  "compare_submissions sha dumps hash submissions round_number left_conf right_conf pack objectives floors family =
     res_bind (bundle_observations sha dumps submissions) (\<lambda>observations.
       compare_paired_observations hash observations round_number left_conf right_conf pack objectives floors family)"

section \<open>Holm adjustment\<close>

definition on_grid :: "rat \<Rightarrow> bool" where
  "on_grid q \<longleftrightarrow> (\<exists>k :: int. q * 100000000 = of_int k)"

lemma py_round_grid: "on_grid q \<Longrightarrow> py_round 8 q = q"
  by (auto simp: on_grid_def py_round_def)

lemma grid_min_max: "on_grid a \<Longrightarrow> on_grid b \<Longrightarrow> on_grid (min a b) \<and> on_grid (max a b)"
  by (simp add: min_def max_def)

lemma grid_one: "on_grid 1" and grid_zero: "on_grid 0"
  by (simp_all add: on_grid_def)

lemma grid_mult: "on_grid p \<Longrightarrow> on_grid (p * of_int k)"
proof -
  assume "on_grid p"
  then obtain j :: int where "p * 100000000 = of_int j" by (auto simp: on_grid_def)
  then have "p * of_int k * 100000000 = of_int (j * k)" by (simp add: mult.assoc mult.commute mult.left_commute)
  then show ?thesis unfolding on_grid_def by blast
qed

lemma st_p_grid: "sign_flip_test hash effects seed = Inr t \<Longrightarrow> on_grid (st_p t) \<and> 0 \<le> st_p t \<and> st_p t \<le> 1"
proof -
  have g: "on_grid (up_8 q)" for q unfolding on_grid_def up_8_def by (rule exI [of _ "\<lceil>q * 100000000\<rceil>"]) simp
  have "0 \<le> up_8 q" if "0 \<le> q" for q using that by (simp add: up_8_def)
  moreover assume "sign_flip_test hash effects seed = Inr t"
  ultimately show ?thesis using g grid_one grid_min_max
    by (auto simp: sign_flip_test_def Let_def res_bind_Inr_iff split: if_split_asm)
qed

text \<open>The specification: the adjusted value of rank \<open>i\<close> is the largest of the capped products up to \<open>i\<close>.\<close>

definition holm_term :: "nat \<Rightarrow> rat list \<Rightarrow> nat \<Rightarrow> rat" where
  "holm_term family ps i = min 1 (ps ! i * of_nat (family - i))"

definition holm_spec :: "nat \<Rightarrow> rat list \<Rightarrow> nat \<Rightarrow> rat" where
  "holm_spec family ps i = Max (holm_term family ps ` {..i})"

lemma Max_insert_max: "finite A \<Longrightarrow> Max (insert (max p a) A) = Max (insert p (insert a A))"
  by (cases "A = {}") (simp_all add: max.assoc)

lemma holm_loop_nth:
  "i < length rs \<Longrightarrow> holm_loop family rank previous rs ! i = (or_objective (rs ! i), py_round 8 (Max (insert previous
     ((\<lambda>j. min 1 (the (or_p_raw (rs ! j)) * (of_nat family - of_nat (rank + j) + 1))) ` {..i}))))"
proof (induction rs arbitrary: i rank previous)
  case (Cons r rs)
  define f where "f j = min 1 (the (or_p_raw ((r # rs) ! j)) * (of_nat family - of_nat (rank + j) + 1))" for j
  show ?case
  proof (cases i)
    case 0
    then show ?thesis by (simp add: Let_def)
  next
    case (Suc k)
    have g: "f (Suc j) = min 1 (the (or_p_raw (rs ! j)) * (of_nat family - of_nat (Suc rank + j) + 1))" for j by (simp add: f_def)
    have "(\<lambda>j. f (Suc j)) ` {..k} = f ` Suc ` {..k}" by (simp only: image_image)
    then have "insert previous (f ` {..Suc k}) = insert previous (insert (f 0) ((\<lambda>j. f (Suc j)) ` {..k}))"
      by (simp only: atMost_Suc_eq_insert_0 image_insert)
    moreover have "Max (insert (max previous (f 0)) ((\<lambda>j. f (Suc j)) ` {..k})) = Max (insert previous (insert (f 0) ((\<lambda>j. f (Suc j)) ` {..k})))"
      by (rule Max_insert_max) simp
    ultimately have m: "Max (insert (max previous (f 0)) ((\<lambda>j. f (Suc j)) ` {..k})) = Max (insert previous (f ` {..i}))" by (simp only: Suc)
    have "holm_loop family rank previous (r # rs) ! i = holm_loop family (Suc rank) (max previous (f 0)) rs ! k"
      by (simp add: Suc Let_def f_def)
    also have "\<dots> = (or_objective (rs ! k), py_round 8 (Max (insert (max previous (f 0)) ((\<lambda>j. f (Suc j)) ` {..k}))))"
      unfolding g using Cons.prems by (intro Cons.IH) (simp add: Suc)
    finally have "holm_loop family rank previous (r # rs) ! i = (or_objective ((r # rs) ! i), py_round 8 (Max (insert previous (f ` {..i}))))"
      unfolding m by (simp only: Suc nth_Cons_Suc)
    then show ?thesis unfolding f_def [abs_def] .
  qed
qed simp

lemma holm_loop_fst: "map fst (holm_loop family rank previous rs) = map or_objective rs"
  by (induction rs arbitrary: rank previous) (simp_all add: Let_def)

lemma holm_loop_length: "length (holm_loop family rank previous rs) = length rs"
  by (metis holm_loop_fst length_map)

definition raw_values :: "objective_row list \<Rightarrow> rat list" where
  "raw_values ts = map (\<lambda>r. the (or_p_raw r)) ts"

definition tested_rows :: "objective_row list \<Rightarrow> objective_row list" where
  "tested_rows rows = sort_key holm_key (filter (\<lambda>r. or_p_raw r \<noteq> None) rows)"

definition good_raw :: "objective_row \<Rightarrow> bool" where
  "good_raw r \<longleftrightarrow> (case or_p_raw r of None \<Rightarrow> True | Some p \<Rightarrow> on_grid p \<and> 0 \<le> p \<and> p \<le> 1)"

lemma holm_term_facts:
  assumes "0 \<le> ps ! i" and "ps ! i \<le> 1" and "i < family" and "on_grid (ps ! i)"
  shows "ps ! i \<le> holm_term family ps i" "holm_term family ps i \<le> 1" "0 \<le> holm_term family ps i" "on_grid (holm_term family ps i)"
proof -
  have "ps ! i * 1 \<le> ps ! i * of_nat (family - i)" using assms(1,3) by (intro mult_left_mono) simp_all
  then show "ps ! i \<le> holm_term family ps i" using assms(2) by (simp add: holm_term_def)
  show "holm_term family ps i \<le> 1" by (simp add: holm_term_def)
  show "0 \<le> holm_term family ps i" using assms(1) by (simp add: holm_term_def)
  show "on_grid (holm_term family ps i)"
    using grid_mult [OF assms(4), of "int (family - i)"] grid_one grid_min_max by (simp add: holm_term_def)
qed

lemma holm_spec_facts:
  assumes "\<forall>j \<le> i. 0 \<le> ps ! j \<and> ps ! j \<le> 1 \<and> on_grid (ps ! j)" and "i < family"
  shows "ps ! i \<le> holm_spec family ps i" "holm_spec family ps i \<le> 1" "on_grid (holm_spec family ps i)"
    "holm_spec family ps i < FAMILYWISE_ALPHA \<longleftrightarrow> (\<forall>j \<le> i. ps ! j * of_nat (family - j) < FAMILYWISE_ALPHA)"
    "j \<le> i \<Longrightarrow> holm_spec family ps j \<le> holm_spec family ps i"
proof -
  have t: "ps ! j \<le> holm_term family ps j" "holm_term family ps j \<le> 1" "on_grid (holm_term family ps j)" if "j \<le> i" for j
    using holm_term_facts [of ps j family] assms that by auto
  have m: "holm_spec family ps i \<in> holm_term family ps ` {..i}" unfolding holm_spec_def by (rule Max_in) auto
  have "holm_term family ps i \<le> holm_spec family ps i" unfolding holm_spec_def by (rule Max_ge) auto
  then show "ps ! i \<le> holm_spec family ps i" using t(1) [of i] by simp
  show "holm_spec family ps i \<le> 1" "on_grid (holm_spec family ps i)" using m t(2,3) by auto
  have "FAMILYWISE_ALPHA < 1" by (simp add: FAMILYWISE_ALPHA_def)
  then show "holm_spec family ps i < FAMILYWISE_ALPHA \<longleftrightarrow> (\<forall>j \<le> i. ps ! j * of_nat (family - j) < FAMILYWISE_ALPHA)"
    unfolding holm_spec_def by (subst Max_less_iff) (auto simp: holm_term_def min_less_iff_disj)
  show "j \<le> i \<Longrightarrow> holm_spec family ps j \<le> holm_spec family ps i" unfolding holm_spec_def by (rule Max_mono) auto
qed

lemma good_values:
  assumes "\<forall>r \<in> set ts. good_raw r \<and> or_p_raw r \<noteq> None" and "j < length ts"
  shows "0 \<le> raw_values ts ! j \<and> raw_values ts ! j \<le> 1 \<and> on_grid (raw_values ts ! j)"
proof -
  have "good_raw (ts ! j)" "or_p_raw (ts ! j) \<noteq> None" using assms by simp_all
  then show ?thesis using assms(2) by (auto simp: raw_values_def good_raw_def)
qed

lemma holm_loop_spec:
  assumes "i < length ts" and "length ts \<le> family" and "\<forall>r \<in> set ts. good_raw r \<and> or_p_raw r \<noteq> None"
  shows "holm_loop family 1 0 ts ! i = (or_objective (ts ! i), holm_spec family (raw_values ts) i)"
proof -
  have good: "0 \<le> raw_values ts ! j \<and> raw_values ts ! j \<le> 1 \<and> on_grid (raw_values ts ! j)" if "j \<le> i" for j
    using good_values [OF assms(3)] assms(1) that by simp
  have f: "min 1 (the (or_p_raw (ts ! j)) * (of_nat family - of_nat (1 + j) + 1)) = holm_term family (raw_values ts) j" if "j \<le> i" for j
    using assms(1,2) that by (simp add: holm_term_def raw_values_def of_nat_diff)
  have "Max (insert 0 (holm_term family (raw_values ts) ` {..i})) = holm_spec family (raw_values ts) i"
  proof -
    have "holm_spec family (raw_values ts) i \<in> holm_term family (raw_values ts) ` {..i}" unfolding holm_spec_def by (rule Max_in) auto
    then have "0 \<le> holm_spec family (raw_values ts) i" using good holm_term_facts(3) assms(1,2) by fastforce
    then show ?thesis unfolding holm_spec_def by (subst Max_insert) auto
  qed
  moreover have "(\<lambda>j. min 1 (the (or_p_raw (ts ! j)) * (of_nat family - of_nat (1 + j) + 1))) ` {..i} = holm_term family (raw_values ts) ` {..i}"
    by (rule image_cong) (use f in auto)
  ultimately show ?thesis
    using holm_loop_nth [OF assms(1), of family 1 0] holm_spec_facts(3) [of i "raw_values ts" family] good assms(1,2) by (simp add: py_round_grid)
qed

definition holm_values :: "nat \<Rightarrow> objective_row list \<Rightarrow> string \<Rightarrow> rat option" where
  "holm_values family rows = map_of (holm_loop family 1 0 (tested_rows rows))"

lemma tested_sub: "\<forall>r \<in> set rows. good_raw r \<Longrightarrow> r \<in> set (tested_rows rows) \<Longrightarrow> r \<in> set rows \<and> good_raw r \<and> or_p_raw r \<noteq> None"
  by (auto simp: tested_rows_def)

lemma holm_adjust_rows:
  assumes "holm_adjust rows family = Inr rows'"
  shows "length (tested_rows rows) \<le> family
    \<and> rows' = map (\<lambda>r. if or_p_raw r = None then r else r\<lparr>or_p_holm := holm_values family rows (or_objective r)\<rparr>) rows"
  using assms by (auto simp: holm_adjust_def Let_def tested_rows_def holm_values_def split: if_split_asm)

lemma holm_values_nth:
  assumes "length (tested_rows rows) \<le> family" and "distinct (map or_objective rows)" and "\<forall>r \<in> set rows. good_raw r" and i: "i < length (tested_rows rows)"
  shows "holm_values family rows (or_objective (tested_rows rows ! i)) = Some (holm_spec family (raw_values (tested_rows rows)) i)"
proof -
  define ts where "ts = tested_rows rows"
  have "distinct (map or_objective (filter (\<lambda>r. or_p_raw r \<noteq> None) rows))" using assms(2) by (rule distinct_map_filter)
  then have dist: "distinct (map or_objective ts)" unfolding ts_def tested_rows_def by (metis distinct_map distinct_sort set_sort)
  have "holm_loop family 1 0 ts ! i = (or_objective (ts ! i), holm_spec family (raw_values ts) i)"
    using holm_loop_spec [of i ts family] assms(1,4) tested_sub [OF assms(3)] unfolding ts_def by blast
  then have "(or_objective (ts ! i), holm_spec family (raw_values ts) i) \<in> set (holm_loop family 1 0 ts)"
    using i unfolding ts_def by (metis holm_loop_length nth_mem)
  then show ?thesis unfolding holm_values_def using dist by (simp add: holm_loop_fst ts_def)
qed

lemma holm_spec_tested:
  assumes "length (tested_rows rows) \<le> family" and "\<forall>r \<in> set rows. good_raw r" and "i < length (tested_rows rows)"
  shows "\<forall>j \<le> i. 0 \<le> raw_values (tested_rows rows) ! j \<and> raw_values (tested_rows rows) ! j \<le> 1 \<and> on_grid (raw_values (tested_rows rows) ! j)" "i < family"
  using good_values [of "tested_rows rows"] tested_sub [OF assms(2)] assms(1,3) by auto

lemma holm_values_ge:
  assumes "length (tested_rows rows) \<le> family" and "distinct (map or_objective rows)" and "\<forall>r \<in> set rows. good_raw r"
    and "r \<in> set rows" and "or_p_raw r = Some p"
  shows "\<exists>a. holm_values family rows (or_objective r) = Some a \<and> p \<le> a"
proof -
  have "r \<in> set (tested_rows rows)" using assms(4,5) by (simp add: tested_rows_def)
  then obtain i where i: "i < length (tested_rows rows)" "tested_rows rows ! i = r" by (auto simp: in_set_conv_nth)
  have "raw_values (tested_rows rows) ! i = p" using i assms(5) by (simp add: raw_values_def)
  then show ?thesis
    using holm_values_nth [OF assms(1-3) i(1)] holm_spec_facts(1) [OF holm_spec_tested [OF assms(1,3) i(1)]] by (simp add: i(2))
qed

text \<open>C30. The adjusted p-values are Holm's: the tested rows in the order of their raw p-values keep
  everything but the adjusted value, which is at least the raw one and at most 1, never decreases
  along the order, and lies below the familywise level exactly when every row up to this one passes
  the step-down test \<open>p * (family - rank + 1) < alpha\<close>; rows without a test are untouched.\<close>

theorem holm_step_down:
  assumes "holm_adjust rows family = Inr rows'" and "distinct (map or_objective rows)" and "\<forall>r \<in> set rows. good_raw r"
  shows "length rows' = length rows \<and> (\<forall>i < length rows. or_p_raw (rows ! i) = None \<longrightarrow> rows' ! i = rows ! i)
    \<and> (\<forall>i < length (tested_rows rows). \<exists>h. (tested_rows rows ! i)\<lparr>or_p_holm := Some h\<rparr> \<in> set rows'
        \<and> h = holm_spec family (raw_values (tested_rows rows)) i \<and> raw_values (tested_rows rows) ! i \<le> h \<and> h \<le> 1
        \<and> (\<forall>j \<le> i. holm_spec family (raw_values (tested_rows rows)) j \<le> h)
        \<and> (h < FAMILYWISE_ALPHA \<longleftrightarrow> (\<forall>j \<le> i. raw_values (tested_rows rows) ! j * of_nat (family - j) < FAMILYWISE_ALPHA)))"
proof -
  define ts where "ts = tested_rows rows"
  note fam = holm_adjust_rows [OF assms(1), THEN conjunct1] and rows' = holm_adjust_rows [OF assms(1), THEN conjunct2]
  have main: "\<exists>h. (ts ! i)\<lparr>or_p_holm := Some h\<rparr> \<in> set rows' \<and> h = holm_spec family (raw_values ts) i \<and> raw_values ts ! i \<le> h \<and> h \<le> 1
      \<and> (\<forall>j \<le> i. holm_spec family (raw_values ts) j \<le> h)
      \<and> (h < FAMILYWISE_ALPHA \<longleftrightarrow> (\<forall>j \<le> i. raw_values ts ! j * of_nat (family - j) < FAMILYWISE_ALPHA))" if i: "i < length ts" for i
  proof -
    note f = holm_spec_facts [OF holm_spec_tested [OF fam assms(3) i [unfolded ts_def]], folded ts_def]
    have "ts ! i \<in> set rows" "or_p_raw (ts ! i) \<noteq> None" using tested_sub [OF assms(3)] nth_mem [OF i] unfolding ts_def by blast+
    then have "(ts ! i)\<lparr>or_p_holm := holm_values family rows (or_objective (ts ! i))\<rparr> \<in> set rows'" unfolding rows' by force
    then show ?thesis using f holm_values_nth [OF fam assms(2,3) i [unfolded ts_def], folded ts_def] by auto
  qed
  show ?thesis using main by (simp add: rows' flip: ts_def)
qed

section \<open>The resolution audit\<close>

lemma flipped_Cons: "flipped (e # es) m = (if odd m then e else - e) # flipped es (m div 2)"
proof -
  have "enumerate (Suc 0) es = map (\<lambda>(i, x). (Suc i, x)) (enumerate 0 es)"
    by (rule nth_equalityI) (simp_all add: nth_enumerate_eq)
  then show ?thesis by (auto simp: flipped_def div_mult2_eq comp_def split_beta)
qed

lemma flipped_Nil: "flipped [] m = []"
  by (simp add: flipped_def)

definition flips :: "(rat list \<Rightarrow> bool) \<Rightarrow> rat list \<Rightarrow> nat set" where
  "flips P es = {m. m < 2 ^ length es \<and> P (flipped es m)}"

lemma flips_finite: "finite (flips P es)"
  by (simp add: flips_def)

lemma card_flips_Cons:
  "card (flips P (e # es)) = card (flips (\<lambda>xs. P (e # xs)) es) + card (flips (\<lambda>xs. P (- e # xs)) es)"
proof -
  have "flips P (e # es) = (\<lambda>m. 2 * m + 1) ` flips (\<lambda>xs. P (e # xs)) es \<union> (\<lambda>m. 2 * m) ` flips (\<lambda>xs. P (- e # xs)) es" (is "_ = ?A \<union> ?B")
  proof (intro equalityI subsetI)
    fix m assume m: "m \<in> flips P (e # es)"
    have "m < 2 ^ length es * 2" using m by (simp add: flips_def mult.commute)
    then have d: "m div 2 < 2 ^ length es" by (rule less_mult_imp_div_less)
    show "m \<in> ?A \<union> ?B"
    proof (cases "odd m")
      case True
      then have "m = 2 * (m div 2) + 1" by simp
      moreover have "m div 2 \<in> flips (\<lambda>xs. P (e # xs)) es" using m d True by (simp add: flips_def flipped_Cons)
      ultimately show ?thesis by (metis UnI1 imageI)
    next
      case False
      then have "m = 2 * (m div 2)" by simp
      moreover have "m div 2 \<in> flips (\<lambda>xs. P (- e # xs)) es" using m d False by (simp add: flips_def flipped_Cons)
      ultimately show ?thesis by (metis UnI2 imageI)
    qed
  qed (auto simp: flips_def flipped_Cons)
  moreover have "?A \<inter> ?B = {}" by (auto, presburger)
  ultimately show ?thesis
    using flips_finite by (simp add: card_Un_disjoint card_image inj_on_def)
qed

definition zeros :: "rat list \<Rightarrow> nat" where
  "zeros es = length (filter (\<lambda>e. e = 0) es)"

lemma card_flips_same: "2 ^ zeros es \<le> card (flips (\<lambda>xs. xs = es) es)"
  and card_flips_neg: "2 ^ zeros es \<le> card (flips (\<lambda>xs. xs = map uminus es) es)"
proof (induction es)
  case Nil
  {
    case 1
    have "flips (\<lambda>xs. xs = []) [] = {0}" by (auto simp: flips_def flipped_Nil)
    then show ?case by (simp add: zeros_def)
  next
    case 2
    have "flips (\<lambda>xs. xs = map uminus []) [] = {0}" by (auto simp: flips_def flipped_Nil)
    then show ?case by (simp add: zeros_def)
  }
next
  case (Cons e es)
  {
    case 1
    show ?case using Cons by (simp add: card_flips_Cons zeros_def)
  next
    case 2
    show ?case using Cons by (simp add: card_flips_Cons zeros_def)
  }
qed

lemma mean_uminus: "mean_rat (map uminus es) = - mean_rat es"
proof -
  have "sum_list (map uminus es) = - sum_list es" by (induction es) simp_all
  then show ?thesis by (simp add: mean_rat_def)
qed

lemma uminus_same: "es = map uminus es \<Longrightarrow> zeros es = length es" for es :: "rat list"
  by (induction es) (auto simp: zeros_def)

text \<open>With no effect between zero and the tolerance, at least twice as many assignments as the zeros
  allow are as extreme as the observed one.\<close>

lemma extreme_bound:
  assumes "zeros es + k = length es"
  shows "raw_floor k * 2 ^ length es \<le> of_nat (card (flips (as_extreme es) es))"
proof -
  have tol: "0 \<le> SIGN_FLIP_ABSOLUTE_TOLERANCE" by (simp add: SIGN_FLIP_ABSOLUTE_TOLERANCE_def)
  have ext: "as_extreme es es" "as_extreme es (map uminus es)" using tol by (simp_all add: as_extreme_def mean_uminus)
  have sub: "flips (\<lambda>xs. xs = es) es \<union> flips (\<lambda>xs. xs = map uminus es) es \<subseteq> flips (as_extreme es) es"
    using ext by (auto simp: flips_def)
  show ?thesis
  proof (cases "k = 0")
    case True
    have "2 ^ zeros es \<le> card (flips (as_extreme es) es)"
      using card_flips_same [of es] card_mono [OF flips_finite, of "flips (\<lambda>xs. xs = es) es"] sub by (meson Un_subset_iff le_trans)
    then have "(2 ^ length es :: rat) \<le> of_nat (card (flips (as_extreme es) es))"
      using True assms by (metis add.right_neutral of_nat_le_iff of_nat_numeral of_nat_power)
    then show ?thesis by (simp add: True raw_floor_def)
  next
    case False
    then have ne: "es \<noteq> map uminus es" using uminus_same [of es] assms by auto
    then have "flips (\<lambda>xs. xs = es) es \<inter> flips (\<lambda>xs. xs = map uminus es) es = {}" by (auto simp: flips_def)
    then have "2 * 2 ^ zeros es \<le> card (flips (\<lambda>xs. xs = es) es \<union> flips (\<lambda>xs. xs = map uminus es) es)"
      using card_flips_same [of es] card_flips_neg [of es] flips_finite by (simp add: card_Un_disjoint)
    also have "\<dots> \<le> card (flips (as_extreme es) es)" using sub by (rule card_mono [OF flips_finite])
    finally have "(2 * 2 ^ zeros es :: rat) \<le> of_nat (card (flips (as_extreme es) es))"
      by (metis of_nat_le_iff of_nat_mult of_nat_numeral of_nat_power)
    moreover have "raw_floor k * 2 ^ length es \<le> 2 / 2 ^ k * 2 ^ length es" by (intro mult_right_mono) (simp_all add: raw_floor_def)
    moreover have "2 / 2 ^ k * 2 ^ length es = (2 * 2 ^ zeros es :: rat)" by (simp add: power_add flip: assms)
    ultimately show ?thesis by simp
  qed
qed

lemma pairs_from_least:
  assumes "0 < family"
  shows "raw_floor (pairs_from family n) * of_nat family < FAMILYWISE_ALPHA
    \<and> (\<forall>k. n \<le> k \<and> k < pairs_from family n \<longrightarrow> FAMILYWISE_ALPHA \<le> raw_floor k * of_nat family)"
proof (induction family n rule: pairs_from.induct)
  case (1 family n)
  show ?case
  proof (cases "FAMILYWISE_ALPHA \<le> raw_floor n * of_nat family")
    case True
    have eq: "pairs_from family n = pairs_from family (Suc n)" using True by (simp add: pairs_from.simps [of family n])
    have "FAMILYWISE_ALPHA \<le> raw_floor k * of_nat family" if "n \<le> k" "k < pairs_from family n" for k
      using 1 [OF True] True that by (cases "k = n") (simp_all add: eq)
    then show ?thesis using 1 [OF True] by (simp add: eq)
  qed (simp add: pairs_from.simps [of family n])
qed

lemma up_8_ge: "q \<le> up_8 q"
proof -
  have "q * 100000000 \<le> of_int \<lceil>q * 100000000\<rceil>" by (rule le_of_int_ceiling)
  then show ?thesis by (simp add: up_8_def field_simps)
qed

lemma exact_p:
  assumes "sign_flip_test hash effects seed = Inr t" and "st_exact t"
  shows "of_nat (card (flips (as_extreme effects) effects)) / 2 ^ length effects \<le> st_p t \<or> st_p t = 1"
proof -
  define xs where "xs = filter (\<lambda>m. as_extreme effects (flipped effects m)) [0..<2 ^ length effects]"
  have p: "st_p t = min 1 (up_8 (of_nat (length xs) / of_nat (2 ^ length effects)))"
    using assms by (auto simp: sign_flip_test_def Let_def res_bind_Inr_iff xs_def split: if_split_asm)
  have "set xs = flips (as_extreme effects) effects" by (auto simp: xs_def flips_def)
  moreover have "distinct xs" by (simp add: xs_def)
  ultimately have "length xs = card (flips (as_extreme effects) effects)" by (metis distinct_card)
  then show ?thesis using up_8_ge [of "of_nat (length xs) / of_nat (2 ^ length effects)"] by (auto simp: p min_def)
qed

lemma raw_floor_le_one: "raw_floor k \<le> 1"
  by (simp add: raw_floor_def)

text \<open>C31. The resolution audit is exact about the limit it reports: the required number of pairs is
  the least whose best exact p-value can pass Holm's strictest rank, so when an objective is reported
  as limited and its effects are zero or above the disclosed tolerance, the exact test cannot be
  significant at that rank, whatever the signs; and the reported floor bounds the test's p-value.\<close>

theorem resolution_audit_sound:
  assumes "sign_flip_test hash effects seed = Inr t" and "st_exact t"
    and "\<forall>e \<in> set effects. e = 0 \<or> rs_tolerance (inference_resolution effects family) < \<bar>e\<bar>" and "0 < family"
  shows "rs_raw_floor (inference_resolution effects family) \<le> st_p t
    \<and> (rs_limited (inference_resolution effects family) \<longrightarrow> FAMILYWISE_ALPHA \<le> st_p t * of_nat family)
    \<and> raw_floor (rs_required (inference_resolution effects family)) * of_nat family < FAMILYWISE_ALPHA
    \<and> (\<forall>k < rs_required (inference_resolution effects family). FAMILYWISE_ALPHA \<le> raw_floor k * of_nat family)"
proof -
  define k where "k = nonzero_pairs effects"
  define tol where "tol = SIGN_FLIP_ABSOLUTE_TOLERANCE * of_nat (length effects) / 2"
  have tol: "0 \<le> tol" "rs_tolerance (inference_resolution effects family) = tol"
    by (simp_all add: tol_def SIGN_FLIP_ABSOLUTE_TOLERANCE_def inference_resolution_def Let_def)
  have "filter (\<lambda>e. \<not> tol < \<bar>e\<bar>) effects = filter (\<lambda>e. e = 0) effects"
    using assms(3) tol by (intro filter_cong) auto
  then have "zeros effects + k = length effects"
    using sum_length_filter_compl [of "\<lambda>e. tol < \<bar>e\<bar>" effects] by (simp add: k_def nonzero_pairs_def zeros_def tol_def)
  from extreme_bound [OF this] have "raw_floor k \<le> of_nat (card (flips (as_extreme effects) effects)) / 2 ^ length effects"
    by (simp add: field_simps)
  then have fl: "raw_floor k \<le> st_p t" using exact_p [OF assms(1,2)] raw_floor_le_one [of k] by auto
  have req: "rs_required (inference_resolution effects family) = pairs_from family 0" and lim: "rs_limited (inference_resolution effects family) \<longleftrightarrow> k < pairs_from family 0"
    and rf: "rs_raw_floor (inference_resolution effects family) = raw_floor k"
    using assms(4) by (auto simp: inference_resolution_def Let_def minimum_nonzero_pairs_for_holm_def k_def)
  have "FAMILYWISE_ALPHA \<le> st_p t * of_nat family" if "k < pairs_from family 0"
  proof -
    have "FAMILYWISE_ALPHA \<le> raw_floor k * of_nat family" using pairs_from_least [OF assms(4), of 0] that by blast
    also have "\<dots> \<le> st_p t * of_nat family" using fl by (rule mult_right_mono) simp
    finally show ?thesis .
  qed
  then show ?thesis using fl pairs_from_least [OF assms(4), of 0] by (simp add: req lim rf)
qed

section \<open>What a decisive comparison rests on\<close>

definition supported :: "objective_row \<Rightarrow> bool" where
  "supported r \<longleftrightarrow> MIN_BASELINE_SUBMISSIONS \<le> or_pairs r
     \<and> (case (or_p_raw r, or_p_holm r) of (Some p, Some h) \<Rightarrow> p \<le> h \<and> h < FAMILYWISE_ALPHA | _ \<Rightarrow> False)"

definition clears_left :: "objective_row \<Rightarrow> bool" where
  "clears_left r \<longleftrightarrow> (case (or_interval r, or_simultaneous r) of
     (Some iv, Some sv) \<Rightarrow> if or_floor r = 0 then 0 < pi_low iv else or_floor r < pi_low sv | _ \<Rightarrow> False)"

definition clears_right :: "objective_row \<Rightarrow> bool" where
  "clears_right r \<longleftrightarrow> (case (or_interval r, or_simultaneous r) of
     (Some iv, Some sv) \<Rightarrow> if or_floor r = 0 then pi_high iv < 0 else pi_high sv < - or_floor r | _ \<Rightarrow> False)"

text \<open>A row after its test: untested, or tested on enough pairs with a p-value on the grid.\<close>

definition row_tested :: "objective_row \<Rightarrow> bool" where
  "row_tested r \<longleftrightarrow>
     (or_class r = INSUFFICIENT \<and> or_p_raw r = None)
     \<or> (or_class r = PENDING \<and> MIN_BASELINE_SUBMISSIONS \<le> or_pairs r \<and> or_p_raw r \<noteq> None \<and> good_raw r)"

lemma test_row_tested:
  assumes "test_row hash seed family samples (pending_row floors ob ps, es) = Inr r"
  shows "row_tested r \<and> or_objective r = ob"
proof (cases "or_class (pending_row floors ob ps) = INSUFFICIENT")
  case True
  then show ?thesis using assms by (auto simp: test_row_def row_tested_def) (simp_all add: pending_row_def)
next
  case False
  then have cl: "or_class (pending_row floors ob ps) = PENDING" "MIN_BASELINE_SUBMISSIONS \<le> length ps"
    by (simp_all add: pending_row_def split: if_split_asm)
  obtain iv sv t where t: "sign_flip_test hash es (seed @ or_objective (pending_row floors ob ps)) = Inr t"
    and r: "r = (pending_row floors ob ps)\<lparr>or_interval := Some iv, or_simultaneous := Some sv, or_resolution := Some (inference_resolution es family),
                      or_test := Some t, or_p_raw := Some (st_p t)\<rparr>"
    using assms False by (auto simp: test_row_def res_bind_Inr_iff)
  have "good_raw r" using st_p_grid [OF t] by (simp add: r good_raw_def)
  moreover have "or_pairs r = length ps" "or_objective r = ob" by (simp_all add: r pending_row_def)
  ultimately show ?thesis using cl by (simp add: row_tested_def r)
qed

lemma classify_supported:
  assumes "row_tested r" and "or_p_holm r' = h" and "r' = r\<lparr>or_p_holm := h\<rparr>" and "\<And>p. or_p_raw r = Some p \<Longrightarrow> \<exists>a. h = Some a \<and> p \<le> a"
  shows "(or_class (classify r') = LEFT_BETTER \<longrightarrow> supported (classify r') \<and> clears_left (classify r'))
    \<and> (or_class (classify r') = RIGHT_BETTER \<longrightarrow> supported (classify r') \<and> clears_right (classify r'))"
  using assms
  by (auto simp: row_tested_def classify_def supported_def clears_left_def clears_right_def Let_def split: option.splits if_splits)

lemma res_map_tested:
  assumes "res_map (test_row hash seed family samples) (map (\<lambda>(ob, ps). (pending_row floors ob ps, effects_of ob ps)) prs) = Inr rs"
  shows "(\<forall>r \<in> set rs. row_tested r) \<and> map or_objective rs = map fst prs"
  using assms
proof (induction prs arbitrary: rs)
  case (Cons pr prs)
  obtain ob ps where pr: "pr = (ob, ps)" by (cases pr)
  obtain r rs' where r: "test_row hash seed family samples (pending_row floors ob ps, effects_of ob ps) = Inr r" "rs = r # rs'"
    "res_map (test_row hash seed family samples) (map (\<lambda>(ob, ps). (pending_row floors ob ps, effects_of ob ps)) prs) = Inr rs'"
    using Cons.prems by (auto simp: pr split: sum.splits)
  show ?case using test_row_tested [OF r(1)] Cons.IH [OF r(3)] by (simp add: r(2) pr)
qed simp

lemma classify_objective: "or_objective (classify r) = or_objective r"
  by (simp add: classify_def Let_def split: option.splits)

lemma compare_shared_facts:
  assumes "compare_shared hash seed objectives floors explicit shared = Inr (status, tested, family, samples, limited, rs)"
    and "distinct objectives"
  shows "map or_objective rs = objectives \<and> status = status_of tested limited (set (map or_class rs))
    \<and> (\<forall>r \<in> set rs. (or_class r = LEFT_BETTER \<longrightarrow> supported r \<and> clears_left r) \<and> (or_class r = RIGHT_BETTER \<longrightarrow> supported r \<and> clears_right r))"
proof -
  define prs where "prs = map (\<lambda>ob. (ob, value_pairs ob shared)) objectives"
  obtain ts hs where ts: "res_map (test_row hash seed family samples) (map (\<lambda>(ob, ps). (pending_row floors ob ps, effects_of ob ps)) prs) = Inr ts"
      "holm_adjust ts family = Inr hs" "rs = map classify hs" "status = status_of tested limited (set (map or_class rs))"
    using assms(1) unfolding compare_shared_def Let_def prs_def [symmetric] res_bind_Inr_iff sum.inject prod.inject by blast
  note t = res_map_tested [OF ts(1)] and h = holm_adjust_rows [OF ts(2)]
  have ob: "map or_objective ts = objectives" using t by (simp add: prs_def comp_def)
  have good: "\<forall>r \<in> set ts. good_raw r" using t by (auto simp: row_tested_def good_raw_def)
  have hs: "hs = map (\<lambda>r. if or_p_raw r = None then r else r\<lparr>or_p_holm := holm_values family ts (or_objective r)\<rparr>) ts" using h by simp
  have "(or_class (classify x) = LEFT_BETTER \<longrightarrow> supported (classify x) \<and> clears_left (classify x))
      \<and> (or_class (classify x) = RIGHT_BETTER \<longrightarrow> supported (classify x) \<and> clears_right (classify x))" if x: "x \<in> set hs" for x
  proof -
    obtain r where r: "r \<in> set ts" "x = (if or_p_raw r = None then r else r\<lparr>or_p_holm := holm_values family ts (or_objective r)\<rparr>)"
      using x by (auto simp: hs)
    have rt: "row_tested r" using t r(1) by blast
    show ?thesis
    proof (cases "or_p_raw r")
      case None
      then have "or_class (classify x) = INSUFFICIENT" using rt r(2) by (simp add: row_tested_def classify_def Let_def split: option.splits)
      then show ?thesis by simp
    next
      case (Some p)
      have "\<exists>a. holm_values family ts (or_objective r) = Some a \<and> q \<le> a" if "or_p_raw r = Some q" for q
        using holm_values_ge [OF _ _ good r(1) that] h ob assms(2) by simp
      from classify_supported [OF rt _ _ this] show ?thesis using r(2) Some by simp
    qed
  qed
  moreover have "map or_objective rs = objectives" by (auto simp: ts(3) hs classify_objective comp_def simp flip: ob)
  ultimately show ?thesis using ts(3,4) by simp
qed

lemma text_of_str: "text_of (PStr w) = Inr w"
  by (simp add: text_of_def)

lemma texts_distinct:
  "list_all (\<lambda>x. x \<in> set (map PStr ws)) vs \<Longrightarrow> py_distinct vs \<Longrightarrow> res_map text_of vs = Inr ts \<Longrightarrow> distinct ts \<and> vs = map PStr ts"
proof (induction vs arbitrary: ts)
  case (Cons v vs)
  obtain w where v: "v = PStr w" using Cons.prems(1) by auto
  obtain us where us: "res_map text_of vs = Inr us" "ts = w # us"
    using Cons.prems(3) by (auto simp: v text_of_str split: sum.splits)
  have ih: "distinct us \<and> vs = map PStr us" using Cons.IH [OF _ _ us(1)] Cons.prems(1,2) by simp
  then show ?case using Cons.prems(2) by (auto simp: us(2) v list_ex_iff)
qed simp

lemma objectives_distinct:
  assumes "check_comparison_objectives v = Inr obs"
  shows "distinct obs"
proof -
  have c: "check_objectives v = Inr obs"
    using assms by (auto simp: check_comparison_objectives_def relabel_def split: if_split_asm sum.splits exn.splits)
  define m where "m = (if truthy v then py_iter v else Inr [PStr ''accuracy''])"
  have e: "check_objectives v = (if is_str v then Inl (ValueError ''recommendation objectives must be a list'')
      else res_bind m (\<lambda>vs.
            if \<not> list_all hashable vs then Inl (TypeError ''unhashable type'')
            else if py_distinct vs \<and> list_all (\<lambda>x. x \<in> set (map PStr OBJECTIVES)) vs then res_map text_of vs
            else Inl (ValueError ''recommendation objectives must be unique known values'')))"
    by (cases v) (simp_all add: m_def check_objectives_def Let_def)
  show ?thesis
  proof (cases m)
    case (Inr vs)
    then have "res_map text_of vs = Inr obs" "py_distinct vs" "list_all (\<lambda>x. x \<in> set (map PStr OBJECTIVES)) vs"
      using c unfolding e by (simp_all split: if_split_asm del: set_map)
    then show ?thesis using texts_distinct by blast
  qed (use c e in \<open>simp split: if_split_asm\<close>)
qed

lemma compare_cases:
  assumes "compare_paired_observations hash observations n l r pack objectives floors fam = Inr c"
  obtains (early) "cm_rows c = []" "cm_status c \<in> {NO_OBSERVATIONS, PACK_REQUIRED}"
    | (late) obs blank seed left right mins explicit rows where "check_comparison_objectives objectives = Inr obs"
      "compare_rows hash blank seed left right obs mins explicit rows = Inr c" "cm_rows blank = []"
proof -
  obtain k left right pk obs explicit mins where o: "check_comparison_objectives objectives = Inr obs"
    and r: "compare_selected hash observations k (round_text n) left right pk obs explicit mins = Inr c"
    using assms by (auto simp: compare_paired_observations_def res_bind_Inr_iff split: if_split_asm)
  have b: "cm_rows (no_comparison s a e) = []" "cm_status (no_comparison s a e) = NO_OBSERVATIONS" for s a e
    by (simp_all add: no_comparison_def Let_def)
  define available where "available = sort (remdups (map ob_pack (filter (\<lambda>r. ob_round r = k) observations)))"
  define selected where "selected = (case pk of Some p \<Rightarrow> Some p | None \<Rightarrow> (case available of [p] \<Rightarrow> Some p | _ \<Rightarrow> None))"
  show ?thesis
    using r b o early late unfolding compare_selected_def Let_def available_def [symmetric] selected_def [symmetric]
    by (cases selected) (auto split: if_split_asm)
qed

text \<open>C29. A decisive comparison rests on evidence: when the verdict is directional, some objective favours
  that side and none the other; every objective that is called better for a side has at least five
  paired bundles, a Holm-adjusted p-value that is below the familywise level and not below the raw
  one, and an interval that clears its floor on that side, the simultaneous interval when the floor
  is not zero. The rows are the asked objectives, each once, in the asked order.\<close>

theorem comparison_evidence:
  assumes "compare_paired_observations hash observations n l r pack objectives floors fam = Inr c"
  shows "(cm_status c = LEFT_DIRECTIONAL_EVIDENCE \<longrightarrow> LEFT_BETTER \<in> set (map or_class (cm_rows c)) \<and> RIGHT_BETTER \<notin> set (map or_class (cm_rows c)))
    \<and> (cm_status c = RIGHT_DIRECTIONAL_EVIDENCE \<longrightarrow> RIGHT_BETTER \<in> set (map or_class (cm_rows c)) \<and> LEFT_BETTER \<notin> set (map or_class (cm_rows c)))
    \<and> (\<forall>x \<in> set (cm_rows c). (or_class x = LEFT_BETTER \<longrightarrow> supported x \<and> clears_left x) \<and> (or_class x = RIGHT_BETTER \<longrightarrow> supported x \<and> clears_right x))
    \<and> (cm_rows c \<noteq> [] \<longrightarrow> check_comparison_objectives objectives = Inr (map or_objective (cm_rows c)) \<and> distinct (map or_objective (cm_rows c)))"
proof -
  show ?thesis using assms
  proof (cases rule: compare_cases)
    case (late obs blank seed left right mins explicit rows)
    have d: "distinct obs" by (rule objectives_distinct [OF late(1)])
    consider "cm_rows c = []" "cm_status c = NO_MATCH"
      | status tested family samples limited rs shared where "compare_shared hash seed obs mins explicit shared = Inr (status, tested, family, samples, limited, rs)"
          "cm_rows c = rs" "cm_status c = status"
      using late(2,3) by (auto simp: compare_rows_def res_bind_Inr_iff Let_def split: if_split_asm prod.splits)
    then show ?thesis
    proof cases
      case 2
      note f = compare_shared_facts [OF 2(1) d]
      have "status = LEFT_DIRECTIONAL_EVIDENCE \<longrightarrow> LEFT_BETTER \<in> set (map or_class rs) \<and> RIGHT_BETTER \<notin> set (map or_class rs)"
        "status = RIGHT_DIRECTIONAL_EVIDENCE \<longrightarrow> RIGHT_BETTER \<in> set (map or_class rs) \<and> LEFT_BETTER \<notin> set (map or_class rs)"
        using f by (auto simp: status_of_def Let_def split: if_split_asm)
      then show ?thesis using f late(1) d by (simp add: 2(2,3))
    qed simp
  qed auto
qed

section \<open>Concrete comparisons\<close>

definition demo_objective :: "string \<Rightarrow> rat \<Rightarrow> objective_row" where
  "demo_objective ob p = (pending_row [(ob, 0)] ob (replicate 5 (1, 0)))\<lparr>or_p_raw := Some p\<rparr>"

definition demo_tests :: "objective_row list" where
  "demo_tests = [demo_objective ''latency'' (3 / 100), demo_objective ''accuracy'' (2 / 100)]"

lemma demo_tests_facts:
  "or_p_raw (demo_objective ob p) = Some p" "or_objective (demo_objective ob p) = ob"
  by (simp_all add: demo_objective_def pending_row_def)

theorem holm_step_down_witness:
  "\<exists>rows'. holm_adjust demo_tests 2 = Inr rows' \<and> (\<exists>h. (demo_objective ''latency'' (3 / 100))\<lparr>or_p_holm := Some h\<rparr> \<in> set rows' \<and> h < FAMILYWISE_ALPHA)"
proof -
  have ts: "tested_rows demo_tests = [demo_objective ''accuracy'' (2 / 100), demo_objective ''latency'' (3 / 100)]"
  proof -
    have "filter (\<lambda>r. or_p_raw r \<noteq> None) demo_tests = demo_tests"
      by (rule filter_True) (simp add: demo_tests_def demo_tests_facts del: not_None_eq)
    then show ?thesis by (simp add: tested_rows_def demo_tests_def demo_tests_facts holm_key_def less_eq_prod_def)
  qed
  have "length (filter (\<lambda>r. or_p_raw r \<noteq> None) demo_tests) \<le> 2"
    using length_filter_le [of "\<lambda>r. or_p_raw r \<noteq> None" demo_tests] by (rule order_trans) (simp add: demo_tests_def)
  then obtain rows' where r: "holm_adjust demo_tests 2 = Inr rows'" by (simp add: holm_adjust_def Let_def not_less [symmetric])
  have g: "on_grid (2 / 100)" "on_grid (3 / 100)"
    unfolding on_grid_def by (rule exI [of _ 2000000], simp, rule exI [of _ 3000000], simp)
  have "\<forall>r \<in> set demo_tests. good_raw r" using g by (simp add: demo_tests_def good_raw_def demo_tests_facts)
  moreover have "distinct (map or_objective demo_tests)" by (simp add: demo_tests_def demo_tests_facts)
  moreover have "1 < length (tested_rows demo_tests)" by (simp add: ts)
  ultimately have "\<exists>h. (tested_rows demo_tests ! 1)\<lparr>or_p_holm := Some h\<rparr> \<in> set rows'
      \<and> (h < FAMILYWISE_ALPHA \<longleftrightarrow> (\<forall>j \<le> 1. raw_values (tested_rows demo_tests) ! j * of_nat (2 - j) < FAMILYWISE_ALPHA))"
    using holm_step_down [OF r] by blast
  moreover have "\<forall>j \<le> 1. raw_values (tested_rows demo_tests) ! j * of_nat (2 - j) < FAMILYWISE_ALPHA"
    by (auto simp: ts raw_values_def demo_tests_facts FAMILYWISE_ALPHA_def le_Suc_eq One_nat_def)
  ultimately show ?thesis using r by (auto simp: ts)
qed

lemma sample_many_const:
  assumes "\<And>g. \<exists>g'. draw g = Inr (x, g')"
  shows "\<exists>g'. sample_many k draw g = Inr (replicate k x, g')"
proof (induction k arbitrary: g)
  case (Suc k)
  obtain g1 where "draw g = Inr (x, g1)" using assms by blast
  moreover obtain g2 where "sample_many k draw g1 = Inr (replicate k x, g2)" using Suc by blast
  ultimately show ?case by simp
qed simp

lemma quantile_const: "0 < k \<Longrightarrow> quantile (replicate k x) p = x"
proof -
  assume k: "0 < k"
  have "sort (replicate k x) = replicate k x" by (rule sort_key_id_if_sorted) simp
  moreover have "nat (max 0 (min (int k - 1) i)) < k" for i using k by linarith
  ultimately show ?thesis by (simp add: quantile_def)
qed

lemma mean_const: "0 < n \<Longrightarrow> mean_rat (replicate n x) = x"
  by (simp add: mean_rat_def sum_list_replicate)

lemma paired_intervals_const:
  assumes "0 < n" and "0 < k"
  shows "paired_intervals (\<lambda>_ _. 0) (replicate n x) seed family k
    = Inr (\<lparr>pi_low = py_round 6 x, pi_high = py_round 6 x\<rparr>, \<lparr>pi_low = py_round 6 x, pi_high = py_round 6 x\<rparr>)"
proof -
  have c: "\<And>g. \<exists>g'. choice (\<lambda>_ _. 0) (replicate n x) g = Inr (x, g')" using assms(1) by (simp add: choice_def)
  have "\<exists>g'. sample_mean (\<lambda>_ _. 0) (replicate n x) g = Inr (x, g')" for g
  proof -
    obtain g' where "sample_many n (choice (\<lambda>_ _. 0) (replicate n x)) g = Inr (replicate n x, g')" using sample_many_const [where draw = "choice (\<lambda>_ _. 0) (replicate n x)" and x = x, OF c] by blast
    then show ?thesis using mean_const [OF assms(1), of x] by (simp add: sample_mean_def)
  qed
  then obtain g' where "sample_many k (sample_mean (\<lambda>_ _. 0) (replicate n x)) (new_sampler seed) = Inr (replicate k x, g')"
    using sample_many_const [of "sample_mean (\<lambda>_ _. 0) (replicate n x)" x] by blast
  then show ?thesis using quantile_const [OF assms(2)] by (simp add: paired_intervals_def Let_def)
qed

theorem resolution_audit_sound_witness:
  "\<exists>t. sign_flip_test (\<lambda>_ _. 0) [1, 1, 0] [] = Inr t \<and> FAMILYWISE_ALPHA \<le> st_p t \<and> raw_floor 2 \<le> st_p t"
proof -
  obtain t where t: "sign_flip_test (\<lambda>_ _. 0) [1, 1, 0] [] = Inr t" "st_exact t"
    by (simp add: sign_flip_test_def SIGN_FLIP_EXACT_LIMIT_def Let_def)
  have n: "nonzero_pairs [1, 1, 0] = 2" by (simp add: nonzero_pairs_def SIGN_FLIP_ABSOLUTE_TOLERANCE_def)
  have "pairs_from 1 0 = 6" by (simp add: pairs_from.simps raw_floor_def FAMILYWISE_ALPHA_def)
  then have "rs_limited (inference_resolution [1, 1, 0] 1)" "rs_raw_floor (inference_resolution [1, 1, 0] 1) = raw_floor 2"
    by (simp_all add: inference_resolution_def Let_def n minimum_nonzero_pairs_for_holm_def)
  moreover have "\<forall>e \<in> set [1, 1, 0]. e = 0 \<or> rs_tolerance (inference_resolution [1, 1, 0] 1) < \<bar>e\<bar>"
    by (simp add: inference_resolution_def Let_def SIGN_FLIP_ABSOLUTE_TOLERANCE_def)
  ultimately show ?thesis using resolution_audit_sound [OF t, of 1] t by auto
qed

definition demo_left :: string where "demo_left = ''0123456789''"
definition demo_right :: string where "demo_right = ''abcdef0123''"

definition demo_observation :: "string \<Rightarrow> string \<Rightarrow> rat \<Rightarrow> observation" where
  "demo_observation bundle conf q =
     \<lparr>ob_bundle = bundle, ob_round = 1, ob_pack = ''p'', ob_configuration = conf, ob_identity = demo_identity, ob_accuracy = Some q,
      ob_completion = None, ob_latency = None, ob_throughput = None\<rparr>"

definition demo_observations :: "observation list" where
  "demo_observations = concat (map (\<lambda>b. [demo_observation b demo_left 1, demo_observation b demo_right 0]) [''a'', ''b'', ''c'', ''d'', ''e'', ''f''])"

lemma demo_flips: "length (filter (\<lambda>m. as_extreme (replicate 6 1) (flipped (replicate 6 1) m)) [0..<64]) = 2"
  by code_simp

lemma demo_sign_test: "\<exists>t. sign_flip_test hash (replicate 6 1) seed = Inr t \<and> st_p t = 1 / 32"
proof -
  have "up_8 (2 / 64) = 1 / 32" by (simp add: up_8_def)
  then show ?thesis using demo_flips by (simp add: sign_flip_test_def Let_def SIGN_FLIP_EXACT_LIMIT_def)
qed

lemma demo_compare_shared:
  assumes "value_pairs ''accuracy'' shared = replicate 6 (1, 0)"
  shows "\<exists>limited rs. compare_shared (\<lambda>_ _. 0) seed [''accuracy''] [(''accuracy'', 0)] None shared = Inr (LEFT_DIRECTIONAL_EVIDENCE, 1, 1, 4000, limited, rs)"
proof -
  define r where "r = pending_row [(''accuracy'', 0)] ''accuracy'' (replicate 6 (1, 0))"
  have r: "or_class r = PENDING" "or_objective r = ''accuracy''" "or_floor r = 0"
    by (simp_all add: r_def pending_row_def MIN_BASELINE_SUBMISSIONS_def)
  have e: "effects_of ''accuracy'' (replicate 6 (1, 0)) = replicate 6 1" by (simp add: effects_of_def)
  obtain t where t: "sign_flip_test (\<lambda>_ _. 0) (replicate 6 1) (seed @ ''accuracy'') = Inr t" "st_p t = 1 / 32" using demo_sign_test by blast
  define r1 where "r1 = r\<lparr>or_interval := Some \<lparr>pi_low = 1, pi_high = 1\<rparr>, or_simultaneous := Some \<lparr>pi_low = 1, pi_high = 1\<rparr>,
    or_resolution := Some (inference_resolution (replicate 6 1) 1), or_test := Some t, or_p_raw := Some (st_p t)\<rparr>"
  have one: "py_round 6 1 = 1" using py_round_of_int [of 6 1] by simp
  have "test_row (\<lambda>_ _. 0) seed 1 4000 (r, replicate 6 1) = Inr r1"
    using paired_intervals_const [of 6 4000 1 "seed @ ''accuracy''" 1] by (simp add: test_row_def r t one r1_def)
  moreover have "holm_adjust [r1] 1 = Inr [r1\<lparr>or_p_holm := Some (1 / 32)\<rparr>]"
  proof -
    have p: "or_p_raw r1 = Some (1 / 32)" "or_objective r1 = ''accuracy''" by (simp_all add: r1_def t(2) r)
    have "on_grid (1 / 32)" unfolding on_grid_def by (rule exI [of _ 3125000]) simp
    then have "py_round 8 (1 / 32) = 1 / 32" by (rule py_round_grid)
    then show ?thesis by (simp add: holm_adjust_def Let_def p del: not_None_eq)
  qed
  moreover have "or_class (classify (r1\<lparr>or_p_holm := Some (1 / 32)\<rparr>)) = LEFT_BETTER"
    by (simp add: classify_def Let_def r1_def r FAMILYWISE_ALPHA_def)
  moreover have "bootstrap_sample_count 1 = 4000"
    by (simp add: bootstrap_sample_count_def BOOTSTRAP_SAMPLES_def MIN_EXPECTED_BOOTSTRAP_TAIL_DRAWS_def FAMILYWISE_ALPHA_def)
  moreover have "status_of 1 limited {LEFT_BETTER} = LEFT_DIRECTIONAL_EVIDENCE" for limited by (simp add: status_of_def Let_def)
  ultimately show ?thesis
    by (simp add: compare_shared_def Let_def assms e r flip: r_def)
qed

lemma demo_arm_checks:
  "relabel ''comparison round must be one of 1, 2, 3, or 4'' (check_round (PInt 1)) = Inr 1" "check_side ''left'' (PStr demo_left) = Inr demo_left"
  "check_side ''right'' (PStr demo_right) = Inr demo_right" "relabel ''comparison pack must be an exact sha256 fingerprint'' (check_pack PNone) = Inr None"
  "check_comparison_objectives PNone = Inr [''accuracy'']" "check_family [''accuracy''] PNone = Inr None"
  "minimum_effects [''accuracy''] PNone = Inr [(''accuracy'', 0)]" "demo_left \<noteq> demo_right"
  "filter (\<lambda>r. ob_round r = 1) demo_observations = demo_observations" "filter (\<lambda>r. ob_pack r = ''p'') demo_observations = demo_observations"
  "sort (remdups (map ob_pack demo_observations)) = [''p'']"
  "res_fold add_identity [] demo_observations = Inr [(demo_left, demo_identity), (demo_right, demo_identity)]"
  "res_bind (res_fold (add_pair demo_left demo_right) [] demo_observations) (\<lambda>bs. Inr (value_pairs ''accuracy'' (shared_pairs demo_left demo_right bs)))
     = Inr (replicate 6 (1, 0))"
  by code_simp+

theorem comparison_evidence_witness:
  "\<exists>c. compare_paired_observations (\<lambda>_ _. 0) demo_observations (PInt 1) (PStr demo_left) (PStr demo_right) PNone PNone PNone PNone = Inr c
     \<and> cm_status c = LEFT_DIRECTIONAL_EVIDENCE \<and> (\<exists>x \<in> set (cm_rows c). or_class x = LEFT_BETTER \<and> supported x \<and> clears_left x)"
proof -
  obtain bs where bs: "res_fold (add_pair demo_left demo_right) [] demo_observations = Inr bs"
      "value_pairs ''accuracy'' (shared_pairs demo_left demo_right bs) = replicate 6 (1, 0)"
    using demo_arm_checks(13) by (auto simp: res_bind_Inr_iff)
  obtain c where c: "compare_paired_observations (\<lambda>_ _. 0) demo_observations (PInt 1) (PStr demo_left) (PStr demo_right) PNone PNone PNone PNone = Inr c"
      "cm_status c = LEFT_DIRECTIONAL_EVIDENCE"
  proof -
    obtain seed where s: "seed = ''paired:'' @ ''p'' @ '':'' @ round_text (PInt 1) @ '':'' @ str_join '':'' (sort [demo_left, demo_right]) @ '':''" by blast
    obtain limited rs where r: "compare_shared (\<lambda>_ _. 0) seed [''accuracy''] [(''accuracy'', 0)] None (shared_pairs demo_left demo_right bs)
        = Inr (LEFT_DIRECTIONAL_EVIDENCE, 1, 1, 4000, limited, rs)" using demo_compare_shared [OF bs(2)] by blast
    have "\<exists>c. compare_rows (\<lambda>_ _. 0) blank seed demo_left demo_right [''accuracy''] [(''accuracy'', 0)] None demo_observations = Inr c
        \<and> cm_status c = LEFT_DIRECTIONAL_EVIDENCE" for blank
      by (simp add: compare_rows_def demo_arm_checks(12) dict_has_def bs(1) r)
    then show ?thesis using that
      unfolding compare_paired_observations_def demo_arm_checks(1-7) res_bind.simps compare_selected_def Let_def demo_arm_checks(9-11) s
      by (simp add: demo_arm_checks(8,10)) blast
  qed
  have "LEFT_BETTER \<in> or_class ` set (cm_rows c)" using comparison_evidence [OF c(1)] c(2) by simp
  then obtain x where "x \<in> set (cm_rows c)" "or_class x = LEFT_BETTER" by auto
  then show ?thesis using comparison_evidence [OF c(1)] c by blast
qed

end
