(* ===== verification/Public_Sort.thy ===== *)
theory Public_Sort
  imports Public
begin

text \<open>
  The order of keys does not matter to the validation of a public bundle: what it accepts, it
  accepts with the keys sorted at every level, which is how an exported bundle is read back.
\<close>

section \<open>Objects with sorted keys\<close>

definition sorted_obj :: "jobj \<Rightarrow> jobj" where
  "sorted_obj d = sort_key fst (json_sortd d)"

lemma json_sort_dict: "json_sort (PDict d) = PDict (sorted_obj d)"
  by (simp add: sorted_obj_def)

declare json_sort.simps(2) [simp del] json_sort_dict [simp]

lemma map_of_key_filter: "map_of d k = (case filter (\<lambda>p. fst p = k) d of [] \<Rightarrow> None | p # _ \<Rightarrow> Some (snd p))"
  by (induction d) auto

lemma map_of_sort_key: "map_of (sort_key fst d) = map_of d"
proof
  fix k
  show "map_of (sort_key fst d) k = map_of d k"
    by (simp add: map_of_key_filter [of _ k] sort_key_stable)
qed

lemma sorted_obj_lookup: "map_of (sorted_obj d) k = map_option json_sort (map_of d k)"
  unfolding sorted_obj_def map_of_sort_key json_sortd_map by (induction d) auto

lemma jget_sorted [simp]: "jget (sorted_obj d) k = json_sort (jget d k)"
  by (simp add: jget_def dict_get_def sorted_obj_lookup split: option.splits)

lemma set_sorted_obj: "set (sorted_obj d) = (\<lambda>(k, v). (k, json_sort v)) ` set d"
  by (simp add: sorted_obj_def json_sortd_map)

lemma key_set_sorted [simp]: "key_set (sorted_obj d) = key_set d"
  by (auto simp: key_set_def set_sorted_obj image_image case_prod_unfold)

lemma dict_has_sorted [simp]: "dict_has (sorted_obj d) k = dict_has d k"
  using key_set_sorted [of d] unfolding key_set_def dict_has_def by blast

section \<open>Single values\<close>

lemma sort_scalar: "scalar v \<Longrightarrow> json_sort v = v"
  by (cases v) (simp_all add: scalar_def)

lemma sorted_obj_empty [simp]: "sorted_obj d = [] \<longleftrightarrow> d = []"
  using set_sorted_obj [of d] by (metis image_is_empty set_empty)

lemma sort_kinds [simp]:
  "json_sort v = PStr s \<longleftrightarrow> v = PStr s" "json_sort v = PNone \<longleftrightarrow> v = PNone" "json_sort v = PBool b \<longleftrightarrow> v = PBool b"
  "json_sort v = PInt i \<longleftrightarrow> v = PInt i" "is_bool (json_sort v) = is_bool v" "is_str (json_sort v) = is_str v"
  "is_list (json_sort v) = is_list v" "is_dict (json_sort v) = is_dict v" "truthy (json_sort v) = truthy v"
  by (cases v; simp; fail)+

lemma sort_checks [simp]:
  "public_text n (json_sort v) = public_text n v" "fingerprint_ok (json_sort v) = fingerprint_ok v"
  "python_version_ok (json_sort v) = python_version_ok v" "attempt_ok (json_sort v) = attempt_ok v"
  "tokens_ok (json_sort v) = tokens_ok v" "hashable (json_sort v) = hashable v" "round_ok (json_sort v) = round_ok v"
  "int_of (json_sort v) = int_of v" "pure_num (json_sort v) = pure_num v"
  by (cases v; simp only: json_sort.simps(1,3-7) json_sort_dict public_text_def fingerprint_ok_def python_version_ok_def attempt_ok_def
        tokens_ok_def hashable_def round_ok_def int_of_def pure_num_def pyval.case is_list.simps is_dict.simps; fail)+

lemma sort_isfinite [simp]: "isfinite (json_sort v) = isfinite v"
  by (cases v) (simp_all only: json_sort.simps(1,3-7) json_sort_dict isfinite_def pyval.case)

lemma sort_in_names [simp]: "json_sort v \<in> PStr ` A \<longleftrightarrow> v \<in> PStr ` A"
  by (cases v) auto

lemma sort_need_in [simp]: "need_in (json_sort v) ws e = need_in v ws e"
  by (simp add: need_in_def in_str_set_def)

lemma sort_check_number [simp]: "check_number ok e (json_sort v) = check_number ok e v"
  by (simp add: check_number_def cong: option.case_cong)

lemma sort_as_obj [simp]: "as_obj e (json_sort v) = map_sum id sorted_obj (as_obj e v)"
  by (cases v) (simp_all add: as_obj_def)

lemma sort_as_list [simp]: "as_list e (json_sort v) = map_sum id (map json_sort) (as_list e v)"
  by (cases v) (simp_all add: as_list_def)

lemma sort_py_eq_int [simp]: "py_eq (json_sort v) (PInt i) = py_eq v (PInt i)"
  by (cases v) simp_all

lemma bind_map_sum [simp]: "res_bind (map_sum id g m) f = res_bind m (f \<circ> g)"
  by (cases m) simp_all

lemma res_all_entries: "res_all f d = Inr () \<Longrightarrow> (\<And>k v. f (k, v) = Inr () \<Longrightarrow> f (k, json_sort v) = Inr ()) \<Longrightarrow> res_all f (sorted_obj d) = Inr ()"
  by (auto simp: res_all_Inr_iff set_sorted_obj)

section \<open>The parts of a bundle\<close>

lemma sort_tool: "check_tool (json_sort v) = check_tool v"
  by (cases v) (simp_all add: check_tool_def Let_def as_obj_def)

lemma sort_benchmark: "check_benchmark v = Inr ns \<Longrightarrow> check_benchmark (json_sort v) = Inr ns"
proof -
  assume c: "check_benchmark v = Inr ns"
  obtain d packs where d: "v = PDict d" "key_set d = {''rounds'', ''packs''}" "jget d ''rounds'' = PList (map PInt ns)"
    "jget d ''packs'' = PDict packs" "key_set packs = set (round_names ns)" "set ns \<subseteq> {1, 2, 3, 4}" "ns \<noteq> []" "distinct ns"
    "list_all fingerprint_ok (dict_vals packs)"
    by (rule benchmark_rounds [OF c])
  have vals: "list_all fingerprint_ok (dict_vals (sorted_obj packs))"
    using d(9) by (auto simp: list_all_iff dict_vals_def set_sorted_obj)
  have ints: "map json_sort (map PInt ns) = map PInt ns" "list_all round_ok (map PInt ns)" "map int_of (map PInt ns) = ns"
    "distinct (map PInt ns)"
    using d(6,8) by (auto simp: list_all_iff round_ok_def int_of_def o_def distinct_map inj_on_def)
  have sorted: "map json_sort (map PInt ns) = map PInt ns" by simp
  show ?thesis
    unfolding check_benchmark_def Let_def d(1) json_sort_dict as_obj_def pyval.case res_bind.simps jget_sorted d(3,4) json_sort.simps(1)
      as_list_def sorted
    using d(2,5,7) vals ints by simp
qed

lemma sort_environment: "check_environment v = Inr d \<Longrightarrow> check_environment (json_sort v) = Inr (sorted_obj d)"
  by (cases v) (simp_all add: check_environment_def Let_def as_obj_def res_bind_Inr_iff split: if_split_asm)

lemma sort_scaffold: "check_scaffold e (json_sort v) = check_scaffold e v"
  by (cases v) (simp_all add: check_scaffold_def as_obj_def)

lemma sort_serving: "check_public_serving i env v = Inr () \<Longrightarrow> check_public_serving i (sorted_obj env) (json_sort v) = Inr ()"
  by (cases v; simp add: check_public_serving_def Let_def as_obj_def; elim conjE; intro conjI impI; simp)

lemma sort_item: "check_item i seen v = Inr s \<Longrightarrow> check_item i seen (json_sort v) = Inr s"
proof -
  assume c: "check_item i seen v = Inr s"
  then obtain d where v: "v = PDict d" by (cases v) (simp_all add: check_item_def)
  have h: "hashable (jget d ''item'')" "hashable (jget d ''attempt'')"
    using c by (auto simp: v check_item_def Let_def split: if_split_asm)
  have same: "json_sort (jget d ''item'') = jget d ''item''" "json_sort (jget d ''attempt'') = jget d ''attempt''"
    using h by (simp_all add: hashable_def sort_scalar scalar_def)
  have "check_item i seen (json_sort v) = check_item i seen v"
    unfolding v json_sort_dict check_item_def pyval.case jget_sorted same sort_checks sort_kinds sort_need_in sort_check_number key_set_sorted Let_def ..
  then show ?thesis using c by simp
qed

lemma sort_items: "check_items i v = Inr () \<Longrightarrow> check_items i (json_sort v) = Inr ()"
proof -
  assume c: "check_items i v = Inr ()"
  then obtain xs where v: "v = PList xs" by (cases v) (simp_all add: check_items_def as_list_def)
  have "res_fold (check_item i) seen xs = Inr s \<Longrightarrow> res_fold (check_item i) seen (map json_sort xs) = Inr s" for seen s
    by (induction xs arbitrary: seen) (auto split: sum.splits dest: sort_item)
  then show ?thesis
    using c by (cases "res_fold (check_item i) [] xs") (simp_all add: v check_items_def as_list_def)
qed

lemma sort_task_field: "check_task_field i (k, json_sort v) = check_task_field i (k, v)"
  by (simp add: check_task_field_def Let_def)

lemma sort_task: "check_task i v = Inr () \<Longrightarrow> check_task i (json_sort v) = Inr ()"
  by (auto simp: check_task_def res_bind_Inr_iff sort_task_field intro!: res_all_entries)

lemma sort_round_field: "check_round_field i n (k, v) = Inr () \<Longrightarrow> check_round_field i n (k, json_sort v) = Inr ()"
  by (auto simp: check_round_field_def sort_items res_bind_Inr_iff res_all_Inr_iff sort_task split: if_splits)

lemma sort_outcomes: "outcomes (sorted_obj r) st = outcomes r st"
proof (cases "jget r ''items''")
  case (PList vs)
  have "length (filter (\<lambda>d. jget d ''status'' = PStr s) (map (\<lambda>v. case v of PDict d \<Rightarrow> d | _ \<Rightarrow> []) (map json_sort vs)))
    = length (filter (\<lambda>d. jget d ''status'' = PStr s) (map (\<lambda>v. case v of PDict d \<Rightarrow> d | _ \<Rightarrow> []) vs))" for s
  proof (induction vs)
    case (Cons v vs)
    then show ?case by (cases v) simp_all
  qed simp
  then show ?thesis by (simp add: outcomes_def round_items_def PList)
qed (simp_all add: outcomes_def round_items_def)

lemma sort_metrics: "expected_metrics n (sorted_obj r) = expected_metrics n r"
  by (simp add: expected_metrics_def sort_outcomes)

lemma sort_round: "check_public_round i schema (n, v) = Inr () \<Longrightarrow> check_public_round i schema (n, json_sort v) = Inr ()"
  by (auto simp: check_public_round_def Let_def res_bind_Inr_iff sort_metrics intro!: res_all_entries sort_round_field split: if_splits)

lemma sort_allowed:
  assumes "check_allowed v ws e = Inr ()" and "is_dict v"
  shows "check_allowed (json_sort v) ws e = Inr ()"
proof -
  obtain d where v: "v = PDict d" using assms(2) by (cases v) auto
  have "set (map (\<lambda>(k, _). PStr k) (sorted_obj d)) = set (map (\<lambda>(k, _). PStr k) d)"
    by (auto simp: set_sorted_obj image_image case_prod_unfold)
  moreover have "list_all hashable (map (\<lambda>(k, _). PStr k) e)" for e :: jobj
    by (auto simp: list_all_iff hashable_def)
  ultimately show ?thesis using assms(1)
    unfolding v check_allowed_def py_iter_def pyval.case res_bind.simps json_sort_dict by simp
qed

lemma sort_metadata_field: "check_metadata_field i (k, json_sort v) = check_metadata_field i (k, v)"
  by (simp add: check_metadata_field_def)

lemma sort_parameter: "check_parameter i (k, json_sort v) = check_parameter i (k, v)"
  by (simp add: check_parameter_def)

lemma as_obj_is_dict: "res_bind (as_obj e v) f = Inr x \<Longrightarrow> is_dict v"
  by (cases v) (simp_all add: as_obj_def)

lemma sort_rounds:
  assumes "res_bind (as_obj e v) (\<lambda>rs. res_seq [fail_if (\<not> key_set rs \<subseteq> A) e', res_all (check_public_round i schema) rs]) = Inr ()"
  shows "res_bind (as_obj e (json_sort v)) (\<lambda>rs. res_seq [fail_if (\<not> key_set rs \<subseteq> A) e', res_all (check_public_round i schema) rs]) = Inr ()"
  using assms by (cases v) (simp_all add: as_obj_def res_all_entries sort_round)

lemma sort_fields:
  assumes "res_bind (as_obj e v) (res_all f) = Inr ()" and "\<And>k v. f (k, json_sort v) = f (k, v)"
  shows "res_bind (as_obj e (json_sort v)) (res_all f) = Inr ()"
  using assms by (cases v) (simp_all add: as_obj_def res_all_entries)

lemma check_public_model_parts:
  "check_public_model schema ns env i (PDict m) = Inr () \<longleftrightarrow>
     key_set m = set (model_fields schema) \<and> public_text 160 (jget m ''public_name'') \<noteq> None
     \<and> need_in (jget m ''transport'') [''openai_compat'', ''codex_cli''] (bad_model i ''has an invalid transport'') = Inr ()
     \<and> (4 \<le> schema \<longrightarrow> check_scaffold (bad_model i ''execution scaffold is invalid'') (jget m ''execution_scaffold'') = Inr ())
     \<and> (3 \<le> schema \<longrightarrow> check_public_serving i env (jget m ''serving_environment'') = Inr ())
     \<and> res_bind (as_obj (bad_model i ''rounds must be an object'') (jget m ''rounds'')) (\<lambda>rs. res_seq
          [fail_if (\<not> key_set rs \<subseteq> set (round_names ns)) (bad_model i ''contains an unselected round''),
           res_all (check_public_round i schema) rs]) = Inr ()
     \<and> check_allowed (jget m ''public_metadata'') METADATA_FIELDS (bad_model i ''metadata is not allowlisted'') = Inr ()
     \<and> check_allowed (jget m ''parameters'') PARAMETER_FIELDS (bad_model i ''parameters are not allowlisted'') = Inr ()
     \<and> res_bind (as_obj (AttributeError ''items'') (jget m ''public_metadata'')) (res_all (check_metadata_field i)) = Inr ()
     \<and> res_bind (as_obj (AttributeError ''items'') (jget m ''parameters'')) (res_all (check_parameter i)) = Inr ()"
proof -
  have ifs: "(if b then x else Inr ()) = Inr () \<longleftrightarrow> b \<longrightarrow> x = Inr ()" for b and x :: "unit res" by simp
  show ?thesis
    unfolding check_public_model_def as_obj_def [of _ "PDict m"] pyval.case res_bind.simps(2) res_seq_Cons_Inr res_seq_Nil fail_if_Inr ifs
    by simp
qed

lemma sort_model: "check_public_model schema ns env i v = Inr () \<Longrightarrow> check_public_model schema ns (sorted_obj env) i (json_sort v) = Inr ()"
proof -
  assume c: "check_public_model schema ns env i v = Inr ()"
  obtain m where v: "v = PDict m" using c by (cases v) (simp_all add: check_public_model_def as_obj_def)
  note c = c [unfolded v check_public_model_parts]
  have dicts: "is_dict (jget m ''public_metadata'')" "is_dict (jget m ''parameters'')"
    using c by - ((elim conjE, erule as_obj_is_dict [of _ "jget m ''public_metadata''"]), (elim conjE, erule as_obj_is_dict [of _ "jget m ''parameters''"]))
  show ?thesis
    unfolding v json_sort_dict check_public_model_parts jget_sorted key_set_sorted sort_checks sort_need_in sort_scaffold
    using c dicts sort_serving sort_rounds sort_allowed sort_fields [where f = "check_metadata_field i", OF _ sort_metadata_field]
      sort_fields [where f = "check_parameter i", OF _ sort_parameter] by blast
qed

lemma sort_models: "check_public_models schema ns env v = Inr () \<Longrightarrow> check_public_models schema ns (sorted_obj env) (json_sort v) = Inr ()"
proof -
  assume c: "check_public_models schema ns env v = Inr ()"
  obtain ms where v: "v = PList ms" using c by (cases v) (simp_all add: check_public_models_def as_list_def Let_def)
  have "enumerate 0 (map json_sort ms) = map (\<lambda>(i, m). (i, json_sort m)) (enumerate 0 ms)"
    by (simp add: enumerate_eq_zip zip_map2)
  then show ?thesis
    using c by (auto simp: v check_public_models_def as_list_def Let_def res_all_Inr_iff intro!: sort_model split: if_split_asm)
qed

section \<open>The whole bundle\<close>

lemma walk_sort:
  "(p, k, w) \<in> set (walk path (json_sort v)) \<Longrightarrow> \<exists>u. w = json_sort u \<and> (p, k, u) \<in> set (walk path v)"
  "(p, k, w) \<in> set (walk_dict path (json_sortd d)) \<Longrightarrow> \<exists>u. w = json_sort u \<and> (p, k, u) \<in> set (walk_dict path d)"
  "(p, k, w) \<in> set (walk_list path i (map json_sort xs)) \<Longrightarrow> \<exists>u. w = json_sort u \<and> (p, k, u) \<in> set (walk_list path i xs)"
proof (induction path v and path d and path i xs rule: walk_walk_dict_walk_list.induct)
  case (1 path d)
  have "set (walk_dict path (sort_key fst e)) = set (walk_dict path e)" for e
  proof -
    have "set (walk_dict path xs) = (\<Union>(k, v) \<in> set xs. insert (path, k, v) (set (walk (path @ ''.'' @ k) v)))" for xs
      by (induction xs) auto
    then show ?thesis by simp
  qed
  then show ?case using 1 by (simp add: sorted_obj_def)
qed auto

lemma filter_sorted_obj: "filter (\<lambda>(k, _). k \<noteq> n) (sorted_obj d) = sorted_obj (filter (\<lambda>(k, _). k \<noteq> n) d)"
proof -
  have "filter (\<lambda>(k, _). k \<noteq> n) (json_sortd d) = json_sortd (filter (\<lambda>(k, _). k \<noteq> n) d)"
    by (induction d) auto
  then show ?thesis by (simp add: sorted_obj_def filter_sort)
qed

lemma ok_unit: "m = Inr (u :: unit) \<Longrightarrow> m = Inr ()"
  by simp

text \<open>\<open>dumps\<close> sorts the keys itself.\<close>

lemma validate_sorted:
  assumes "validate_public_result sha dumps (PDict d) = Inr w" and "jget d ''privacy'' = PRIVACY"
    and dumps: "\<And>v. dumps (json_sort v) = dumps v"
  shows "validate_public_result sha dumps (json_sort (PDict d)) = Inr (json_sort (PDict d))"
proof -
  let ?rest = "\<lambda>schema ns env. res_seq
       [check_public_models schema ns env (jget d ''models''),
        fail_if (\<not> py_eq (jget d ''privacy'') PRIVACY) (ValueError ''public result privacy declaration is invalid''),
        res_all check_entry (walk ''root'' (PDict d)),
        fail_if (2000000 < length (dumps (PDict d))) (ValueError ''public result is too large'')]"
  obtain schema ns env where c: "check_top d = Inr schema" "check_bundle_id sha dumps d = Inr ()" "check_tool (jget d ''tool'') = Inr ()"
    "check_benchmark (jget d ''benchmark'') = Inr ns" "check_environment (jget d ''environment'') = Inr env" "?rest schema ns env = Inr ()"
    using assms(1) unfolding validate_public_result_def as_obj_def pyval.case res_bind.simps(2) res_bind_Inr_iff [of "check_top _"]
      res_bind_Inr_iff [of "check_bundle_id _ _ _"] res_bind_Inr_iff [of "check_tool _"] res_bind_Inr_iff [of "check_benchmark _"]
      res_bind_Inr_iff [of "check_environment _"] res_bind_Inr_iff [of "res_seq _"]
    by (elim exE conjE) (rule that, (assumption | erule ok_unit)+)
  have rest: "check_public_models schema ns env (jget d ''models'') = Inr ()" "res_all check_entry (walk ''root'' (PDict d)) = Inr ()"
    "\<not> 2000000 < length (dumps (PDict d))"
    using c(6) unfolding res_seq_Cons_Inr fail_if_Inr by - (elim conjE, assumption)+
  have top: "check_top (sorted_obj d) = Inr schema"
  proof -
    have "schema_of (sorted_obj d) = schema_of d"
      unfolding schema_of_def jget_sorted by (cases "jget d ''schema_version''") simp_all
    then show ?thesis using c(1) unfolding check_top_def key_set_sorted by simp
  qed
  have "dumps (PDict (sorted_obj e)) = dumps (PDict e)" for e using dumps [of "PDict e"] by simp
  then have id: "check_bundle_id sha dumps (sorted_obj d) = Inr ()"
    using c(2) by (cases "jget d ''bundle_id''") (simp_all add: check_bundle_id_def filter_sorted_obj bundle_id_def)
  have entries: "res_all check_entry (walk ''root'' (json_sort (PDict d))) = Inr ()"
    unfolding res_all_Inr_iff
  proof
    fix e assume "e \<in> set (walk ''root'' (json_sort (PDict d)))"
    then obtain p k u where e: "e = (p, k, json_sort u)" "(p, k, u) \<in> set (walk ''root'' (PDict d))"
      using walk_sort(1) by (metis prod_cases3)
    have "check_entry (p, k, u) = Inr ()" using rest(2) e(2) by (simp add: res_all_Inr_iff)
    then show "check_entry e = Inr ()" unfolding e(1) check_entry_def by (cases u) simp_all
  qed
  have privacy: "py_eq (json_sort PRIVACY) PRIVACY" by code_simp
  show ?thesis
    unfolding validate_public_result_def as_obj_def json_sort_dict pyval.case res_bind.simps(2) top id jget_sorted sort_tool c(3)
      sort_benchmark [OF c(4)] sort_environment [OF c(5)] assms(2)
    using sort_models [OF rest(1)] entries privacy rest(3) dumps [of "PDict d"] by (simp add: fail_if_def)
qed

end
