(* ===== verification/Export.thy ===== *)
theory Export
  imports Intake Report Public_Sort
begin

text \<open>
  Building and exporting a public bundle (\<open>src/llm_hardtest/public_results.py\<close>): the cleaning of a
  model's configuration and report entry, the item outcomes read from the saved files, the payload
  and the archive.

  A function that appends to \<open>warnings\<close> returns what it appends. The platform, the bytes of the
  indented JSON text, its decoder and the size of a compressed member are arguments. Two results are
  the aim: an archive that was written loads again exactly when it is small enough
  (\<open>export_loads\<close>), and the outcomes it publishes are those of the saved files.
\<close>

section \<open>The environments\<close>

record platform_info =
  pl_system :: string
  pl_machine :: string
  pl_major :: nat
  pl_minor :: nat

definition version :: string where
  "version = ''2.52.0''"

definition public_environment :: "platform_info \<Rightarrow> jobj" where
  "public_environment p =
     [(''os'', PStr (if pl_system p \<in> {''Linux'', ''Darwin'', ''Windows''} then pl_system p else ''Other'')),
      (''architecture'', PStr (case public_text 32 (PStr (pl_machine p)) of Some t \<Rightarrow> t | None \<Rightarrow> ''unknown'')),
      (''python'', PStr (show_nat (pl_major p) @ ''.'' @ show_nat (pl_minor p)))]"

definition model_tag :: "nat \<Rightarrow> string \<Rightarrow> string" where
  "model_tag i msg = ''model-'' @ show_nat i @ '': '' @ msg"

definition serving_obj :: "pyval \<Rightarrow> pyval \<Rightarrow> pyval \<Rightarrow> pyval" where
  "serving_obj scope os arch = PDict [(''scope'', scope), (''os'', os), (''architecture'', arch)]"

definition signed_in_codex :: "jobj \<Rightarrow> bool" where
  "signed_in_codex model \<longleftrightarrow> jget model ''transport'' = PStr ''codex_cli'' \<and> jget model ''codex_provider'' = PStr ''openai''"

definition same_host_field :: "jobj \<Rightarrow> jobj \<Rightarrow> nat \<Rightarrow> string \<Rightarrow> unit res" where
  "same_host_field raw env i field =
     (if \<not> hashable (jget raw field) then Inl (TypeError ''unhashable type'')
      else fail_if (jget raw field \<noteq> PNone \<and> jget raw field \<noteq> jget env field)
             (ValueError (model_tag i (''same_host '' @ field @ '' contradicts runner''))))"

definition remote_serving :: "jobj \<Rightarrow> nat \<Rightarrow> pyval res" where
  "remote_serving raw i =
     (let os = jget raw ''os''; arch = jget raw ''architecture'' in
      if os \<noteq> PNone \<and> \<not> str_in os SERVING_SYSTEMS then Inl (ValueError (model_tag i ''remote serving os is invalid''))
      else if arch = PNone then Inr (serving_obj (PStr ''remote'') os PNone)
      else (case public_text 32 arch of
              None \<Rightarrow> Inl (ValueError (model_tag i ''remote serving architecture is unsafe''))
            | Some t \<Rightarrow> Inr (serving_obj (PStr ''remote'') os (PStr t))))"

definition declared_serving :: "jobj \<Rightarrow> jobj \<Rightarrow> nat \<Rightarrow> jobj \<Rightarrow> pyval res" where
  "declared_serving model env i raw =
     (if \<not> key_set raw \<subseteq> {''scope'', ''os'', ''architecture''}
      then Inl (ValueError (model_tag i ''public_serving_environment has unexpected fields''))
      else res_bind (need_in (jget raw ''scope'') SERVING_SCOPES (ValueError (model_tag i ''serving environment scope is invalid''))) (\<lambda>_.
        if jget raw ''scope'' = PStr ''same_host'' then
          if signed_in_codex model then Inl (ValueError (model_tag i ''signed-in OpenAI Codex cannot be same_host''))
          else res_bind (res_all (same_host_field raw env i) [''os'', ''architecture'']) (\<lambda>_.
                 Inr (serving_obj (PStr ''same_host'') (jget env ''os'') (jget env ''architecture'')))
        else if jget raw ''scope'' = PStr ''unreported'' then
          if jget raw ''os'' \<noteq> PNone \<or> jget raw ''architecture'' \<noteq> PNone
          then Inl (ValueError (model_tag i ''unreported serving environment cannot have coordinates''))
          else Inr (serving_obj (PStr ''unreported'') PNone PNone)
        else remote_serving raw i))"

definition clean_serving_environment :: "jobj \<Rightarrow> jobj \<Rightarrow> nat \<Rightarrow> (pyval \<times> string list) res" where
  "clean_serving_environment model env i =
     (case jget model ''public_serving_environment'' of
        PNone \<Rightarrow>
          if signed_in_codex model then Inr (serving_obj (PStr ''remote'') PNone PNone, [])
          else Inr (serving_obj (PStr ''unreported'') PNone PNone,
                    [model_tag i ''serving environment is unreported; set public_serving_environment to publish an attested relationship''])
      | PDict raw \<Rightarrow> map_sum id (\<lambda>v. (v, [])) (declared_serving model env i raw)
      | _ \<Rightarrow> Inl (ValueError (model_tag i ''public_serving_environment has unexpected fields'')))"

definition clean_execution_scaffold :: "jobj \<Rightarrow> jobj \<Rightarrow> pyval res" where
  "clean_execution_scaffold config model =
     res_bind (Inspect.as_obj (py_or (jget config ''round4_isolation'') (PDict []))) (\<lambda>isolation.
       Inr (PDict [(''agent_backend'', jget_or model ''agent_backend'' (PStr ''codex_cli'')),
                   (''isolation_mode'', jget_or isolation ''mode'' (PStr ''none'')),
                   (''network'', jget_or isolation ''network'' (PStr ''unrestricted'')),
                   (''fail_closed'', PBool (truthy (jget_or isolation ''fail_closed'' (PBool False))))]))"

section \<open>Metadata, parameters and rounds\<close>

definition clean_metadata_field :: "jobj \<Rightarrow> nat \<Rightarrow> string \<Rightarrow> jobj \<times> string list" where
  "clean_metadata_field raw i k =
     (let v = jget raw k in
      if v = PNone then ([], [])
      else if k \<in> set METADATA_NUMERIC_FIELDS
      then (case pure_num v of
              Some q \<Rightarrow> if q \<le> 0 then ([], [model_tag i (''dropped invalid '' @ k)]) else ([(k, v)], [])
            | None \<Rightarrow> ([], [model_tag i (''dropped invalid '' @ k)]))
      else (case public_text 160 v of
              None \<Rightarrow> ([], [model_tag i (''dropped unsafe '' @ k)])
            | Some t \<Rightarrow> ([(k, PStr t)], [])))"

definition clean_metadata :: "jobj \<Rightarrow> nat \<Rightarrow> jobj \<times> string list" where
  "clean_metadata model i =
     (case jget_or model ''public_metadata'' (PDict []) of
        PDict raw \<Rightarrow> (let cs = map (clean_metadata_field raw i) (sort METADATA_FIELDS) in (concat (map fst cs), concat (map snd cs)))
      | _ \<Rightarrow> ([], [model_tag i ''ignored non-object public_metadata'']))"

definition clean_parameter :: "jobj \<Rightarrow> string \<Rightarrow> jobj" where
  "clean_parameter model k =
     (let v = jget model k in
      if pure_num v \<noteq> None \<or> (k = ''reasoning_effort'' \<and> public_text 32 v \<noteq> None) then [(k, v)] else [])"

definition clean_parameters :: "jobj \<Rightarrow> jobj" where
  "clean_parameters model = concat (map (clean_parameter model) (sort PARAMETER_FIELDS))"

definition keep_fields :: "string list \<Rightarrow> jobj \<Rightarrow> jobj" where
  "keep_fields ks d = map (\<lambda>k. (k, jget d k)) (filter (dict_has d) (sort ks))"

definition clean_round :: "string \<Rightarrow> jobj \<Rightarrow> jobj" where
  "clean_round n d =
     keep_fields ROUND_FIELDS d
     @ (case (n = ''4'', jget d ''tasks'') of
          (True, PList ts) \<Rightarrow>
            [(''tasks'', PList (List.map_filter (\<lambda>t. case t of PDict t \<Rightarrow> Some (PDict (keep_fields TASK_FIELDS t)) | _ \<Rightarrow> None) ts))]
        | _ \<Rightarrow> [])"

definition clean_rounds :: "jobj \<Rightarrow> (string \<times> jobj) list" where
  "clean_rounds rs =
     List.map_filter (\<lambda>(n, v). case v of PDict d \<Rightarrow> if n \<in> {''1'', ''2'', ''3'', ''4''} then Some (n, clean_round n d) else None
                                       | _ \<Rightarrow> None) (sort_key fst rs)"

text \<open>The entry of a model as \<open>collect\<close> builds it, with its keys.\<close>

definition round_obj :: "round_entry \<Rightarrow> jobj" where
  "round_obj e =
     [(''attempts'', PInt (e_attempts e)), (''passed'', e_passed e), (''total'', PInt (e_total e)), (''mean_wall_seconds'', e_wall e),
      (''manual_review'', PInt (e_review e)), (''incomplete'', PInt (e_incomplete e)), (''infrastructure_errors'', PInt (e_infra e))]"

definition task_obj :: "task_row \<Rightarrow> jobj" where
  "task_obj t =
     [(''task'', t_task t), (''attempt'', t_attempt t), (''public_passed'', t_public_passed t), (''public_total'', t_public_total t),
      (''hidden_passed'', t_hidden_passed t), (''hidden_total'', t_hidden_total t), (''auto_score'', t_auto t),
      (''release_ready'', PBool (t_release t)), (''handoff_utility'', t_handoff t), (''false_green'', PBool (t_false_green t)),
      (''tampering'', PBool (t_tampering t)), (''timed_out'', PBool (t_timed_out t)), (''wall_seconds'', t_wall t), (''tokens'', t_tokens t)]"

definition four_obj :: "four_entry \<Rightarrow> jobj" where
  "four_obj f =
     [(''attempts'', PInt (f_attempts f)), (''planned_attempts'', PInt (f_planned f)), (''infrastructure_errors'', PInt (f_infra f)),
      (''release_ready'', PInt (f_release f)), (''handoff_utility'', PInt (f_handoff f)), (''handoff_applicable'', PInt (f_applicable f)),
      (''false_green'', PInt (f_false_green f)), (''tampering'', PInt (f_tampering f)), (''mean_auto_score'', f_auto f),
      (''auto_score_max'', PInt 65), (''mean_wall_seconds'', f_wall f), (''tasks'', PList (map (PDict \<circ> task_obj) (f_tasks f)))]"

definition entry_rounds :: "model_entry \<Rightarrow> jobj" where
  "entry_rounds m =
     map (\<lambda>(n, e). (show_int n, PDict (round_obj e))) (me_rounds m)
     @ (case me_four m of None \<Rightarrow> [] | Some f \<Rightarrow> [(''4'', PDict (four_obj f))])"

section \<open>Item outcomes\<close>

record item_outcome =
  o_item :: string
  o_attempt :: int
  o_status :: status
  o_wall :: pyval
  o_tokens :: pyval

definition outcome_obj :: "item_outcome \<Rightarrow> jobj" where
  "outcome_obj r =
     [(''item'', PStr (o_item r)), (''attempt'', PInt (o_attempt r)), (''status'', PStr (status_name (o_status r))),
      (''wall_seconds'', o_wall r), (''tokens'', o_tokens r)]"

text \<open>\<open>str(v).isdigit()\<close>; the superscript digits of Latin-1 count.\<close>

definition py_isdigit :: "string \<Rightarrow> bool" where
  "py_isdigit s \<longleftrightarrow> s \<noteq> [] \<and> list_all (\<lambda>c. ch_digit c \<or> ch_code c \<in> {178, 179, 185}) s"

definition check_attempt :: "pyval \<Rightarrow> unit res" where
  "check_attempt v =
     fail_if (case v of PInt a \<Rightarrow> \<not> py_isdigit (show_int a) | PStr s \<Rightarrow> \<not> py_isdigit s | _ \<Rightarrow> True)
       (ValueError ''public export found an invalid attempt number'')"

text \<open>A saved row, and whether its token count was left out.\<close>

definition row_outcome :: "(pyval \<Rightarrow> string) \<Rightarrow> bool \<Rightarrow> pyval \<Rightarrow> pyval \<Rightarrow> (item_outcome \<times> bool) res" where
  "row_outcome strf codex attempt v =
     (case v of
        PDict row \<Rightarrow>
          if jget row ''id'' = PNone then Inl (ValueError ''public export found an invalid item row'')
          else let raw = jstr strf (jget row ''id'') in
               (case public_text 80 (PStr (if starts_with ''q'' (str_lower raw) then raw else CHR ''q'' # raw)) of
                  None \<Rightarrow> Inl (ValueError ''public export found an unsafe item ID'')
                | Some item \<Rightarrow>
                    let tokens = jget row ''completion_tokens''; skip = (codex \<and> jget row ''token_measurement'' \<noteq> PStr ''completion'') in
                    res_bind (py_int attempt) (\<lambda>a.
                      Inr (\<lparr>o_item = item, o_attempt = a, o_status = item_status row, o_wall = jget row ''wall'',
                            o_tokens = (if skip then PNone else tokens)\<rparr>, skip \<and> tokens \<noteq> PNone)))
      | _ \<Rightarrow> Inl (ValueError ''public export found an invalid item row''))"

definition file_outcomes :: "(pyval \<Rightarrow> string) \<Rightarrow> bool \<Rightarrow> int \<times> jobj \<Rightarrow> (item_outcome \<times> bool) list res" where
  "file_outcomes strf codex ap =
     (case ap of (a, payload) \<Rightarrow>
        let attempt = jget_or payload ''attempt'' (PStr (show_int a)) in
        res_bind (check_attempt attempt) (\<lambda>_.
        res_bind (py_iter (jget_or payload ''results'' (PList []))) (res_map (row_outcome strf codex attempt))))"

text \<open>The attempt of a grade is any integer; one that is not a number or is a boolean is refused.\<close>

definition grade_outcome :: "bool \<Rightarrow> pyval \<Rightarrow> (item_outcome \<times> bool) res" where
  "grade_outcome codex v =
     res_bind (Inspect.as_obj v) (\<lambda>g.
     res_bind (Inspect.as_obj (py_or (jget g ''run_meta'') (PDict []))) (\<lambda>meta.
       case (public_text 80 (jget_or g ''task'' (jget g ''qid'')), jget meta ''attempt'') of
         (Some item, PInt attempt) \<Rightarrow>
           res_bind (Inspect.as_obj (py_or (jget g ''flags'') (PDict []))) (\<lambda>flags.
             Inr (\<lparr>o_item = item, o_attempt = attempt,
                   o_status = (if truthy (jget flags ''model_timed_out'') then INVALID
                               else if truthy (jget flags ''attempt_pass'') then PASS else FAIL),
                   o_wall = jget meta ''wall'', o_tokens = (if codex then PNone else jget meta ''tokens'')\<rparr>,
                  codex \<and> jget meta ''tokens'' \<noteq> PNone))
       | _ \<Rightarrow> Inl (ValueError ''public export found an invalid Round 4 grade identity'')))"

definition error_outcome :: "(string \<times> int) list \<Rightarrow> pyval \<Rightarrow> item_outcome list res" where
  "error_outcome graded v =
     res_bind (Inspect.as_obj v) (\<lambda>e.
       Inr (case (public_text 80 (jget e ''task''), jget e ''attempt'') of
              (Some item, PInt attempt) \<Rightarrow>
                if (item, attempt) \<in> set graded then []
                else [\<lparr>o_item = item, o_attempt = attempt, o_status = INVALID, o_wall = PNone, o_tokens = PNone\<rparr>]
            | _ \<Rightarrow> []))"

definition run_outcomes :: "bool \<Rightarrow> jobj \<Rightarrow> (item_outcome list \<times> nat) res" where
  "run_outcomes codex payload =
     res_bind (py_iter (jget_or payload ''grades'' (PList []))) (\<lambda>gs.
     res_bind (res_map (grade_outcome codex) gs) (\<lambda>gos.
     res_bind (py_iter (jget_or payload ''errors'' (PList []))) (\<lambda>es.
     res_bind (res_map (error_outcome (map (\<lambda>(r, _). (o_item r, o_attempt r)) gos)) es) (\<lambda>eos.
       Inr (sort_key (\<lambda>r. (o_attempt r, o_item r, status_name (o_status r))) (map fst gos @ concat eos),
            length (filter snd gos))))))"

definition public_item_observations ::
  "(pyval \<Rightarrow> string) \<Rightarrow> campaign \<Rightarrow> jobj \<Rightarrow> nat \<Rightarrow> ((string \<times> item_outcome list) list \<times> string list) res" where
  "public_item_observations strf st model i =
     res_bind (jitem model ''key'') (\<lambda>kv.
     res_bind (case kv of PStr k \<Rightarrow> Inr k | _ \<Rightarrow> Inl (TypeError ''unsupported operand type(s) for /'')) (\<lambda>key.
     let codex = (jget model ''transport'' = PStr ''codex_cli'') in
     res_bind (res_map (\<lambda>n. map_sum id concat (res_map (file_outcomes strf codex) (saved_results st key n))) [1, 2, 3]) (\<lambda>rows.
     res_bind (case map_of (c_runs st) key of None \<Rightarrow> Inr ([], 0) | Some p \<Rightarrow> run_outcomes codex p) (\<lambda>(four, skipped).
       let observed = zip [''1'', ''2'', ''3''] (map (map fst) rows) @ [(''4'', four)];
           excluded = (\<Sum>r\<leftarrow>rows. length (filter snd r)) + skipped
       in Inr (filter (\<lambda>(_, r). r \<noteq> []) observed,
               if excluded = 0 then []
               else [model_tag i (''excluded '' @ show_nat excluded @ '' Codex total-token measurements from completion-throughput evidence'')])))))"

section \<open>The payload\<close>

definition public_model_name :: "jobj \<Rightarrow> nat \<Rightarrow> string \<times> string list" where
  "public_model_name model i =
     (case public_text 160 (py_or (jget model ''public_name'') (jget model ''model'')) of
        Some t \<Rightarrow> (t, [])
      | None \<Rightarrow> (''model-'' @ show_nat i, [model_tag i ''model identifier was replaced; set public_name to publish it'']))"

definition reported_rounds :: "summary \<Rightarrow> pyval \<Rightarrow> jobj" where
  "reported_rounds su key =
     (case find (\<lambda>e. PStr (me_key e) = key) (rev (su_models su)) of Some e \<Rightarrow> entry_rounds e | None \<Rightarrow> [])"

definition with_items :: "(string \<times> item_outcome list) list \<Rightarrow> string \<times> jobj \<Rightarrow> string \<times> pyval" where
  "with_items observed nd =
     (case nd of (n, d) \<Rightarrow> (n, PDict (d @ [(''items'', PList (map (PDict \<circ> outcome_obj) (dict_get observed n [])))])))"

definition build_model ::
  "(pyval \<Rightarrow> string) \<Rightarrow> jobj \<Rightarrow> campaign \<Rightarrow> jobj \<Rightarrow> summary \<Rightarrow> nat \<times> pyval \<Rightarrow> (pyval \<times> string list) res" where
  "build_model strf config st env su iv =
     (case iv of (i, v) \<Rightarrow>
        res_bind (Inspect.as_obj v) (\<lambda>model.
        let named = public_model_name model i; rs = clean_rounds (reported_rounds su (jget model ''key'')) in
        res_bind (public_item_observations strf st model i) (\<lambda>(observed, w1).
        res_bind (clean_execution_scaffold config model) (\<lambda>scaffold.
        res_bind (clean_serving_environment model env i) (\<lambda>(serving, w2).
        let meta = clean_metadata model i in
        Inr (PDict [(''public_name'', PStr (fst named)), (''transport'', jget model ''transport''), (''execution_scaffold'', scaffold),
                    (''serving_environment'', serving), (''rounds'', PDict (map (with_items observed) rs)),
                    (''parameters'', PDict (clean_parameters model)), (''public_metadata'', PDict (fst meta))],
             snd named @ w1 @ w2 @ snd meta))))))"

definition selected_packs :: "jobj \<Rightarrow> int list \<Rightarrow> jobj" where
  "selected_packs packs ns = fold (\<lambda>n d. AList.update (show_int n) (jget packs (show_int n)) d) ns []"

definition recorded_packs :: "pyval option \<Rightarrow> int list res \<Rightarrow> (jobj \<times> int list) res" where
  "recorded_packs saved selected =
     (case saved of
        None \<Rightarrow> Inl (ValueError ''public export requires a completed run with summary.json'')
      | Some v \<Rightarrow>
          res_bind (Inspect.as_obj v) (\<lambda>old. res_bind selected (\<lambda>ns.
            case jget old ''packs'' of
              PDict packs \<Rightarrow>
                if list_all (\<lambda>n. dict_has packs (show_int n)) ns then Inr (packs, ns)
                else Inl (ValueError ''saved summary has no recorded pack fingerprints'')
            | _ \<Rightarrow> Inl (ValueError ''saved summary has no recorded pack fingerprints''))))"

definition bundle_body :: "int list \<Rightarrow> jobj \<Rightarrow> jobj \<Rightarrow> pyval list \<Rightarrow> jobj" where
  "bundle_body ns packs env models =
     [(''schema_version'', PInt 4),
      (''tool'', PDict [(''name'', PStr ''llm-hardtest-report''), (''version'', PStr version)]),
      (''benchmark'', PDict [(''rounds'', PList (map PInt ns)), (''packs'', PDict (selected_packs packs ns))]),
      (''environment'', PDict env), (''models'', PList models), (''privacy'', PRIVACY)]"

definition with_bundle_id :: "(string \<Rightarrow> string) \<Rightarrow> (pyval \<Rightarrow> string) \<Rightarrow> jobj \<Rightarrow> jobj" where
  "with_bundle_id sha dumps body =
     [(''schema_version'', PInt 4), (''bundle_id'', PStr (bundle_id sha dumps body))] @ filter (\<lambda>(k, _). k \<noteq> ''schema_version'') body"

definition build_public_result ::
  "(string \<Rightarrow> string) \<Rightarrow> (pyval \<Rightarrow> string) \<Rightarrow> (pyval \<Rightarrow> string) \<Rightarrow> platform_info
     \<Rightarrow> string \<Rightarrow> string \<Rightarrow> (int \<Rightarrow> string option) \<Rightarrow> jobj \<Rightarrow> pyval option \<Rightarrow> campaign \<Rightarrow> (pyval \<times> string list) res" where
  "build_public_result sha dumps strf p run_id now pack config saved st =
     res_bind (collect run_id now pack config st) (\<lambda>su. let env = public_environment p in
     res_bind (recorded_packs saved (res_bind (py_iter (jget_or config ''rounds'' (PList []))) (res_map py_int))) (\<lambda>(packs, ns).
     res_bind (need config ''models'') (\<lambda>ms.
     res_bind (res_map (build_model strf config st env su) (enumerate 1 ms)) (\<lambda>built.
     let payload = PDict (with_bundle_id sha dumps (bundle_body ns packs env (map fst built))) in
     res_bind (validate_public_result sha dumps payload) (\<lambda>_. Inr (payload, concat (map snd built)))))))"

section \<open>The archive\<close>

definition notice :: string where
  "notice = ''This bundle contains a voluntary public LLM Hardtest aggregate.'' @ [newline]
     @ ''Preview submission.json before publishing it. No raw run artifacts are included.'' @ [newline]"

text \<open>\<open>pretty\<close> is \<open>json.dumps(indent=2, sort_keys=True)\<close> in bytes, \<open>deflate\<close> the size of a compressed
  member, \<open>loads\<close> the decoder of a member.\<close>

definition bundle_archive :: "(pyval \<Rightarrow> string) \<Rightarrow> (string \<Rightarrow> nat) \<Rightarrow> (string \<Rightarrow> pyval res) \<Rightarrow> string \<Rightarrow> pyval \<Rightarrow> bundle_file" where
  "bundle_archive pretty deflate loads name payload =
     (let document = pretty payload @ [newline] in
      \<lparr>bf_name = name, bf_link = False, bf_regular = True, bf_json = Inl (ValueError ''Expecting value''),
       bf_members = Some [(''submission.json'', length document, deflate document), (''PRIVACY.txt'', length notice, deflate notice)],
       bf_submission = loads document\<rparr>)"

definition export_public_bundle ::
  "(pyval \<Rightarrow> string) \<Rightarrow> (string \<Rightarrow> nat) \<Rightarrow> (string \<Rightarrow> pyval res) \<Rightarrow> (string \<Rightarrow> bool) \<Rightarrow> string \<Rightarrow> (pyval \<times> string list) res
     \<Rightarrow> (bundle_file \<times> pyval \<times> string list) res" where
  "export_public_bundle pretty deflate loads exists_at name built =
     (if str_lower (suffix_of name) \<noteq> ''.zip'' then Inl (ValueError ''public export output must use a .zip extension'')
      else if exists_at name then Inl (ValueError (''refusing to overwrite existing public bundle: '' @ name))
      else res_bind built (\<lambda>(payload, ws). Inr (bundle_archive pretty deflate loads name payload, payload, ws)))"

section \<open>An archive that was written loads again\<close>

lemma validate_returns: "validate_public_result sha dumps v = Inr w \<Longrightarrow> w = v"
  unfolding validate_public_result_def by (auto simp: res_bind_Inr_iff)

lemma built:
  assumes "build_public_result sha dumps strf p run_id now pack config saved st = Inr (payload, ws)"
  obtains su packs ns ms bs where "collect run_id now pack config st = Inr su" "need config ''models'' = Inr ms"
    "res_map (build_model strf config st (public_environment p) su) (enumerate 1 ms) = Inr bs"
    "payload = PDict (with_bundle_id sha dumps (bundle_body ns packs (public_environment p) (map fst bs)))"
    "validate_public_result sha dumps payload = Inr payload" "ws = concat (map snd bs)"
proof -
  obtain su packs ns ms bs w where b: "collect run_id now pack config st = Inr su" "need config ''models'' = Inr ms"
    "res_map (build_model strf config st (public_environment p) su) (enumerate 1 ms) = Inr bs"
    "payload = PDict (with_bundle_id sha dumps (bundle_body ns packs (public_environment p) (map fst bs)))"
    "validate_public_result sha dumps payload = Inr w" "ws = concat (map snd bs)"
    using assms unfolding build_public_result_def Let_def by (auto simp: res_bind_Inr_iff)
  then show ?thesis using that validate_returns by metis
qed

lemma body_fields:
  "jget (with_bundle_id sha dumps (bundle_body ns packs env models)) ''privacy'' = PRIVACY"
  "jget (with_bundle_id sha dumps (bundle_body ns packs env models)) ''models'' = PList models"
  by (simp_all add: with_bundle_id_def bundle_body_def jget_def dict_get_def)

lemma notice_length: "length notice = 145"
  by code_simp

text \<open>C32. An exported bundle loads again: when the export returns an archive and its document decodes to
  the payload with sorted keys, loading the archive returns exactly that, unless the indented document
  or a compressed member is larger than the loader's limit of two million bytes; the export itself
  only limits the shorter canonical text, so then it has written an archive that is refused as too
  large. No other check of the loader or the validator can fail.\<close>

theorem export_loads:
  assumes "export_public_bundle pretty deflate loads exists_at name
      (build_public_result sha dumps strf p run_id now pack config saved st) = Inr (f, payload, ws)"
    and "loads (pretty payload @ [newline]) = Inr (json_sort payload)" and "\<forall>v. dumps (json_sort v) = dumps v"
  shows "load_public_bundle sha dumps f =
    (if length (pretty payload) < 2000000 \<and> deflate (pretty payload @ [newline]) \<le> 2000000 \<and> deflate notice \<le> 2000000
     then Inr (json_sort payload) else Inl (ValueError ''public bundle is too large''))"
proof -
  have zip: "str_lower (suffix_of name) = ''.zip''" and f: "f = bundle_archive pretty deflate loads name payload"
    and b: "build_public_result sha dumps strf p run_id now pack config saved st = Inr (payload, ws)"
    using assms(1) by (auto simp: export_public_bundle_def res_bind_Inr_iff split: if_split_asm)
  obtain d where d: "payload = PDict d" "jget d ''privacy'' = PRIVACY" "validate_public_result sha dumps (PDict d) = Inr (PDict d)"
    by (rule built [OF b]) (metis body_fields(1))
  have "validate_public_result sha dumps (json_sort payload) = Inr (json_sort payload)"
    unfolding d(1) using d(2,3) assms(3) by (intro validate_sorted) auto
  then show ?thesis
    using zip assms(2) notice_length by (auto simp: f load_public_bundle_def bundle_archive_def Let_def)
qed

section \<open>What is published is what is saved\<close>

lemma row_outcome_status: "row_outcome strf codex a (PDict d) = Inr (x, b) \<Longrightarrow> o_status x = item_status d"
  by (auto simp: row_outcome_def Let_def res_bind_Inr_iff split: if_split_asm option.splits)

lemma count_by: "length (filter (\<lambda>x. f x = s) xs) = length (filter (\<lambda>t. t = s) (map f xs))"
  by (simp add: filter_map o_def)

lemma file_outcomes_count:
  assumes "has_rows p" and "file_outcomes strf codex (a, p) = Inr os"
  shows "int (length (filter (\<lambda>r. o_status (fst r) = s) os)) = counted p s"
proof -
  obtain ds where ds: "jget p ''results'' = PList (map PDict ds)" "ds \<noteq> []" "jget_or p ''results'' (PList []) = PList (map PDict ds)"
    using assms(1) by (rule has_rows_E)
  obtain n where os: "res_map (row_outcome strf codex n) (map PDict ds) = Inr os"
    using assms(2) by (auto simp: file_outcomes_def Let_def res_bind_Inr_iff ds(3) py_iter_def)
  have "map (\<lambda>r. o_status (fst r)) os = map item_status ds"
    using os by (induction ds arbitrary: os) (auto split: sum.splits simp: row_outcome_status)
  then have "length (filter (\<lambda>r. o_status (fst r) = s) os) = length (filter (\<lambda>d. item_status d = s) ds)"
    unfolding count_by [of "\<lambda>r. o_status (fst r)"] count_by [of item_status] by simp
  then show ?thesis using result_counts_rows [OF ds(1,2)] by (simp add: counted_def)
qed

lemma saved_outcomes_count:
  assumes "results_ok st" and "res_map (file_outcomes strf codex) (saved_results st key n) = Inr oss"
  shows "int (length (filter (\<lambda>r. o_status (fst r) = s) (concat oss))) = saved_count st key n s"
proof -
  have "(\<Sum>os\<leftarrow>oss. int (length (filter (\<lambda>r. o_status (fst r) = s) os))) = saved_count st key n s"
    unfolding saved_count_def
  proof (rule res_map_sum [OF assms(2)])
    fix ap os assume ap: "ap \<in> set (saved_results st key n)" "file_outcomes strf codex ap = Inr os"
    obtain a p where "ap = (a, p)" by (cases ap)
    then show "int (length (filter (\<lambda>r. o_status (fst r) = s) os)) = (case ap of (a, p) \<Rightarrow> counted p s)"
      using file_outcomes_count [OF saved_has_rows [OF assms(1)]] ap by simp
  qed
  moreover have "int (length (filter P (concat xss))) = (\<Sum>xs\<leftarrow>xss. int (length (filter P xs)))" for P :: "item_outcome \<times> bool \<Rightarrow> bool" and xss
    by (induction xss) simp_all
  ultimately show ?thesis by simp
qed

lemma dict_get_kept: "dict_get (filter (\<lambda>(_, r). r \<noteq> []) xs) k [] = dict_get xs k []" if "distinct (map fst xs)"
  using that by (induction xs) (auto simp: dict_get_def map_of_eq_None_iff [THEN iffD2] rev_image_eqI split: option.splits)

lemma observed_outcomes:
  assumes "public_item_observations strf st model i = Inr (observed, w)" and "jget model ''key'' = PStr key"
    and "results_ok st" and "n \<in> {1, 2, 3}"
  shows "int (length (filter (\<lambda>r. o_status r = s) (dict_get observed (show_int n) []))) = saved_count st key n s"
proof -
  have kv: "jitem model ''key'' = Inr (PStr key)"
    using assms(2) by (auto simp: jitem_def jget_def dict_get_def split: option.splits)
  let ?f = "file_outcomes strf (jget model ''transport'' = PStr ''codex_cli'')"
  obtain rows four where rows: "res_map (\<lambda>n. map_sum id concat (res_map ?f (saved_results st key n))) [1, 2, 3] = Inr rows"
    and obs: "observed = filter (\<lambda>(_, r). r \<noteq> []) (zip [''1'', ''2'', ''3''] (map (map fst) rows) @ [(''4'', four)])"
    using assms(1) unfolding public_item_observations_def kv by (auto simp: res_bind_Inr_iff Let_def simp del: res_map.simps)
  obtain a b c where r: "map_sum id concat (res_map ?f (saved_results st key 1)) = Inr a" "map_sum id concat (res_map ?f (saved_results st key 2)) = Inr b"
    "map_sum id concat (res_map ?f (saved_results st key 3)) = Inr c" "rows = [a, b, c]"
    using rows by (auto split: sum.splits)
  have "int (length (filter (\<lambda>r. o_status (fst r) = s) x)) = saved_count st key m s"
    if "map_sum id concat (res_map ?f (saved_results st key m)) = Inr x" for m x
    using that saved_outcomes_count [OF assms(3)] by (cases "res_map ?f (saved_results st key m)") auto
  note counts = r(1-3) [THEN this]
  have names: "show_int 1 = ''1''" "show_int 2 = ''2''" "show_int 3 = ''3''" by code_simp+
  have "dict_get observed k [] = dict_get [(''1'', map fst a), (''2'', map fst b), (''3'', map fst c), (''4'', four)] k []" for k
    unfolding obs r(4) using dict_get_kept [of "[(''1'', map fst a), (''2'', map fst b), (''3'', map fst c), (''4'', four)]" k] by simp
  then show ?thesis using assms(4) counts names by (auto simp: dict_get_def filter_map o_def)
qed

lemma outcomes_of_rows:
  assumes "jget r ''items'' = PList (map (PDict \<circ> outcome_obj) os)"
  shows "outcomes r s = int (length (filter (\<lambda>r. o_status r = s) os))"
proof -
  have "jget (outcome_obj x) ''status'' = PStr (status_name (o_status x))" for x
    by (simp add: outcome_obj_def jget_def dict_get_def)
  then show ?thesis by (simp add: outcomes_def round_items_def assms o_def filter_map)
qed

lemma map_of_clean_rounds:
  assumes "\<forall>(k, v) \<in> set rs. is_dict v" and n: "n \<in> {''1'', ''2'', ''3'', ''4''}"
  shows "map_of (clean_rounds rs) n = (case map_of rs n of Some (PDict d) \<Rightarrow> Some (clean_round n d) | _ \<Rightarrow> None)"
proof -
  let ?F = "\<lambda>(n, v). case v of PDict d \<Rightarrow> if n \<in> {''1'', ''2'', ''3'', ''4''} then Some (n, clean_round n d) else None | _ \<Rightarrow> None"
  have "map_of (List.map_filter ?F xs) n = (case map_of xs n of Some (PDict d) \<Rightarrow> Some (clean_round n d) | _ \<Rightarrow> None)"
    if "\<forall>(k, v) \<in> set xs. is_dict v" for xs
    using that
  proof (induction xs)
    case (Cons x xs)
    obtain k d where "x = (k, PDict d)" using Cons.prems by (cases x; case_tac b) auto
    then show ?case using Cons n by (auto simp: map_filter_simps)
  qed (simp add: map_filter_simps)
  moreover have "\<forall>(k, v) \<in> set (sort_key fst rs). is_dict v" using assms(1) by simp
  ultimately show ?thesis unfolding clean_rounds_def map_of_sort_key [of rs, symmetric] .
qed

lemma map_of_entry_rounds:
  assumes "fst ` set (me_rounds e) \<subseteq> {1, 2, 3}" and "n \<in> {1, 2, 3}"
  shows "map_of (entry_rounds e) (show_int n) = map_option (PDict \<circ> round_obj) (map_of (me_rounds e) n)"
proof -
  have "map_of (map (\<lambda>(n, e). (show_int n, PDict (round_obj e))) xs) (show_int n) = map_option (PDict \<circ> round_obj) (map_of xs n)" for xs
    by (induction xs) (auto dest: show_int_inj)
  moreover have "show_int n \<noteq> ''4''"
  proof -
    have "show_int 1 \<noteq> ''4''" "show_int 2 \<noteq> ''4''" "show_int 3 \<noteq> ''4''" by code_simp+
    then show ?thesis using assms(2) by auto
  qed
  ultimately show ?thesis by (auto simp: entry_rounds_def map_add_def split: option.splits)
qed

lemma map_of_with_items:
  "map_of (map (with_items observed) rs) n
     = map_option (\<lambda>d. PDict (d @ [(''items'', PList (map (PDict \<circ> outcome_obj) (dict_get observed n [])))])) (map_of rs n)"
  by (induction rs) (auto simp: with_items_def)

text \<open>The entry of a model in the report, from the saved files.\<close>

lemma entry_rounds_saved:
  assumes "res_map (\<lambda>n. let rows = map snd (saved_results st key n) in
      if rows = [] then Inr [] else map_sum id (\<lambda>e. [(n, e)]) (round_entry_of rows)) ns = Inr es"
  shows "fst ` set (concat es) \<subseteq> {n \<in> set ns. saved_results st key n \<noteq> []}"
  using assms
proof (induction ns arbitrary: es)
  case (Cons n ns)
  then show ?case
    by (cases "round_entry_of (map snd (saved_results st key n))") (fastforce simp: Let_def split: sum.splits if_split_asm)+
qed simp

lemma entry_round_names:
  assumes "model_entry_of st (PDict m) = Inr e"
  shows "fst ` set (me_rounds e) \<subseteq> {n \<in> {1, 2, 3}. saved_results st (me_key e) n \<noteq> []}"
proof -
  obtain kv where kv: "jitem m ''key'' = Inr kv"
    using assms unfolding model_entry_of_def Inspect.as_obj_def by (cases "jitem m ''key''") simp_all
  obtain key where key: "kv = PStr key"
    using assms kv unfolding model_entry_of_def Inspect.as_obj_def by (cases kv) simp_all
  obtain mid where mid: "jitem m ''model'' = Inr mid"
    using assms kv key unfolding model_entry_of_def Inspect.as_obj_def by (cases "jitem m ''model''") simp_all
  let ?g = "\<lambda>n. let rows = map snd (saved_results st key n) in
      if rows = [] then Inr [] else map_sum id (\<lambda>e. [(n, e)]) (round_entry_of rows)"
  obtain es where es: "res_map ?g [1, 2, 3] = Inr es" and me: "me_rounds e = concat es" "me_key e = key"
  proof (cases "res_map ?g [1, 2, 3]")
    case (Inr es)
    then show ?thesis
      using that [OF Inr] assms kv key mid unfolding model_entry_of_def Inspect.as_obj_def
      by (simp add: res_bind_Inr_iff del: res_map.simps) auto
  qed (use assms kv key mid in \<open>simp add: model_entry_of_def Inspect.as_obj_def del: res_map.simps\<close>)
  show ?thesis using entry_rounds_saved [OF es] unfolding me by simp
qed

lemma res_map_Inr_mem: "res_map f xs = Inr ys \<Longrightarrow> x \<in> set xs \<Longrightarrow> \<exists>y \<in> set ys. f x = Inr y"
  by (induction xs arbitrary: ys) (auto split: sum.splits)

lemma entry_of_key:
  assumes "res_map (model_entry_of st) (map PDict ms) = Inr (su_models su)" and "m \<in> set ms" and "n \<in> {1, 2, 3}"
  obtains e where "reported_rounds su (PStr (model_key m)) = entry_rounds e" "fst ` set (me_rounds e) \<subseteq> {1, 2, 3}"
    "map_of (me_rounds e) n = None \<longleftrightarrow> saved_results st (model_key m) n = []"
    "\<And>x. map_of (me_rounds e) n = Some x \<Longrightarrow> round_entry_of (map snd (saved_results st (model_key m) n)) = Inr x"
proof -
  obtain e0 where e0: "e0 \<in> set (su_models su)" "model_entry_of st (PDict m) = Inr e0"
    using res_map_Inr_mem [OF assms(1)] assms(2) by auto
  have "me_key e0 = model_key m" using model_entry_rounds(1) [OF e0(2) assms(3)] .
  then have "find (\<lambda>e. PStr (me_key e) = PStr (model_key m)) (rev (su_models su)) \<noteq> None"
    using e0(1) by (auto simp: find_None_iff)
  then obtain e where f: "find (\<lambda>e. PStr (me_key e) = PStr (model_key m)) (rev (su_models su)) = Some e" by blast
  then have e: "e \<in> set (su_models su)" "me_key e = model_key m"
    by (auto simp: find_Some_iff) (metis nth_mem length_rev set_rev)
  obtain m' where m': "model_entry_of st (PDict m') = Inr e"
    using res_map_Inr_set [OF assms(1) e(1)] by auto
  have k: "model_key m' = model_key m" using model_entry_rounds(1) [OF m' assms(3)] e(2) by simp
  note r = model_entry_rounds(2) [OF m' assms(3), unfolded k]
  show ?thesis
  proof (rule that [of e])
    show "reported_rounds su (PStr (model_key m)) = entry_rounds e" by (simp only: reported_rounds_def f option.case)
    show "fst ` set (me_rounds e) \<subseteq> {1, 2, 3}" using entry_round_names [OF m'] by blast
    show "map_of (me_rounds e) n = None \<longleftrightarrow> saved_results st (model_key m) n = []"
      using r entry_round_names [OF m'] e(2) by (cases "map_of (me_rounds e) n") (auto dest!: map_of_SomeD)
  qed (use r in simp)
qed

text \<open>What the validation says about the metrics of a published round.\<close>

lemma validated_metrics:
  assumes "validate_public_result sha dumps (PDict d) = Inr w" and "jget d ''schema_version'' = PInt 4" and "jget d ''models'' = PList pub"
    and "m \<in> set pub" and "m = PDict md" and "jget md ''rounds'' = PDict rs" and "(n, PDict r) \<in> set rs"
    and "(metric, x) \<in> set (expected_metrics n r)" and "dict_has r metric"
  shows "py_eq (jget r metric) (PInt x)"
proof -
  obtain schema rounds env where c: "check_top d = Inr schema" "check_public_models schema rounds env (PList pub) = Inr ()"
    by (rule validate_facts [OF assms(1)]) (use assms(3) in simp)
  have schema: "schema = 4" using check_top_facts [OF c(1)] assms(2) by simp
  obtain i where "i < length pub" "pub ! i = m" using assms(4) by (auto simp: in_set_conv_nth)
  then have "(i, m) \<in> set (enumerate 0 pub)" by (auto simp: in_set_enumerate_eq)
  then have "check_public_model schema rounds env (Suc i) (PDict md) = Inr ()"
    using c(2) assms(5) by (auto simp: check_public_models_def as_list_def Let_def res_all_Inr_iff split: if_split_asm)
  then have "check_public_round (Suc i) schema (n, PDict r) = Inr ()"
    unfolding check_public_model_parts assms(6) using assms(7) by (simp add: Public.as_obj_def res_all_Inr_iff)
  then show ?thesis
    using assms(8,9) by (auto simp: check_public_round_def schema Public.as_obj_def Let_def res_all_Inr_iff)
qed

definition published_round :: "jobj \<Rightarrow> nat \<Rightarrow> string \<Rightarrow> jobj option" where
  "published_round payload i n =
     (case jget payload ''models'' of
        PList pub \<Rightarrow>
          if i < length pub
          then (case pub ! i of
                  PDict m \<Rightarrow> (case jget m ''rounds'' of PDict rs \<Rightarrow> (case map_of rs n of Some (PDict r) \<Rightarrow> Some r | _ \<Rightarrow> None) | _ \<Rightarrow> None)
                | _ \<Rightarrow> None)
          else None
      | _ \<Rightarrow> None)"

definition faithful_round :: "campaign \<Rightarrow> string \<Rightarrow> int \<Rightarrow> jobj option \<Rightarrow> bool" where
  "faithful_round st key n r =
     (case r of
        None \<Rightarrow> saved_results st key n = []
      | Some r \<Rightarrow> saved_results st key n \<noteq> [] \<and> (\<forall>s \<in> set all_status. outcomes r s = saved_count st key n s)
          \<and> py_eq (jget r ''passed'') (PInt (saved_count st key n PASS))
          \<and> jget r ''total'' = PInt (saved_count st key n PASS + saved_count st key n FAIL)
          \<and> jget r ''attempts'' = PInt (int (length (saved_results st key n))))"

lemma build_model_rounds:
  assumes "build_model strf config st env su (i, PDict model) = Inr (v, w)"
  obtains md observed w' where "v = PDict md" "public_item_observations strf st model i = Inr (observed, w')"
    "jget md ''rounds'' = PDict (map (with_items observed) (clean_rounds (reported_rounds su (jget model ''key''))))"
proof -
  obtain observed w' scaffold serving w2 where b: "public_item_observations strf st model i = Inr (observed, w')"
    "v = PDict [(''public_name'', PStr (fst (public_model_name model i))), (''transport'', jget model ''transport''), (''execution_scaffold'', scaffold),
       (''serving_environment'', serving), (''rounds'', PDict (map (with_items observed) (clean_rounds (reported_rounds su (jget model ''key''))))),
       (''parameters'', PDict (clean_parameters model)), (''public_metadata'', PDict (fst (clean_metadata model i)))]"
    using assms unfolding build_model_def Inspect.as_obj_def prod.case pyval.case res_bind.simps Let_def
    by (auto simp: res_bind_Inr_iff)
  show ?thesis by (rule that [OF b(2,1)]) (simp add: jget_def dict_get_def)
qed

lemma metric_fields:
  "map_of (keep_fields ROUND_FIELDS (round_obj e)) ''passed'' = Some (e_passed e)"
  "map_of (keep_fields ROUND_FIELDS (round_obj e)) ''total'' = Some (PInt (e_total e))"
  "map_of (keep_fields ROUND_FIELDS (round_obj e)) ''attempts'' = Some (PInt (e_attempts e))"
proof -
  have m: "{''passed'', ''total'', ''attempts''} \<subseteq> set ROUND_FIELDS" by code_simp
  have "map_of (keep_fields ROUND_FIELDS d) k = Some (jget d k)" if "k \<in> set ROUND_FIELDS" "dict_has d k" for k d
    using that by (simp add: keep_fields_def map_of_map_restrict restrict_map_def)
  note this [of _ "round_obj e"]
  then show "map_of (keep_fields ROUND_FIELDS (round_obj e)) ''passed'' = Some (e_passed e)"
    "map_of (keep_fields ROUND_FIELDS (round_obj e)) ''total'' = Some (PInt (e_total e))"
    "map_of (keep_fields ROUND_FIELDS (round_obj e)) ''attempts'' = Some (PInt (e_attempts e))"
    using m by (simp_all add: round_obj_def dict_has_def jget_def dict_get_def)
qed

lemma row_fields:
  "jget (keep_fields ROUND_FIELDS (round_obj e) @ [(''items'', v)]) ''items'' = v"
  "jget (keep_fields ROUND_FIELDS (round_obj e) @ rest) ''total'' = PInt (e_total e)"
  "jget (keep_fields ROUND_FIELDS (round_obj e) @ rest) ''attempts'' = PInt (e_attempts e)"
  "dict_has (keep_fields ROUND_FIELDS (round_obj e) @ rest) ''passed''"
proof -
  have "''items'' \<notin> set ROUND_FIELDS" by code_simp
  then have "map_of (keep_fields ROUND_FIELDS (round_obj e)) ''items'' = None"
    by (auto simp: keep_fields_def map_of_eq_None_iff)
  then show "jget (keep_fields ROUND_FIELDS (round_obj e) @ [(''items'', v)]) ''items'' = v"
    by (simp add: jget_def dict_get_def map_add_def)
qed (simp_all add: jget_def dict_get_def map_add_def metric_fields dict_has_iff)

lemma show_int_not_four: "n \<in> {1, 2, 3} \<Longrightarrow> show_int n \<noteq> ''4''"
proof -
  have "show_int 1 \<noteq> ''4''" "show_int 2 \<noteq> ''4''" "show_int 3 \<noteq> ''4''" by code_simp+
  then show "n \<in> {1, 2, 3} \<Longrightarrow> show_int n \<noteq> ''4''" by auto
qed

lemma published_rows:
  assumes "fst ` set (me_rounds e) \<subseteq> {1, 2, 3}" and "n \<in> {1, 2, 3}"
  shows "map_of (map (with_items observed) (clean_rounds (entry_rounds e))) (show_int n)
    = map_option (PDict \<circ> (\<lambda>x. keep_fields ROUND_FIELDS (round_obj x)
        @ [(''items'', PList (map (PDict \<circ> outcome_obj) (dict_get observed (show_int n) [])))])) (map_of (me_rounds e) n)"
proof -
  have dicts: "\<forall>(k, v) \<in> set (entry_rounds e). is_dict v" by (auto simp: entry_rounds_def split: option.splits)
  have "show_int n \<in> {''1'', ''2'', ''3'', ''4''}" using assms(2) by (intro show_int_rounds) auto
  note clean = map_of_clean_rounds [OF dicts this]
  show ?thesis
    using show_int_not_four [OF assms(2)]
    by (simp add: map_of_with_items clean map_of_entry_rounds [OF assms] clean_round_def split: option.splits)
qed

lemma entry_key: "model_entry_of st (PDict m) = Inr e \<Longrightarrow> jget m ''key'' = PStr (model_key m)"
proof -
  assume a: "model_entry_of st (PDict m) = Inr e"
  obtain kv where kv: "jitem m ''key'' = Inr kv"
    using a unfolding model_entry_of_def Inspect.as_obj_def by (cases "jitem m ''key''") simp_all
  obtain key where key: "kv = PStr key"
    using a kv unfolding model_entry_of_def Inspect.as_obj_def by (cases kv) simp_all
  show ?thesis using kv key by (auto simp: model_key_def jitem_def jget_def jget_or_def dict_get_def split: option.splits)
qed

text \<open>C33. What is published is what is saved: for every model of the configuration and every round of
  answers, the exported bundle has the round exactly when a result of it is saved; its items, counted
  by status, are the rows of all saved results counted by verdict; its passed and total fields are
  those counts and its attempts field is the number of saved results. The saved results have rows.\<close>

theorem export_faithful:
  assumes "results_ok st" and "jget config ''models'' = PList (map PDict ms)" and "i < length ms" and "n \<in> {1, 2, 3}"
    and "build_public_result sha dumps strf p run_id now pack config saved st = Inr (PDict payload, ws)"
  shows "faithful_round st (model_key (ms ! i)) n (published_round payload i (show_int n))"
proof -
  define model where "model = ms ! i"
  define key where "key = model_key model"
  have model: "model \<in> set ms" using assms(3) by (simp add: model_def)
  have "dict_has config ''models''"
    using assms(2) by (auto simp: jget_def dict_get_def dict_has_iff split: option.splits)
  then have need: "need config ''models'' = Inr (map PDict ms)"
    using assms(2) by (auto simp: need_def jitem_def jget_def dict_get_def dict_has_iff py_iter_def)
  obtain su packs ns bs where b: "collect run_id now pack config st = Inr su"
    "res_map (build_model strf config st (public_environment p) su) (enumerate 1 (map PDict ms)) = Inr bs"
    "payload = with_bundle_id sha dumps (bundle_body ns packs (public_environment p) (map fst bs))"
    "validate_public_result sha dumps (PDict payload) = Inr (PDict payload)"
    by (rule built [OF assms(5)]) (use need in simp)
  have models: "res_map (model_entry_of st) (map PDict ms) = Inr (su_models su)"
    using b(1) need by (auto simp: collect_def res_bind_Inr_iff)
  have len: "length bs = length ms" using res_map_Inr_length [OF b(2)] by simp
  have "build_model strf config st (public_environment p) su (Suc i, PDict model) = Inr (bs ! i)"
    using list_all2_nthD [OF res_map_Inr_all2 [OF b(2)], of i] assms(3) by (simp add: nth_enumerate_eq model_def)
  then obtain md observed w where m: "fst (bs ! i) = PDict md" "public_item_observations strf st model (Suc i) = Inr (observed, w)"
    "jget md ''rounds'' = PDict (map (with_items observed) (clean_rounds (reported_rounds su (jget model ''key''))))"
    by (cases "bs ! i") (auto elim: build_model_rounds)
  obtain e0 where "model_entry_of st (PDict model) = Inr e0" using res_map_Inr_mem [OF models] model by force
  then have jkey: "jget model ''key'' = PStr key" unfolding key_def by (rule entry_key)
  obtain e where e: "reported_rounds su (PStr key) = entry_rounds e" "fst ` set (me_rounds e) \<subseteq> {1, 2, 3}"
    "map_of (me_rounds e) n = None \<longleftrightarrow> saved_results st key n = []"
    "\<And>x. map_of (me_rounds e) n = Some x \<Longrightarrow> round_entry_of (map snd (saved_results st key n)) = Inr x"
    using entry_of_key [OF models model assms(4)] unfolding key_def by metis
  define rs where "rs = map (with_items observed) (clean_rounds (entry_rounds e))"
  let ?row = "\<lambda>x. keep_fields ROUND_FIELDS (round_obj x) @ [(''items'', PList (map (PDict \<circ> outcome_obj) (dict_get observed (show_int n) [])))]"
  have rs: "map_of rs (show_int n) = map_option (PDict \<circ> ?row) (map_of (me_rounds e) n)"
    unfolding rs_def by (rule published_rows [OF e(2) assms(4)])
  have jr: "jget md ''rounds'' = PDict rs" using m(3) by (simp add: jkey e(1) rs_def)
  have pub: "jget payload ''models'' = PList (map fst bs)" by (simp add: b(3) body_fields)
  have published: "published_round payload i (show_int n) = map_option ?row (map_of (me_rounds e) n)"
    using assms(3) by (simp add: published_round_def pub len m(1) jr rs split: option.splits)
  show ?thesis
  proof (cases "map_of (me_rounds e) n")
    case None
    then show ?thesis using e(3) by (simp add: published faithful_round_def key_def model_def)
  next
    case (Some x)
    define r where "r = ?row x"
    have c: "outcomes r s = saved_count st key n s" for s
      using outcomes_of_rows [of r "dict_get observed (show_int n) []" s] observed_outcomes [OF m(2) jkey assms(1,4)]
      by (simp add: r_def row_fields)
    have four: "show_int n \<noteq> ''4''" by (rule show_int_not_four [OF assms(4)])
    have "fst (bs ! i) \<in> set (map fst bs)" using assms(3) by (simp add: len)
    moreover have "(show_int n, PDict r) \<in> set rs" using rs Some by (auto simp: r_def dest: map_of_SomeD)
    moreover have "(''passed'', saved_count st key n PASS) \<in> set (expected_metrics (show_int n) r)"
      using four c by (simp add: expected_metrics_def)
    moreover have "jget payload ''schema_version'' = PInt 4" by (simp add: b(3) with_bundle_id_def jget_def dict_get_def)
    ultimately have "py_eq (jget r ''passed'') (PInt (saved_count st key n PASS))"
      by (intro validated_metrics [OF b(4) _ pub _ m(1) jr]) (simp_all add: r_def row_fields)
    then show ?thesis
      using c e(3) round_entry_counts [OF e(4) [OF Some]] Some
      by (simp add: published faithful_round_def r_def row_fields key_def [symmetric] model_def [symmetric])
  qed
qed

section \<open>An exported run\<close>

definition demo_platform :: platform_info where
  "demo_platform = \<lparr>pl_system = ''Linux'', pl_machine = ''x86_64'', pl_major = 3, pl_minor = 12\<rparr>"

definition demo_packs :: jobj where
  "demo_packs = [(''1'', PStr (''sha256:'' @ replicate 64 (CHR ''a''))), (''4'', PStr (''sha256:'' @ replicate 64 (CHR ''b'')))]"

definition demo_published :: jobj where
  "demo_published =
     [(''attempts'', PInt 1), (''incomplete'', PInt 0), (''infrastructure_errors'', PInt 0), (''manual_review'', PInt 1),
      (''mean_wall_seconds'', PInt 9), (''passed'', PInt 1), (''total'', PInt 2),
      (''items'', PList (map (\<lambda>(q, st). PDict [(''item'', PStr q), (''attempt'', PInt 1), (''status'', PStr st), (''wall_seconds'', PNone), (''tokens'', PNone)])
         [(''q1'', ''PASS''), (''q2'', ''FAIL''), (''q3'', ''REVIEW'')]))]"

definition demo_export_model :: pyval where
  "demo_export_model = PDict
     [(''public_name'', PStr ''x''), (''transport'', PStr ''openai_compat''),
      (''execution_scaffold'', PDict [(''agent_backend'', PStr ''codex_cli''), (''isolation_mode'', PStr ''macos_seatbelt''),
         (''network'', PStr ''model_endpoint_only''), (''fail_closed'', PBool True)]),
      (''serving_environment'', serving_obj (PStr ''unreported'') PNone PNone), (''rounds'', PDict [(''1'', PDict demo_published)]),
      (''parameters'', PDict []), (''public_metadata'', PDict [])]"

definition demo_exported :: jobj where
  "demo_exported = with_bundle_id demo_sha demo_dumps (bundle_body [1, 4] demo_packs (public_environment demo_platform) [demo_export_model])"

definition demo_warnings :: "string list" where
  "demo_warnings = [model_tag 1 ''serving environment is unreported; set public_serving_environment to publish an attested relationship'']"

lemma demo_build_model:
  "build_model (\<lambda>_. []) demo_config demo_run (public_environment demo_platform)
     \<lparr>su_run_id = ''run1'', su_generated = ''now'', su_config = demo_config, su_packs = [],
       su_models = [\<lparr>me_key = ''m1'', me_label = PStr ''x'', me_rounds = [(1, demo_entry)], me_four = None\<rparr>]\<rparr> (1, PDict demo_model)
   = Inr (demo_export_model, demo_warnings)"
  by code_simp

lemma demo_export_checks:
  "check_top demo_exported = Inr 4" "check_bundle_id demo_sha demo_dumps demo_exported = Inr ()" "check_tool (jget demo_exported ''tool'') = Inr ()"
  "check_benchmark (jget demo_exported ''benchmark'') = Inr [1, 4]"
  "check_environment (jget demo_exported ''environment'') = Inr (public_environment demo_platform)"
  "check_public_models 4 [1, 4] (public_environment demo_platform) (jget demo_exported ''models'') = Inr ()"
  "py_eq (jget demo_exported ''privacy'') PRIVACY"
  by code_simp+

lemma demo_export_walk: "res_all check_entry (walk ''root'' (PDict demo_exported)) = Inr ()"
  by code_simp

lemma demo_export_valid: "validate_public_result demo_sha demo_dumps (PDict demo_exported) = Inr (PDict demo_exported)"
  unfolding validate_public_result_def Public.as_obj_def pyval.case res_bind.simps demo_export_checks demo_export_walk
  by (simp add: demo_export_checks demo_dumps_def res_seq_def fail_if_def)

lemma demo_recorded: "recorded_packs (Some (PDict [(''packs'', PDict demo_packs)])) (Inr [1, 4]) = Inr (demo_packs, [1, 4])"
  by code_simp

lemma demo_built:
  "build_public_result demo_sha demo_dumps (\<lambda>_. []) demo_platform ''run1'' ''now'' (\<lambda>_. None) demo_config
     (Some (PDict [(''packs'', PDict demo_packs)])) demo_run = Inr (PDict demo_exported, demo_warnings)"
proof -
  have "need demo_config ''models'' = Inr [PDict demo_model]" "jget_or demo_config ''rounds'' (PList []) = PList [PInt 1, PInt 4]"
    by code_simp+
  then show ?thesis
    using demo_build_model demo_export_valid
    by (simp add: build_public_result_def demo_collected Let_def py_iter_def py_int_def demo_recorded demo_exported_def [symmetric])
qed

theorem export_faithful_witness:
  "faithful_round demo_run (model_key demo_model) 1 (published_round demo_exported 0 (show_int 1))
     \<and> published_round demo_exported 0 (show_int 1) \<noteq> None"
proof
  show "faithful_round demo_run (model_key demo_model) 1 (published_round demo_exported 0 (show_int 1))"
    using export_faithful [OF demo_run_ok demo_run_models(1) _ _ demo_built, of 0 1] by simp
  show "published_round demo_exported 0 (show_int 1) \<noteq> None" by code_simp
qed

lemma demo_archive:
  "export_public_bundle (\<lambda>_. ''{}'') (\<lambda>_. 10) (\<lambda>_. Inr (json_sort (PDict demo_exported))) (\<lambda>_. False) ''out.zip''
     (build_public_result demo_sha demo_dumps (\<lambda>_. []) demo_platform ''run1'' ''now'' (\<lambda>_. None) demo_config
        (Some (PDict [(''packs'', PDict demo_packs)])) demo_run)
   = Inr (bundle_archive (\<lambda>_. ''{}'') (\<lambda>_. 10) (\<lambda>_. Inr (json_sort (PDict demo_exported))) ''out.zip'' (PDict demo_exported),
          PDict demo_exported, demo_warnings)"
proof -
  have "str_lower (suffix_of ''out.zip'') = ''.zip''" by code_simp
  then show ?thesis by (simp only: export_public_bundle_def demo_built res_bind.simps prod.case simp_thms if_False)
qed

theorem export_loads_witness:
  "load_public_bundle demo_sha demo_dumps (bundle_archive (\<lambda>_. ''{}'') (\<lambda>_. 10) (\<lambda>_. Inr (json_sort (PDict demo_exported))) ''out.zip'' (PDict demo_exported))
     = Inr (json_sort (PDict demo_exported))"
proof -
  have "\<forall>v. demo_dumps (json_sort v) = demo_dumps v" by (simp add: demo_dumps_def)
  note loads = export_loads [OF demo_archive refl this]
  show ?thesis unfolding loads by (rule if_P) simp
qed

end
