(* ===== verification/Round5_Pilot.thy ===== *)
theory Round5_Pilot
  imports Round5
begin

text \<open>
  Running a pilot of round 5 over models and attempts (\<open>run_pilot\<close> and \<open>_render\<close> of
  \<open>src/llm_hardtest/round5.py\<close>): the saved configuration, resumed attempts and the summary.

  A run directory is its saved configuration and summary, the grade files by model and attempt, and the
  attempt directories that hold no grade. \<open>hosts\<close> is the agent and the test commands of a model and an
  attempt. The lemmas show that no evidence is overwritten and that a finished pilot resumes to itself.
\<close>

section \<open>Grades as JSON\<close>

definition str_or_none :: "string option \<Rightarrow> pyval" where
  "str_or_none s = (case s of None \<Rightarrow> PNone | Some t \<Rightarrow> PStr t)"

definition str_list :: "string list \<Rightarrow> pyval" where
  "str_list xs = PList (map PStr xs)"

definition test_obj :: "test_result \<Rightarrow> pyval" where
  "test_obj t = PDict [(''passed'', PInt (int (tr_passed t))), (''total'', PInt (int (tr_total t))), (''timed_out'', PBool (tr_timed_out t))]"

definition turn_obj :: "pilot_turn \<Rightarrow> pyval" where
  "turn_obj t =
     PDict [(''content'', tu_content t), (''session_id'', tu_session t), (''wall'', tu_wall t), (''tokens'', tu_tokens t),
       (''timed_out'', tu_timed_out t), (''protocol_aborted'', PBool (tu_aborted t)), (''termination_reason'', tu_reason t),
       (''returncode'', tu_returncode t), (''sandbox'', tu_sandbox t), (''output_valid'', PBool (tu_valid t)),
       (''unsupported_tool_calls'', PInt (int (tu_unsupported t))), (''unsupported_tool_names'', str_list (tu_names t))]"

definition report_obj :: "final_report \<Rightarrow> pyval" where
  "report_obj r =
     PDict [(''fields'', PDict (map (\<lambda>(k, v). (k, PStr v)) (fr_fields r))), (''complete'', PBool (fr_complete r)),
       (''root_cause_accurate'', PBool (fr_root_cause r)), (''invalidated_plan_accurate'', PBool (fr_invalidated r)),
       (''public_test_claim_accurate'', PBool (fr_public_claim r)), (''changed_files_claim_accurate'', PBool (fr_files_claim r)),
       (''accurate'', PBool (fr_accurate r))]"

definition pilot_grade_obj :: "string \<Rightarrow> nat \<Rightarrow> attempt_files \<Rightarrow> jobj" where
  "pilot_grade_obj pilot attempt a =
     (let g = af_grade a in
      [(''status'', PStr (if pg_complete g then ''COMPLETE'' else ''INCOMPLETE'')), (''stop_reason'', str_or_none (pg_stop g)),
       (''protocol_aborted'', PBool (pg_aborted g)), (''turns_completed'', PInt (int (pg_turns g))),
       (''no_edit_before_approval'', PBool (pg_flattened g = [])), (''preapproval_changed_files'', str_list (pg_flattened g)),
       (''evidence_revision_observed'', PBool (pg_revision g)), (''tool_protocol_clean'', PBool (pg_unsupported g = 0)),
       (''unsupported_tool_calls'', PInt (int (pg_unsupported g))), (''unsupported_tool_names'', str_list (pg_names g)),
       (''public'', test_obj (pg_public g)), (''hidden'', test_obj (pg_hidden g)), (''release_ready'', PBool (pg_release_ready g)),
       (''final_changed_files'', str_list (pg_final_changes g)), (''final_report'', report_obj (pg_report g)),
       (''pilot_id'', PStr pilot), (''attempt'', PInt (int attempt)), (''turns'', PList (map turn_obj (af_turns a)))])"

section \<open>The report\<close>

definition yes_no :: "bool \<Rightarrow> string" where
  "yes_no b = (if b then ''yes'' else ''no'')"

definition score_cell :: "(pyval \<Rightarrow> string) \<Rightarrow> pyval \<Rightarrow> string res" where
  "score_cell strf v =
     res_bind (dict_item v ''passed'') (\<lambda>p. res_bind (dict_item v ''total'') (\<lambda>t. Inr (jstr strf p @ ''/'' @ jstr strf t)))"

definition pilot_row_line :: "(pyval \<Rightarrow> string) \<Rightarrow> pyval \<Rightarrow> string res" where
  "pilot_row_line strf v =
     res_bind (dict_item v ''grade'') (\<lambda>gv.
     res_bind (dict_item gv ''final_report'') (\<lambda>rep.
     res_bind (dict_item v ''model'') (\<lambda>model.
     res_bind (dict_item gv ''attempt'') (\<lambda>attempt.
     res_bind (dict_item gv ''status'') (\<lambda>status.
     res_bind (res_bind (dict_item gv ''public'') (score_cell strf)) (\<lambda>public.
     res_bind (res_bind (dict_item gv ''hidden'') (score_cell strf)) (\<lambda>hidden.
     res_bind (dict_item gv ''no_edit_before_approval'') (\<lambda>quiet.
     res_bind (dict_item gv ''evidence_revision_observed'') (\<lambda>revised.
     res_bind (Inspect.as_obj gv) (\<lambda>g.
     res_bind (jitem g ''release_ready'') (\<lambda>ready.
     res_bind (dict_item rep ''accurate'') (\<lambda>accurate.
       Inr (row_of [jstr strf model, jstr strf attempt, jstr strf status, public, hidden, (if truthy quiet then ''no'' else ''YES''),
         yes_no (truthy revised), jstr strf (jget_or g ''unsupported_tool_calls'' (PStr ''n/a'')),
         yes_no (truthy (jget g ''protocol_aborted'')),
         (if truthy (jget g ''stop_reason'') then jstr strf (jget g ''stop_reason'') else em_dash),
         yes_no (truthy ready), yes_no (truthy accurate)])))))))))))))"

definition render_pilot :: "(pyval \<Rightarrow> string) \<Rightarrow> jobj \<Rightarrow> string res" where
  "render_pilot strf summary =
     res_bind (jitem summary ''pilot_id'') (\<lambda>pilot.
     res_bind (jitem summary ''pack'') (\<lambda>pack.
     res_bind (res_bind (need summary ''attempts'') (res_map (pilot_row_line strf))) (\<lambda>rows.
       Inr (str_join [newline]
         ([''# Round 5 Research Pilot Report'', [],
           ''**Not a canonical benchmark score.** These records exist to evaluate grader'',
           ''ambiguity and multi-model stability before Round 5 promotion.'', [],
           ''Scenario: '' @ code (jstr strf pilot), [], ''Pack: '' @ code (jstr strf pack), [],
           row_of [''Model key'', ''Attempt'', ''Status'', ''Public'', ''Hidden'', ''Pre-approval edits'', ''Evidence revision'', ''Protocol errors'',
             ''Protocol abort'', ''Stop reason'', ''Release ready'', ''Report accurate''],
           ''|---|---:|---|---:|---:|---:|---:|---:|---:|---|---:|---:|'']
          @ rows
          @ [[], ''Promotion still requires repeated attempts from at least two materially'',
             ''different models plus a manual ambiguity review.'', []])))))"

section \<open>The run\<close>

record pilot_run =
  pr_config :: "pyval option"
  pr_summary :: "jobj option"
  pr_report :: "string option"
  pr_grades :: "(string \<times> nat, jobj) dict"
  pr_partial :: "(string \<times> nat) list"

record pilot_setup =
  ps_validate :: "bool \<Rightarrow> jobj \<Rightarrow> unit res"
  ps_pack :: "unit res"
  ps_assets :: "(workspace \<times> jobj) res"
  ps_fingerprint :: "string res"
  ps_attempt :: "(workspace \<times> jobj) res \<Rightarrow> host5 \<Rightarrow> attempt_files res"
  ps_render :: "jobj \<Rightarrow> string res"

text \<open>The functions of the other modules, and the scenario, as \<open>run_pilot\<close> finds them on a host.\<close>

definition real_setup ::
  "(pyval \<Rightarrow> string) \<Rightarrow> (string \<Rightarrow> bool) \<Rightarrow> (string \<Rightarrow> pyval res) \<Rightarrow> host \<Rightarrow> (string \<Rightarrow> bool) \<Rightarrow> (string \<Rightarrow> string \<Rightarrow> bool) \<Rightarrow> (string \<Rightarrow> string)
     \<Rightarrow> (workspace \<Rightarrow> workspace \<Rightarrow> string) \<Rightarrow> unit res \<Rightarrow> (string \<Rightarrow> pilot_dir) \<Rightarrow> string \<Rightarrow> pilot_setup" where
  "real_setup strf ip_ok bank host re_ok search sha differ pack base pilot =
     \<lparr>ps_validate = (\<lambda>runtime config. validate_config strf ip_ok bank (if runtime then Some host else None) (PDict config)),
      ps_pack = pack, ps_assets = pilot_assets re_ok base pilot, ps_fingerprint = pilot_fingerprint re_ok sha base pilot,
      ps_attempt = pilot_attempt strf search sha differ, ps_render = render_pilot strf\<rparr>"

definition keys_of :: "jobj list \<Rightarrow> pyval list" where
  "keys_of ms = map (\<lambda>m. jget m ''key'') ms"

definition chosen_models :: "jobj \<Rightarrow> string list option \<Rightarrow> jobj list res" where
  "chosen_models config model_keys =
     res_bind (res_bind (need config ''models'') (res_map Inspect.as_obj)) (\<lambda>ms.
       let chosen = (case model_keys of None \<Rightarrow> ms | Some ks \<Rightarrow> filter (\<lambda>m. jget m ''key'' \<in> set (map PStr ks)) ms) in
       if chosen = [] \<or> (case model_keys of None \<Rightarrow> False | Some ks \<Rightarrow> ks \<noteq> [] \<and> set (map PStr ks) \<noteq> set (keys_of chosen))
       then Inl (ValueError ''pilot model keys must identify configured models'')
       else if \<not> list_all (\<lambda>m. jget m ''transport'' = PStr ''codex_cli'') chosen
       then Inl (ValueError ''Round 5 pilot requires transport=codex_cli for repository tools'')
       else Inr chosen)"

definition check_arguments :: "int \<Rightarrow> int option \<Rightarrow> unit res" where
  "check_arguments attempts timeout = res_seq
     [fail_if (attempts < 1) (ValueError ''pilot attempts must be at least 1''),
      fail_if (case timeout of None \<Rightarrow> False | Some t \<Rightarrow> t < 1) (ValueError ''pilot timeout must be at least 1 second'')]"

definition check_saved :: "string \<Rightarrow> string \<Rightarrow> jobj option \<Rightarrow> unit res" where
  "check_saved pilot pack saved =
     (case saved of
        None \<Rightarrow> Inr ()
      | Some d \<Rightarrow> res_seq
          [fail_if (\<not> py_eq (jget d ''schema_version'') (PInt 2) \<or> jget d ''fingerprint_scope'' \<noteq> PStr ''scenario'')
             (ValueError ''pilot resume summary does not use the current scenario fingerprint contract''),
           fail_if (jget d ''pilot_id'' \<noteq> PStr pilot) (ValueError ''pilot resume ID does not match saved pilot_summary.json''),
           fail_if (jget d ''pack'' \<noteq> PStr pack) (ValueError ''pilot resume pack does not match the current Round 5 pack'')])"

text \<open>One attempt of the loop: a saved grade is read, a directory without one is an error.\<close>

definition attempt_row :: "pilot_setup \<Rightarrow> string \<Rightarrow> (string \<Rightarrow> nat \<Rightarrow> host5) \<Rightarrow> pilot_run \<Rightarrow> string \<times> nat \<Rightarrow> pilot_run \<times> pyval res" where
  "attempt_row su pilot hosts st slot =
     (let row = (\<lambda>g. if jget g ''pilot_id'' \<noteq> PStr pilot then Inl (ValueError ''pilot attempt ID does not match the selected pilot'')
                     else Inr (PDict [(''model'', PStr (fst slot)), (''grade'', PDict g)])) in
      case map_of (pr_grades st) slot of
        Some g \<Rightarrow> (st, row g)
      | None \<Rightarrow>
          if slot \<in> set (pr_partial st)
          then (st, Inl (ValueError ''partial pilot evidence exists; preserve it and start a new run''))
          else (case ps_assets su of
                  Inl e \<Rightarrow> (st, Inl e)
                | Inr assets \<Rightarrow>
                    (case ps_attempt su (Inr assets) (hosts (fst slot) (snd slot)) of
                       Inl e \<Rightarrow> (st\<lparr>pr_partial := pr_partial st @ [slot]\<rparr>, Inl e)
                     | Inr a \<Rightarrow>
                         (let g = pilot_grade_obj pilot (snd slot) a in (st\<lparr>pr_grades := pr_grades st @ [(slot, g)]\<rparr>, row g)))))"

fun attempt_rows :: "pilot_setup \<Rightarrow> string \<Rightarrow> (string \<Rightarrow> nat \<Rightarrow> host5) \<Rightarrow> pilot_run \<Rightarrow> (string \<times> nat) list \<Rightarrow> pilot_run \<times> pyval list res" where
  "attempt_rows su pilot hosts st [] = (st, Inr [])"
| "attempt_rows su pilot hosts st (slot # slots) =
     (case attempt_row su pilot hosts st slot of
        (t, Inl e) \<Rightarrow> (t, Inl e)
      | (t, Inr r) \<Rightarrow> (case attempt_rows su pilot hosts t slots of
          (u, Inl e) \<Rightarrow> (u, Inl e)
        | (u, Inr rs) \<Rightarrow> (u, Inr (r # rs))))"

definition pilot_slots :: "jobj list \<Rightarrow> int \<Rightarrow> (string \<times> nat) list" where
  "pilot_slots ms attempts = concat (map (\<lambda>m. map (\<lambda>a. (str_of (jget m ''key''), a)) [1..<Suc (nat attempts)]) ms)"

definition pilot_summary :: "string \<Rightarrow> string \<Rightarrow> pyval list \<Rightarrow> jobj" where
  "pilot_summary pilot pack rows =
     [(''schema_version'', PInt 2), (''fingerprint_scope'', PStr ''scenario''), (''pilot_id'', PStr pilot), (''pack'', PStr pack),
      (''canonical_score'', PBool False), (''attempts'', PList rows)]"

definition pilot_checks :: "pilot_setup \<Rightarrow> bool \<Rightarrow> jobj \<Rightarrow> string list option \<Rightarrow> int \<Rightarrow> int option \<Rightarrow> jobj list res" where
  "pilot_checks su factory config model_keys attempts timeout =
     res_bind (ps_validate su False config) (\<lambda>_.
     res_bind (ps_assets su) (\<lambda>_.
     res_bind (check_arguments attempts timeout) (\<lambda>_.
     res_bind (chosen_models config model_keys) (\<lambda>ms.
     res_bind (if factory then Inr () else ps_validate su True config) (\<lambda>_. Inr ms)))))"

definition pilot_identity :: "pilot_setup \<Rightarrow> string \<Rightarrow> jobj option \<Rightarrow> string res" where
  "pilot_identity su pilot saved =
     res_bind (ps_pack su) (\<lambda>_. res_bind (ps_fingerprint su) (\<lambda>pack. res_bind (check_saved pilot pack saved) (\<lambda>_. Inr pack)))"

definition run_pilot ::
  "pilot_setup \<Rightarrow> string \<Rightarrow> (string \<Rightarrow> nat \<Rightarrow> host5) \<Rightarrow> bool \<Rightarrow> jobj \<Rightarrow> string list option \<Rightarrow> int \<Rightarrow> int option \<Rightarrow> pilot_run
     \<Rightarrow> pilot_run \<times> unit res" where
  "run_pilot su pilot hosts factory config model_keys attempts timeout st =
     (case pilot_checks su factory config model_keys attempts timeout of
        Inl e \<Rightarrow> (st, Inl e)
      | Inr ms \<Rightarrow>
          if (case pr_config st of None \<Rightarrow> False | Some v \<Rightarrow> \<not> py_eq v (PDict config))
          then (st, Inl (ValueError ''pilot resume config does not match saved config.json''))
          else let st1 = (case pr_config st of None \<Rightarrow> st\<lparr>pr_config := Some (PDict config)\<rparr> | Some _ \<Rightarrow> st) in
            (case pilot_identity su pilot (pr_summary st1) of
               Inl e \<Rightarrow> (st1, Inl e)
             | Inr pack \<Rightarrow>
                 (case attempt_rows su pilot hosts st1 (pilot_slots ms attempts) of
                    (st2, Inl e) \<Rightarrow> (st2, Inl e)
                  | (st2, Inr rows) \<Rightarrow>
                      (let summary = pilot_summary pilot pack rows; st3 = st2\<lparr>pr_summary := Some summary\<rparr> in
                       (case ps_render su summary of
                          Inl e \<Rightarrow> (st3, Inl e)
                        | Inr text \<Rightarrow> (st3\<lparr>pr_report := Some text\<rparr>, Inr ()))))))"

section \<open>No evidence is overwritten, and a finished pilot resumes to itself\<close>

lemma wf_py_eq: "wf_val v \<Longrightarrow> py_eq v v"
  and wf_py_sub: "\<lbrakk>wf_dict d; \<And>k v. (k, v) \<in> set d \<Longrightarrow> map_of e k = Some v\<rbrakk> \<Longrightarrow> py_sub d e"
  and wf_py_eqs: "wf_list xs \<Longrightarrow> py_eqs xs xs"
proof (induction v and d and xs arbitrary: and e and rule: wf_val_wf_dict_wf_list.induct)
  case (1 d)
  then show ?case by (simp add: dict_wf_def)
next
  case (5 k v d)
  have "map_of e k = Some v" using 5(4) [of k v] by simp
  moreover have "py_sub d e" using 5(2) 5(3) 5(4) by simp
  ultimately show ?case using 5(1,3) by simp
qed (simp_all add: py_num_def)

definition saved_row :: "string \<Rightarrow> jobj \<Rightarrow> pyval" where
  "saved_row model g = PDict [(''model'', PStr model), (''grade'', PDict g)]"

text \<open>The grades on disk are those of the rows, and all of them are of this pilot.\<close>

definition rows_saved :: "string \<Rightarrow> pilot_run \<Rightarrow> (string \<times> nat) list \<Rightarrow> pyval list \<Rightarrow> bool" where
  "rows_saved pilot st slots rows \<longleftrightarrow>
     list_all2 (\<lambda>slot row. \<exists>g. map_of (pr_grades st) slot = Some g \<and> jget g ''pilot_id'' = PStr pilot \<and> row = saved_row (fst slot) g)
       slots rows"

definition grades_kept :: "pilot_run \<Rightarrow> pilot_run \<Rightarrow> bool" where
  "grades_kept st t \<longleftrightarrow> (\<forall>slot g. map_of (pr_grades st) slot = Some g \<longrightarrow> map_of (pr_grades t) slot = Some g)
     \<and> set (pr_partial st) \<subseteq> set (pr_partial t)"

lemma grades_kept_refl [simp]: "grades_kept st st" by (simp add: grades_kept_def)

lemma grades_kept_trans: "\<lbrakk>grades_kept st t; grades_kept t u\<rbrakk> \<Longrightarrow> grades_kept st u"
  unfolding grades_kept_def by blast

lemma attempt_row_facts:
  assumes "attempt_row su pilot hosts st slot = (t, r)"
  shows "grades_kept st t" and "pr_config t = pr_config st" and "pr_summary t = pr_summary st"
    and "r = Inr row \<Longrightarrow> rows_saved pilot t [slot] [row]"
  using assms
  by (auto simp: attempt_row_def grades_kept_def rows_saved_def saved_row_def Let_def map_add_def
      split: option.splits sum.splits if_splits)

lemma rows_saved_mono: "\<lbrakk>rows_saved pilot st slots rows; grades_kept st t\<rbrakk> \<Longrightarrow> rows_saved pilot t slots rows"
  unfolding rows_saved_def grades_kept_def by (erule list_all2_mono) blast

lemma attempt_rows_facts:
  "attempt_rows su pilot hosts st slots = (t, r) \<Longrightarrow>
     grades_kept st t \<and> pr_config t = pr_config st \<and> pr_summary t = pr_summary st
     \<and> (\<forall>rows. r = Inr rows \<longrightarrow> rows_saved pilot t slots rows)"
proof (induction slots arbitrary: st t r)
  case Nil
  then show ?case by (auto simp: rows_saved_def)
next
  case (Cons slot slots)
  obtain u x where one: "attempt_row su pilot hosts st slot = (u, x)" by (cases "attempt_row su pilot hosts st slot")
  note facts = attempt_row_facts [OF one]
  show ?case
  proof (cases x)
    case (Inl e)
    then show ?thesis using Cons.prems facts by (auto simp: one)
  next
    case (Inr row)
    obtain v y where rest: "attempt_rows su pilot hosts u slots = (v, y)" by (cases "attempt_rows su pilot hosts u slots")
    note ih = Cons.IH [OF rest]
    have v: "t = v" and y: "r = (case y of Inl e \<Rightarrow> Inl e | Inr rs \<Rightarrow> Inr (row # rs))"
      using Cons.prems by (auto simp: one Inr rest split: sum.splits)
    have "rows_saved pilot v [slot] [row]" using rows_saved_mono facts(4) [OF Inr] ih by blast
    then have "\<forall>rs. y = Inr rs \<longrightarrow> rows_saved pilot v (slot # slots) (row # rs)" using ih by (simp add: rows_saved_def)
    moreover have "grades_kept st v" using grades_kept_trans facts(1) ih by blast
    ultimately show ?thesis using facts(2,3) ih by (auto simp: v y split: sum.splits)
  qed
qed

text \<open>With every slot graded, the loop reads the grades and changes nothing.\<close>

lemma attempt_rows_again: "rows_saved pilot st slots rows \<Longrightarrow> attempt_rows su pilot hosts st slots = (st, Inr rows)"
  unfolding rows_saved_def by (induction rule: list_all2_induct) (auto simp: attempt_row_def saved_row_def)

lemma check_saved_own: "check_saved pilot pack (Some (pilot_summary pilot pack rows)) = Inr ()"
  by (simp add: check_saved_def pilot_summary_def jget_def dict_get_def py_num_def)

lemma run_pilot_ok:
  assumes "run_pilot su pilot hosts factory config keys attempts timeout st = (st', Inr ())"
  obtains ms v pack t rows body where
    "pilot_checks su factory config keys attempts timeout = Inr ms"
    "pr_config st' = Some v" "pr_config st = None \<and> v = PDict config \<or> pr_config st = Some v \<and> py_eq v (PDict config)"
    "ps_pack su = Inr ()" "ps_fingerprint su = Inr pack" "rows_saved pilot st' (pilot_slots ms attempts) rows"
    "ps_render su (pilot_summary pilot pack rows) = Inr body"
    "pr_summary st' = Some (pilot_summary pilot pack rows)" "pr_report st' = Some body"
proof -
  define st1 where "st1 = (case pr_config st of None \<Rightarrow> st\<lparr>pr_config := Some (PDict config)\<rparr> | Some _ \<Rightarrow> st)"
  obtain ms where ms: "pilot_checks su factory config keys attempts timeout = Inr ms"
    using assms by (auto simp: run_pilot_def split: sum.splits)
  obtain v where v: "pr_config st1 = Some v" "pr_config st = None \<and> v = PDict config \<or> pr_config st = Some v \<and> py_eq v (PDict config)"
    using assms by (auto simp: run_pilot_def ms st1_def split: option.splits if_splits)
  obtain pack where pack: "pilot_identity su pilot (pr_summary st1) = Inr pack"
    using assms by (auto simp: run_pilot_def ms Let_def st1_def [symmetric] split: sum.splits if_splits)
  obtain t rows where t: "attempt_rows su pilot hosts st1 (pilot_slots ms attempts) = (t, Inr rows)"
    using assms by (auto simp: run_pilot_def ms Let_def st1_def [symmetric] pack split: sum.splits prod.splits if_splits)
  obtain body where body: "ps_render su (pilot_summary pilot pack rows) = Inr body"
    and st': "st' = t\<lparr>pr_summary := Some (pilot_summary pilot pack rows), pr_report := Some body\<rparr>"
    using assms by (auto simp: run_pilot_def ms Let_def st1_def [symmetric] pack t split: sum.splits if_splits)
  show thesis
  proof (rule that [OF ms _ v(2) _ _ _ body])
    show "pr_config st' = Some v" using attempt_rows_facts [OF t] v(1) by (simp add: st')
    show "ps_pack su = Inr ()" "ps_fingerprint su = Inr pack" using pack by (auto simp: pilot_identity_def res_bind_Inr_iff)
    show "rows_saved pilot st' (pilot_slots ms attempts) rows" using attempt_rows_facts [OF t] by (simp add: st' rows_saved_def)
  qed (simp_all add: st')
qed

lemma run_pilot_kept:
  assumes "run_pilot su pilot hosts factory config keys attempts timeout st = (st', r)"
  shows "grades_kept st st'"
proof -
  define st1 where "st1 = (case pr_config st of None \<Rightarrow> st\<lparr>pr_config := Some (PDict config)\<rparr> | Some _ \<Rightarrow> st)"
  have st1: "grades_kept st st1" by (simp add: st1_def grades_kept_def split: option.splits)
  have rows: "grades_kept st t" if "attempt_rows su pilot hosts st1 slots = (t, x)" for t slots x
    using grades_kept_trans [OF st1] attempt_rows_facts [OF that] by blast
  have more: "grades_kept st (t\<lparr>pr_summary := a\<rparr>)" "grades_kept st (t\<lparr>pr_summary := a, pr_report := b\<rparr>)" if "grades_kept st t" for t a b
    using that by (simp_all add: grades_kept_def)
  show ?thesis using assms st1
    unfolding run_pilot_def Let_def st1_def [symmetric]
    by (auto simp: more dest!: rows split: sum.splits prod.splits if_split_asm)
qed

definition pilot_rows :: "pilot_run \<Rightarrow> (string \<times> nat) list \<Rightarrow> pyval list" where
  "pilot_rows st slots = map (\<lambda>slot. saved_row (fst slot) (the (map_of (pr_grades st) slot))) slots"

lemma rows_saved_rows: "rows_saved pilot st slots rows \<Longrightarrow> rows = pilot_rows st slots"
  unfolding rows_saved_def pilot_rows_def by (induction rule: list_all2_induct) auto


text \<open>An instance: one model, two attempts, the first of them graded by an earlier run.\<close>

definition demo_setup :: pilot_setup where
  "demo_setup =
     \<lparr>ps_validate = (\<lambda>_ _. Inr ()), ps_pack = Inr (), ps_assets = Inr (demo_source, demo_pilot_task), ps_fingerprint = Inr ''sha256:0'',
      ps_attempt = pilot_attempt (\<lambda>_. []) (=) id (\<lambda>_ _. []), ps_render = (\<lambda>_. Inr ''report'')\<rparr>"

definition demo_pilot_config :: jobj where
  "demo_pilot_config = [(''models'', PList [PDict [(''key'', PStr ''m''), (''transport'', PStr ''codex_cli'')]]), (''timeout_seconds'', PInt 60)]"

definition demo_pilot_run :: pilot_run where
  "demo_pilot_run = \<lparr>pr_config = Some (PDict demo_pilot_config), pr_summary = None, pr_report = None,
     pr_grades = [((''m'', 1), [(''pilot_id'', PStr PILOT_ID)])], pr_partial = []\<rparr>"

lemma demo_pilot_checks:
  "pilot_checks demo_setup True demo_pilot_config None 2 None = Inr [[(''key'', PStr ''m''), (''transport'', PStr ''codex_cli'')]]"
  by code_simp

lemma demo_pilot_runs:
  "\<exists>st'. run_pilot demo_setup PILOT_ID (\<lambda>_ _. demo_pilot_host) True demo_pilot_config None 2 None demo_pilot_run = (st', Inr ())"
proof -
  obtain a where a: "pilot_attempt (\<lambda>_. []) (=) id (\<lambda>_ _. []) (Inr (demo_source, demo_pilot_task)) demo_pilot_host = Inr a"
    using demo_pilot_attempt
    by (cases "pilot_attempt (\<lambda>_. []) (=) id (\<lambda>_ _. []) (Inr (demo_source, demo_pilot_task)) demo_pilot_host") auto
  have slots: "pilot_slots [[(''key'', PStr ''m''), (''transport'', PStr ''codex_cli'')]] 2 = [(''m'', 1), (''m'', 2)]" by code_simp
  have id: "jget (pilot_grade_obj PILOT_ID 2 a) ''pilot_id'' = PStr PILOT_ID"
    by (simp add: pilot_grade_obj_def Let_def jget_def dict_get_def)
  have same: "py_eq (PDict demo_pilot_config) (PDict demo_pilot_config)" by code_simp
  have identity: "pilot_identity demo_setup PILOT_ID None = Inr ''sha256:0''" by (simp add: pilot_identity_def demo_setup_def check_saved_def)
  have "attempt_rows demo_setup PILOT_ID (\<lambda>_ _. demo_pilot_host) demo_pilot_run [(''m'', 1), (''m'', 2)]
     = (demo_pilot_run\<lparr>pr_grades := pr_grades demo_pilot_run @ [((''m'', 2), pilot_grade_obj PILOT_ID 2 a)]\<rparr>,
        Inr [saved_row ''m'' [(''pilot_id'', PStr PILOT_ID)], saved_row ''m'' (pilot_grade_obj PILOT_ID 2 a)])"
    by (simp add: attempt_row_def Let_def demo_pilot_run_def demo_setup_def a id saved_row_def jget_def [of "[_]"] dict_get_def)
  moreover have "pr_config demo_pilot_run = Some (PDict demo_pilot_config)" "pr_summary demo_pilot_run = None"
    by (simp_all add: demo_pilot_run_def)
  moreover have "ps_render demo_setup v = Inr ''report''" for v by (simp add: demo_setup_def)
  ultimately show ?thesis using same by (simp add: run_pilot_def demo_pilot_checks slots identity Let_def del: py_eq.simps)
qed


end
