(* ===== verification/Pilot_Honest.thy ===== *)
theory Pilot_Honest
  imports Pilot_Evidence
begin

text \<open>
  The writer and the reader of pilot evidence agree: what \<open>round5.py\<close> writes for an attempt passes every
  check of \<open>pilot_analysis.py\<close>, with the same verdicts, as long as the agent fills in its turn record
  and the patch names the files whose bytes changed.
\<close>

section \<open>What the agent and the directory have to keep\<close>

text \<open>The record that an agent returns for turn \<open>i\<close>.\<close>

definition honest_turn :: "nat \<Rightarrow> pilot_turn \<Rightarrow> bool" where
  "honest_turn i t \<longleftrightarrow>
     (\<exists>rc late s. tu_returncode t = PInt rc \<and> tu_timed_out t = PBool late \<and> tu_content t = PStr s)
     \<and> tu_sandbox t = PStr (sandbox_of i) \<and> tu_reason t \<in> {PNone, PStr ''timeout'', PStr ''unsupported_tool_loop''}
     \<and> (tu_aborted t \<longleftrightarrow> tu_reason t = PStr ''unsupported_tool_loop'') \<and> (tu_aborted t \<longrightarrow> MAX_UNSUPPORTED_CALLS \<le> tu_unsupported t)
     \<and> (\<exists>ws. check_wall (tu_wall t) = Inr ws) \<and> (\<exists>ns. check_tokens (tu_tokens t) = Inr ns)"

text \<open>The transcripts are on disk with the calls that the turn counted, the patch with the changed files.\<close>

definition kept_transcript :: "(string \<Rightarrow> string) \<Rightarrow> evidence \<Rightarrow> string list \<Rightarrow> nat \<Rightarrow> pilot_turn \<Rightarrow> bool" where
  "kept_transcript decode ev dir i t \<longleftrightarrow>
     (\<exists>ns. transcript_calls decode ev dir i = Inr ns \<and> tu_unsupported t = length ns \<and> tu_names t = sort (remdups ns))"

definition kept_files :: "(string \<Rightarrow> string) \<Rightarrow> evidence \<Rightarrow> string list \<Rightarrow> pilot_turn list \<Rightarrow> string list \<Rightarrow> bool" where
  "kept_files decode ev dir turns changes \<longleftrightarrow>
     list_all (\<lambda>(i, t). kept_transcript decode ev dir i t) (enumerate 1 turns)
     \<and> (\<exists>b. safe_file ev (dir @ [''changes.patch'']) = Inr b \<and> patch_files (decode b) = changes)"

section \<open>Turns\<close>

lemma jget_Cons: "jget ((k, v) # d) x = (if x = k then v else jget d x)"
  by (simp add: jget_def dict_get_def)

lemma jget_or_Cons: "jget_or ((k, v) # d) x y = (if x = k then v else jget_or d x y)"
  by (simp add: jget_or_def dict_get_def)

definition turn_dict :: "pilot_turn \<Rightarrow> jobj" where
  "turn_dict t =
     [(''content'', tu_content t), (''session_id'', tu_session t), (''wall'', tu_wall t), (''tokens'', tu_tokens t),
      (''timed_out'', tu_timed_out t), (''protocol_aborted'', PBool (tu_aborted t)), (''termination_reason'', tu_reason t),
      (''returncode'', tu_returncode t), (''sandbox'', tu_sandbox t), (''output_valid'', PBool (tu_valid t)),
      (''unsupported_tool_calls'', PInt (int (tu_unsupported t))), (''unsupported_tool_names'', str_list (tu_names t))]"

lemma turn_obj_dict: "turn_obj t = PDict (turn_dict t)"
  by (simp add: turn_obj_def turn_dict_def)

lemma turn_dict_get:
  "jget (turn_dict t) ''content'' = tu_content t" "jget (turn_dict t) ''session_id'' = tu_session t" "jget (turn_dict t) ''wall'' = tu_wall t"
  "jget (turn_dict t) ''tokens'' = tu_tokens t" "jget (turn_dict t) ''timed_out'' = tu_timed_out t"
  "jget (turn_dict t) ''protocol_aborted'' = PBool (tu_aborted t)" "jget_or (turn_dict t) ''protocol_aborted'' x = PBool (tu_aborted t)"
  "jget (turn_dict t) ''termination_reason'' = tu_reason t" "jget (turn_dict t) ''returncode'' = tu_returncode t"
  "jget (turn_dict t) ''sandbox'' = tu_sandbox t" "jget (turn_dict t) ''output_valid'' = PBool (tu_valid t)"
  by (simp_all add: turn_dict_def jget_Cons jget_or_Cons)

lemma turn_records_written: "turn_records (map turn_obj ts) = map (\<lambda>t. t\<lparr>tu_unsupported := 0, tu_names := []\<rparr>) ts"
proof -
  have "read_turn (turn_dict t) = t\<lparr>tu_unsupported := 0, tu_names := []\<rparr>" for t
    by (simp add: read_turn_def turn_dict_get)
  then show ?thesis by (simp add: turn_records_def turn_obj_dict o_def)
qed

lemma stop_reason_written: "attempt_stop_reason (turn_records (map turn_obj ts)) c = attempt_stop_reason ts c"
proof -
  let ?f = "\<lambda>t :: pilot_turn. t\<lparr>tu_unsupported := 0, tu_names := []\<rparr>"
  have "turn_ok (?f t) = turn_ok t" "turn_stop (?f t) = turn_stop t" for t by (simp_all add: turn_ok_def turn_stop_def)
  then show ?thesis by (simp add: attempt_stop_reason_def complete_turns_def turn_records_written list_all_iff map_filter_def o_def filter_map)
qed
lemma check_turn_written:
  assumes "honest_turn i t" and "\<And>s. tu_content t = PStr s \<Longrightarrow> tu_valid t \<longleftrightarrow> str_strip s \<noteq> []"
  shows "\<exists>x. check_turn (i, turn_obj t) = Inr x \<and> fst x = turn_ok t"
proof -
  obtain rc late s where t: "tu_returncode t = PInt rc" "tu_timed_out t = PBool late" "tu_content t = PStr s"
    using assms(1) unfolding honest_turn_def by blast
  obtain ws ns where w: "check_wall (tu_wall t) = Inr ws" "check_tokens (tu_tokens t) = Inr ns" using assms(1) unfolding honest_turn_def by blast
  have h: "tu_sandbox t = PStr (sandbox_of i)" "tu_reason t = PNone \<or> tu_reason t = PStr ''timeout'' \<or> tu_reason t = PStr ''unsupported_tool_loop''"
    "tu_aborted t \<longleftrightarrow> tu_reason t = PStr ''unsupported_tool_loop''"
    using assms(1) unfolding honest_turn_def by simp_all
  have "turn_transport i (turn_dict t) = Inr (s, rc = 0 \<and> \<not> late \<and> str_strip s \<noteq> [])"
    by (simp add: turn_transport_def Let_def turn_dict_get t h)
  moreover have "turn_abort (turn_dict t) = Inr ()"
    using h(2,3) by (auto simp: turn_abort_def Let_def turn_dict_get as_bool_def hashable_def)
  moreover have "tu_valid t \<longleftrightarrow> str_strip s \<noteq> []" using assms(2) t(3) by simp
  moreover have "turn_ok t \<longleftrightarrow> rc = 0 \<and> \<not> late \<and> str_strip s \<noteq> []"
    using \<open>tu_valid t \<longleftrightarrow> str_strip s \<noteq> []\<close> by (simp add: turn_ok_def t py_num_def)
  ultimately show ?thesis
    by (simp add: check_turn_def turn_obj_dict Public.as_obj_def turn_dict_get t w py_num_def fail_if_def)
qed

text \<open>Every turn of an attempt is read from the reply of the agent.\<close>

lemma turns_from_replies:
  assumes "pilot_turns strf sha agent before n ps s = Inr t" and "\<forall>x \<in> set (at_turns s). \<exists>r. x = turn_of strf r"
  shows "\<forall>x \<in> set (at_turns t). \<exists>r. x = turn_of strf r"
  using assms
proof (induction ps arbitrary: n s)
  case (Cons p ps)
  obtain u stop where u: "one_turn strf sha agent before n p s = Inr (u, stop)"
    "(if stop then Inr u else pilot_turns strf sha agent before (Suc n) ps u) = Inr t"
    using Cons.prems(1) by (auto simp: res_bind_Inr_iff)
  have "\<forall>x \<in> set (at_turns u). \<exists>r. x = turn_of strf r" by (rule one_turn_Inr [OF u(1)]) (use Cons.prems(2) in auto)
  then show ?case using Cons.IH u(2) by (cases stop) auto
qed simp

lemma turn_of_valid: "tu_content (turn_of strf r) = PStr s \<Longrightarrow> tu_valid (turn_of strf r) \<longleftrightarrow> str_strip s \<noteq> []"
  by (cases s) (auto simp: turn_of_def Let_def py_or_def jstr_def)

section \<open>The grade\<close>

lemma grade_facts:
  assumes "research_grade search sha turns before snaps source ws public hidden task = Inr g"
  obtains flds grading where "jget task ''grading'' = PDict grading"
    "report_fields (if turns = [] then PStr [] else tu_content (last turns)) = Inr flds"
    "grade_report search flds grading public (pg_final_changes g) = Inr (pg_report g)"
    "pg_stop g = attempt_stop_reason turns (pg_flattened g \<noteq> [])" "pg_complete g \<longleftrightarrow> complete_turns turns" "pg_aborted g \<longleftrightarrow> list_ex tu_aborted turns"
    "pg_turns g = length turns" "pg_unsupported g = sum_list (map tu_unsupported turns)" "pg_names g = sort (remdups (concat (map tu_names turns)))"
    "pg_public g = public" "pg_hidden g = hidden"
    "pg_release_ready g \<longleftrightarrow> complete_turns turns \<and> pg_flattened g = [] \<and> all_pass public \<and> all_pass hidden"
    "pg_final_changes g = ws_changed (ws_hashes sha source) (ws_hashes sha ws)"
proof -
  obtain flds grading rep where "jitem task ''grading'' = Inr (PDict grading)"
    "report_fields (if turns = [] then PStr [] else tu_content (last turns)) = Inr flds"
    "grade_report search flds grading public (ws_changed (ws_hashes sha source) (ws_hashes sha ws)) = Inr rep"
    "pg_final_changes g = ws_changed (ws_hashes sha source) (ws_hashes sha ws)" "pg_report g = rep"
    "pg_stop g = attempt_stop_reason turns (pg_flattened g \<noteq> [])" "pg_complete g \<longleftrightarrow> complete_turns turns" "pg_aborted g \<longleftrightarrow> list_ex tu_aborted turns"
    "pg_turns g = length turns" "pg_unsupported g = sum_list (map tu_unsupported turns)" "pg_names g = sort (remdups (concat (map tu_names turns)))"
    "pg_public g = public" "pg_hidden g = hidden"
    "pg_release_ready g \<longleftrightarrow> complete_turns turns \<and> pg_flattened g = [] \<and> all_pass public \<and> all_pass hidden"
  proof -
    obtain gv where gv: "jitem task ''grading'' = Inr gv" using assms unfolding research_grade_def Let_def by (auto simp: res_bind_Inr_iff)
    obtain grading where "gv = PDict grading"
      using assms unfolding research_grade_def Let_def by (cases gv) (auto simp: res_bind_Inr_iff gv Inspect.as_obj_def)
    then show thesis
      using assms that gv unfolding research_grade_def Let_def
      by (auto simp: res_bind_Inr_iff Inspect.as_obj_def simp del: sort_key_simps)
  qed
  moreover have "jget task ''grading'' = PDict grading"
    using \<open>jitem task ''grading'' = Inr (PDict grading)\<close> by (auto simp: jitem_def jget_def dict_get_def split: option.splits)
  ultimately show ?thesis using that by simp
qed

definition report_dict :: "final_report \<Rightarrow> jobj" where
  "report_dict r =
     [(''fields'', PDict (map (\<lambda>(k, v). (k, PStr v)) (fr_fields r))), (''complete'', PBool (fr_complete r)),
       (''root_cause_accurate'', PBool (fr_root_cause r)), (''invalidated_plan_accurate'', PBool (fr_invalidated r)),
       (''public_test_claim_accurate'', PBool (fr_public_claim r)), (''changed_files_claim_accurate'', PBool (fr_files_claim r)),
       (''accurate'', PBool (fr_accurate r))]"

lemma report_dict_claims:
  "list_ex (\<lambda>(k, b). \<not> py_eq (jget_or (report_dict r) k (PBool b)) (PBool b)) (report_claims r) = False"
  "jget (report_dict r) ''accurate'' = PBool (fr_accurate r)" "report_obj r = PDict (report_dict r)"
  by (simp_all add: report_claims_def report_dict_def report_obj_def jget_Cons jget_or_Cons py_num_def)

definition grade_dict :: "string \<Rightarrow> nat \<Rightarrow> attempt_files \<Rightarrow> jobj" where
  "grade_dict pilot n a = pilot_grade_obj pilot n a"

lemma grade_dict_get:
  "jget (grade_dict p n a) ''status'' = PStr (if pg_complete (af_grade a) then ''COMPLETE'' else ''INCOMPLETE'')"
  "jget_or (grade_dict p n a) ''stop_reason'' x = str_or_none (pg_stop (af_grade a))"
  "jget_or (grade_dict p n a) ''protocol_aborted'' x = PBool (pg_aborted (af_grade a))"
  "jget (grade_dict p n a) ''turns_completed'' = PInt (int (pg_turns (af_grade a)))"
  "jget (grade_dict p n a) ''no_edit_before_approval'' = PBool (pg_flattened (af_grade a) = [])"
  "jget (grade_dict p n a) ''evidence_revision_observed'' = PBool (pg_revision (af_grade a))"
  "jget_or (grade_dict p n a) ''tool_protocol_clean'' x = PBool (pg_unsupported (af_grade a) = 0)"
  "jget_or (grade_dict p n a) ''unsupported_tool_calls'' x = PInt (int (pg_unsupported (af_grade a)))"
  "jget_or (grade_dict p n a) ''unsupported_tool_names'' x = str_list (pg_names (af_grade a))"
  "jget (grade_dict p n a) ''public'' = test_obj (pg_public (af_grade a))" "jget (grade_dict p n a) ''hidden'' = test_obj (pg_hidden (af_grade a))"
  "jget (grade_dict p n a) ''release_ready'' = PBool (pg_release_ready (af_grade a))"
  "jget (grade_dict p n a) ''final_changed_files'' = str_list (pg_final_changes (af_grade a))"
  "jget (grade_dict p n a) ''final_report'' = PDict (report_dict (pg_report (af_grade a)))"
  "jget (grade_dict p n a) ''pilot_id'' = PStr p" "jget (grade_dict p n a) ''attempt'' = PInt (int n)"
  "jget (grade_dict p n a) ''turns'' = PList (map turn_obj (af_turns a))"
  unfolding grade_dict_def pilot_grade_obj_def Let_def by (simp_all add: jget_Cons jget_or_Cons report_dict_claims(3))

lemma saved_score_written:
  "tr_passed t \<le> tr_total t \<Longrightarrow> saved_score (test_obj t) f = Inr (t\<lparr>tr_returncode := None\<rparr>)"
  by (simp add: saved_score_def test_obj_def Let_def jget_Cons)

lemma grade_report_score: "grade_report search flds gr (t\<lparr>tr_returncode := x\<rparr>) cs = grade_report search flds gr t cs"
  by (simp add: grade_report_def ratio_text_def cong del: res_bind_weak_cong)

section \<open>The reader accepts what was written\<close>

lemma res_map_ex:
  "list_all (\<lambda>x. \<exists>y. f x = Inr y \<and> P x y) xs \<Longrightarrow> \<exists>ys. res_map f xs = Inr ys \<and> list_all2 P xs ys"
  by (induction xs) auto

lemma res_map_through: "res_map f (map g xs) = res_map (f \<circ> g) xs"
  by (induction xs) (auto split: sum.splits)

definition same_calls :: "pilot_turn \<Rightarrow> string list \<Rightarrow> bool" where
  "same_calls t ns \<longleftrightarrow> tu_unsupported t = length ns \<and> tu_names t = sort (remdups ns)"

lemma kept_calls:
  assumes "kept_files decode ev dir turns changes"
  obtains calls where "count_protocol_errors decode ev dir (length turns) = Inr calls" "list_all2 same_calls turns calls"
proof -
  have "list_all (\<lambda>it. \<exists>y. (transcript_calls decode ev dir \<circ> fst) it = Inr y \<and> same_calls (snd it) y) (enumerate 1 turns)"
    using assms by (auto simp: kept_files_def kept_transcript_def same_calls_def list_all_iff)
  from res_map_ex [OF this] obtain calls where calls: "res_map (transcript_calls decode ev dir \<circ> fst) (enumerate 1 turns) = Inr calls"
    "list_all2 (\<lambda>it y. same_calls (snd it) y) (enumerate 1 turns) calls"
    by blast
  have "count_protocol_errors decode ev dir (length turns) = Inr calls"
    using calls(1) by (simp add: count_protocol_errors_def res_map_through [symmetric])
  moreover have "list_all2 same_calls turns calls"
    using calls(2) list_all2_map1 [of same_calls snd "enumerate 1 turns" calls] by simp
  ultimately show ?thesis by (rule that)
qed

lemma same_calls_sums:
  assumes "list_all2 same_calls turns calls"
  shows "sum_list (map tu_unsupported turns) = length (concat calls)"
    and "sort (remdups (concat (map tu_names turns))) = sort (remdups (concat calls))"
proof -
  show "sum_list (map tu_unsupported turns) = length (concat calls)"
    using assms by (induction rule: list_all2_induct) (simp_all add: same_calls_def)
  have "set (concat (map tu_names turns)) = set (concat calls)"
    using assms by (induction rule: list_all2_induct) (simp_all add: same_calls_def)
  then show "sort (remdups (concat (map tu_names turns))) = sort (remdups (concat calls))"
    by (intro sorted_distinct_set_unique) simp_all
qed

lemma honest_turns_checked:
  assumes "list_all (\<lambda>(i, t). honest_turn i t) (enumerate 1 turns)" and "\<forall>t \<in> set turns. \<exists>r. t = turn_of strf r"
  obtains checked where "res_map check_turn (enumerate 1 (map turn_obj turns)) = Inr checked" "list_all fst checked = list_all turn_ok turns"
proof -
  let ?f = "\<lambda>(i, t). (i :: nat, turn_obj t)"
  have "\<exists>y. (check_turn \<circ> ?f) it = Inr y \<and> fst y = turn_ok (snd it)" if it: "it \<in> set (enumerate 1 turns)" for it
  proof -
    obtain i t where "it = (i, t)" "honest_turn i t" "t \<in> set turns"
      using it assms(1) by (metis (mono_tags, lifting) case_prodE enumerate_eq_zip in_set_zipE list_all_iff)
    then show ?thesis using assms(2) check_turn_written turn_of_valid by fastforce
  qed
  then have "list_all (\<lambda>it. \<exists>y. (check_turn \<circ> ?f) it = Inr y \<and> fst y = turn_ok (snd it)) (enumerate 1 turns)"
    by (simp only: list_all_iff) blast
  from res_map_ex [OF this] obtain checked where
    c: "res_map (check_turn \<circ> ?f) (enumerate 1 turns) = Inr checked" "list_all2 (\<lambda>it y. fst y = turn_ok (snd it)) (enumerate 1 turns) checked"
    by blast
  have "enumerate 1 (map turn_obj turns) = map ?f (enumerate 1 turns)" by (simp add: enumerate_map_upt enumerate_eq_zip zip_map2)
  then have "res_map check_turn (enumerate 1 (map turn_obj turns)) = Inr checked" using c(1) by (simp add: res_map_through)
  moreover have "list_all fst checked = list_all (turn_ok \<circ> snd) (enumerate 1 turns)"
    using c(2) by (induction rule: list_all2_induct) simp_all
  then have "list_all fst checked = list_all turn_ok turns" by (simp add: list.pred_map [symmetric])
  ultimately show ?thesis by (rule that)
qed

lemma written_grade_validates:
  assumes "pilot_attempt strf search sha differ (Inr (source, task)) h = Inr a" and "assets pilot = Inr (source, task)"
    and "jget task ''grading'' = PDict grading" and "list_all (\<lambda>(i, t). honest_turn i t) (enumerate 1 (af_turns a))"
    and "kept_files decode ev dir (af_turns a) (pg_final_changes (af_grade a))"
    and "tr_passed (pg_public (af_grade a)) \<le> tr_total (pg_public (af_grade a))"
    and "tr_passed (pg_hidden (af_grade a)) \<le> tr_total (pg_hidden (af_grade a))"
  shows "\<exists>me. validated_grade assets search decode ev dir grading (PDict (grade_dict pilot n a)) = Inr me
    \<and> me_complete me = pg_complete (af_grade a) \<and> me_stop me = pg_stop (af_grade a) \<and> me_release me = pg_release_ready (af_grade a)
    \<and> length (me_calls me) = pg_unsupported (af_grade a) \<and> me_accurate me = fr_accurate (pg_report (af_grade a))
    \<and> me_aborted me = pg_aborted (af_grade a)"
proof -
  define turns g where "turns = af_turns a" and "g = af_grade a"
  obtain ps s ws public hidden before snaps where
    run: "pilot_turns strf sha (h5_agent h) before 1 ps \<lparr>at_space = copied source, at_session = PNone, at_turns = [], at_snaps = []\<rparr> = Inr s"
    and turns: "turns = at_turns s" and g: "research_grade search sha turns before snaps source ws public hidden task = Inr g"
    and three: "length turns \<le> 3"
  proof (rule attempt_unfold [OF assms(1)])
    fix source' task' ps s g'
    assume a: "Inr (source, task) = Inr (source', task')" "pilot_prompts task' = Inr ps"
      "pilot_turns strf sha (h5_agent h) (ws_hashes sha (copied source')) 1 ps
         \<lparr>at_space = copied source', at_session = PNone, at_turns = [], at_snaps = []\<rparr> = Inr s"
      "research_grade search sha (at_turns s) (ws_hashes sha (copied source')) (at_snaps s) source'
         (fst (h5_hidden h (fst (h5_public h (at_space s))))) (fst (test_of (snd (h5_public h (at_space s)))))
         (fst (test_of (snd (h5_hidden h (fst (h5_public h (at_space s))))))) task' = Inr g'"
      "af_grade a = g'" "af_turns a = at_turns s"
    obtain p1 p2 p3 where "ps = [p1, p2, p3]" using pilot_prompts_three [OF a(2)] by blast
    then have "length (at_turns s) \<le> 3" using pilot_turns_three(1) a(3) by blast
    then show thesis using that a by (auto simp: turns_def g_def)
  qed
  obtain flds grading' where gr: "jget task ''grading'' = PDict grading'"
    "report_fields (if turns = [] then PStr [] else tu_content (last turns)) = Inr flds"
    "grade_report search flds grading' public (pg_final_changes g) = Inr (pg_report g)"
    "pg_stop g = attempt_stop_reason turns (pg_flattened g \<noteq> [])" "pg_complete g \<longleftrightarrow> complete_turns turns" "pg_aborted g \<longleftrightarrow> list_ex tu_aborted turns"
    "pg_turns g = length turns" "pg_unsupported g = sum_list (map tu_unsupported turns)" "pg_names g = sort (remdups (concat (map tu_names turns)))"
    "pg_public g = public" "pg_hidden g = hidden"
    "pg_release_ready g \<longleftrightarrow> complete_turns turns \<and> pg_flattened g = [] \<and> all_pass public \<and> all_pass hidden"
    by (rule grade_facts [OF g])
  have "grading' = grading" using gr(1) assms(3) by simp
  note honest = assms(4) [folded turns_def] and kept = assms(5) [folded turns_def g_def] and
    le = assms(6,7) [folded g_def, unfolded gr(10,11)]
  have from_replies: "\<forall>t \<in> set turns. \<exists>r. t = turn_of strf r" using turns_from_replies [OF run] by (simp add: turns)
  obtain calls where calls: "count_protocol_errors decode ev dir (length turns) = Inr calls" "list_all2 same_calls turns calls"
    by (rule kept_calls [OF kept])
  note sums = same_calls_sums [OF calls(2)]
  obtain checked where checked: "res_map check_turn (enumerate 1 (map turn_obj turns)) = Inr checked" "list_all fst checked = list_all turn_ok turns"
    by (rule honest_turns_checked [OF honest from_replies])
  obtain b where patch: "safe_file ev (dir @ [''changes.patch'']) = Inr b" "patch_files (decode b) = pg_final_changes g"
    using kept unfolding kept_files_def by blast
  define sg where "sg = \<lparr>sg_status = (if pg_complete g then ''COMPLETE'' else ''INCOMPLETE''), sg_turns = length turns, sg_quiet = (pg_flattened g = []),
    sg_revised = pg_revision g, sg_ready = pg_release_ready g, sg_report = report_dict (pg_report g), sg_accurate = fr_accurate (pg_report g),
    sg_public = public\<lparr>tr_returncode := None\<rparr>, sg_hidden = hidden\<lparr>tr_returncode := None\<rparr>\<rparr>"
  have fields: "grade_fields assets (grade_dict pilot n a) = Inr sg"
    unfolding grade_fields_def grade_dict_get pyval.case assms(2) res_bind.simps grade_flag_def as_bool_def Public.as_obj_def report_dict_claims
      g_def [symmetric] gr(7,10,11) saved_score_written [OF le(1)] saved_score_written [OF le(2)] sg_def
    using three by (simp add: need_in_def in_str_set_def hashable_def fail_if_def str_of_def)
  have whole: "(length turns = 3 \<and> list_all fst checked) = pg_complete g" by (simp add: gr(5) complete_turns_def checked(2))
  have pass: "all_pass (t\<lparr>tr_returncode := None\<rparr>) = all_pass t" for t by (simp add: all_pass_def)
  have refl: "py_eq (str_or_none x) (str_or_none x)" "py_eq (str_list ns) (str_list ns)" for x ns
    using wf_py_eqs [of "map PStr ns"] by (simp_all add: str_or_none_def str_list_def wf_list_iff split: option.split)
  have records: "list_ex tu_aborted (turn_records (map turn_obj turns)) = pg_aborted g"
    by (simp add: turn_records_written gr(6) list_ex_iff)
  have threshold: "\<not> list_ex (\<lambda>(t, cs). tu_aborted t \<and> length cs < MAX_UNSUPPORTED_CALLS) (zip (turn_records (map turn_obj turns)) calls)"
  proof -
    have "MAX_UNSUPPORTED_CALLS \<le> length cs" if "(t, cs) \<in> set (zip turns calls)" "tu_aborted t" for t cs
    proof -
      have "honest_turn i t" if "(i, t) \<in> set (enumerate 1 turns)" for i using honest that by (auto simp: list_all_iff)
      moreover have "t \<in> snd ` set (enumerate 1 turns)" using set_zip_leftD [OF that(1)] by (metis list.set_map map_snd_enumerate)
      ultimately have "MAX_UNSUPPORTED_CALLS \<le> tu_unsupported t" using that(2) unfolding honest_turn_def by force
      moreover have "same_calls t cs" using calls(2) that(1) by (auto simp: list_all2_iff)
      ultimately show ?thesis by (simp add: same_calls_def)
    qed
    then show ?thesis by (force simp: list_ex_iff turn_records_written zip_map1 not_less)
  qed
  have stops: "check_stops (grade_dict pilot n a) sg (pg_complete g) (turn_records (map turn_obj turns)) calls = Inr ()"
    unfolding check_stops_def Let_def grade_dict_get g_def [symmetric] stop_reason_written records res_seq_Cons_Inr fail_if_Inr
    using threshold refl(1) [of "pg_stop g"] by (simp add: sg_def pass gr(4,5,12) py_num_def)
  have report: "recompute_report_accuracy search decode ev dir (grade_dict pilot n a) (sg_report sg)
      (if turn_records (map turn_obj turns) = [] then PStr [] else tu_content (last (turn_records (map turn_obj turns)))) (sg_public sg) grading
      = Inr (fr_accurate (pg_report g))"
  proof -
    have last_turn: "(if turn_records (map turn_obj turns) = [] then PStr [] else tu_content (last (turn_records (map turn_obj turns))))
        = (if turns = [] then PStr [] else tu_content (last turns))"
      by (simp add: turn_records_written last_map)
    show ?thesis
      unfolding recompute_report_accuracy_def patch(1) res_bind.simps Let_def grade_dict_get g_def [symmetric] patch(2) last_turn gr(2)
      using gr(3) by (simp add: sg_def grade_report_score \<open>grading' = grading\<close> report_dict_claims(1))
  qed
  have "check_calls (grade_dict pilot n a) calls = Inr ()"
    unfolding check_calls_def Let_def grade_dict_get g_def [symmetric] gr(8,9) sums fail_if_Inr
    using refl(2) by (simp add: py_num_def)
  moreover have "saved_turns (grade_dict pilot n a) (length turns) = Inr (map turn_obj turns)"
    by (simp add: saved_turns_def grade_dict_get turns_def)
  ultimately show ?thesis
    unfolding validated_grade_def Public.as_obj_def pyval.case res_bind.simps fields
    using calls(1) checked(1) stops report
    by (simp add: sg_def Let_def whole) (simp add: stop_reason_written gr(4,8) sums(1) records flip: g_def)
qed


text \<open>An instance: the finished attempt of the demonstration host, with empty transcripts.\<close>

definition demo_evidence :: evidence where
  "demo_evidence =
     \<lparr>ev_file = (\<lambda>p. if last p = ''changes.patch'' then Bytes ''--- a/app.py'' else Bytes []), ev_inside = (\<lambda>_. True)\<rparr>"

lemma demo_patch: "patch_files ''--- a/app.py'' = [''app.py'']"
  by code_simp

lemma demo_transcript: "transcript_calls id demo_evidence dir i = Inr []"
  by (simp add: transcript_calls_def safe_file_def demo_evidence_def no_calls)

lemma demo_written:
  obtains a where "pilot_attempt (\<lambda>_. []) (=) id (\<lambda>_ _. []) (Inr (demo_source, demo_pilot_task)) demo_pilot_host = Inr a"
    "af_turns a = at_turns demo_state" "pg_final_changes (af_grade a) = [''app.py'']"
    "all_pass (pg_public (af_grade a))" "all_pass (pg_hidden (af_grade a))" "pg_release_ready (af_grade a)"
    "pg_complete (af_grade a)" "pg_stop (af_grade a) = None" "\<not> pg_aborted (af_grade a)"
proof -
  obtain a where a: "pilot_attempt (\<lambda>_. []) (=) id (\<lambda>_ _. []) (Inr (demo_source, demo_pilot_task)) demo_pilot_host = Inr a"
    and ready: "pg_release_ready (af_grade a)"
    using demo_pilot_attempt
    by (cases "pilot_attempt (\<lambda>_. []) (=) id (\<lambda>_ _. []) (Inr (demo_source, demo_pilot_task)) demo_pilot_host") auto
  have "af_turns a = at_turns demo_state \<and> pg_final_changes (af_grade a) = [''app.py'']
      \<and> all_pass (pg_public (af_grade a)) \<and> all_pass (pg_hidden (af_grade a))
      \<and> pg_complete (af_grade a) \<and> pg_stop (af_grade a) = None \<and> \<not> pg_aborted (af_grade a)"
  proof (rule attempt_unfold [OF a])
    fix source task ps s g
    assume u: "Inr (demo_source, demo_pilot_task) = Inr (source, task)" "pilot_prompts task = Inr ps"
      "pilot_turns (\<lambda>_. []) id (h5_agent demo_pilot_host) (ws_hashes id (copied source)) 1 ps
         \<lparr>at_space = copied source, at_session = PNone, at_turns = [], at_snaps = []\<rparr> = Inr s"
      "research_grade (=) id (at_turns s) (ws_hashes id (copied source)) (at_snaps s) source
         (fst (h5_hidden demo_pilot_host (fst (h5_public demo_pilot_host (at_space s)))))
         (fst (test_of (snd (h5_public demo_pilot_host (at_space s)))))
         (fst (test_of (snd (h5_hidden demo_pilot_host (fst (h5_public demo_pilot_host (at_space s))))))) task = Inr g"
      "af_grade a = g" "af_turns a = at_turns s"
    have source: "source = demo_source" "task = demo_pilot_task" using u(1) by simp_all
    have s: "s = demo_state"
      using u(2,3) unfolding source demo_hashes(1,2) demo_pilot_prompts sum.inject by (auto simp only: demo_pilot_turns sum.inject)
    have w: "fst (h5_hidden demo_pilot_host (fst (h5_public demo_pilot_host (at_space s)))) = [(''app.py'', ''fixed'')]"
      by (simp add: s demo_pilot_host_def demo_state_def)
    have "ws_changed (ws_hashes id demo_source) (ws_hashes id [(''app.py'', ''fixed'')]) = [''app.py'']" by code_simp
    then have "pg_final_changes g = [''app.py'']" using u(4) unfolding w source by (rule_tac grade_facts) auto
    moreover have "all_pass (pg_public g) \<and> all_pass (pg_hidden g)"
      using ready unfolding u(5) by (rule_tac grade_facts [OF u(4)]) auto
    moreover have "pg_complete g" using ready unfolding u(5) by (rule_tac grade_facts [OF u(4)]) auto
    moreover from this have "pg_stop g = None" using release_grade(3) [OF u(4)] by simp
    moreover have "\<not> list_ex tu_aborted (at_turns demo_state)" by (simp add: demo_state_def demo_turn_of)
    then have "\<not> pg_aborted g" unfolding s [symmetric] by (rule_tac grade_facts [OF u(4)]) auto
    ultimately show ?thesis using u(5,6) s by simp
  qed
  then show ?thesis using that a ready by blast
qed

lemma demo_honest: "list_all (\<lambda>(i, t). honest_turn i t) (enumerate 1 (at_turns demo_state))"
proof -
  have "honest_turn i (turn_of (\<lambda>_. []) (demo_reply i (PStr ''s'') 0))" for i
  proof -
    have "check_wall PNone = Inr []" "check_tokens PNone = Inr []" by (simp_all add: check_wall_def check_tokens_def pure_num_def)
    moreover have "\<exists>late. \<not> late" by blast
    ultimately show ?thesis by (simp add: honest_turn_def demo_turn_of)
  qed
  moreover have "enumerate 1 (at_turns demo_state) = map (\<lambda>n. (n, turn_of (\<lambda>_. []) (demo_reply n (PStr ''s'') 0))) [1, 2, 3]"
    by (simp add: demo_state_def numeral_3_eq_3 numeral_2_eq_2)
  ultimately show ?thesis by simp
qed

lemma demo_kept: "kept_files id demo_evidence dir (at_turns demo_state) [''app.py'']"
proof -
  have "tu_unsupported t = 0 \<and> tu_names t = []" if "t \<in> set (at_turns demo_state)" for t
    using that by (auto simp: demo_state_def demo_turn_of)
  then have "list_all (\<lambda>(i, t). kept_transcript id demo_evidence dir i t) (enumerate 1 (at_turns demo_state))"
    by (auto simp: list_all_iff kept_transcript_def demo_transcript enumerate_eq_zip dest!: set_zip_rightD)
  moreover have "safe_file demo_evidence (dir @ [''changes.patch'']) = Inr ''--- a/app.py''"
    by (simp add: safe_file_def demo_evidence_def)
  ultimately show ?thesis by (simp add: kept_files_def demo_patch)
qed

lemma demo_grading: "jget demo_pilot_task ''grading'' = PDict (case jget demo_pilot_task ''grading'' of PDict d \<Rightarrow> d | _ \<Rightarrow> [])"
  by (simp add: demo_pilot_task_def jget_def dict_get_def)

lemma demo_validated:
  "\<exists>g me. validated_grade (\<lambda>_. Inr (demo_source, demo_pilot_task)) (=) id demo_evidence [''m'']
        (case jget demo_pilot_task ''grading'' of PDict d \<Rightarrow> d | _ \<Rightarrow> []) (PDict g) = Inr me
     \<and> me_release me \<and> me_complete me \<and> me_stop me = None \<and> \<not> me_aborted me"
proof (rule demo_written)
  fix a
  assume a: "pilot_attempt (\<lambda>_. []) (=) id (\<lambda>_ _. []) (Inr (demo_source, demo_pilot_task)) demo_pilot_host = Inr a"
    "af_turns a = at_turns demo_state" "pg_final_changes (af_grade a) = [''app.py'']"
    "all_pass (pg_public (af_grade a))" "all_pass (pg_hidden (af_grade a))" "pg_release_ready (af_grade a)"
    "pg_complete (af_grade a)" "pg_stop (af_grade a) = None" "\<not> pg_aborted (af_grade a)"
  have le: "tr_passed (pg_public (af_grade a)) \<le> tr_total (pg_public (af_grade a))"
    "tr_passed (pg_hidden (af_grade a)) \<le> tr_total (pg_hidden (af_grade a))"
    using a(4,5) by (simp_all add: all_pass_def)
  show ?thesis
    using written_grade_validates [OF a(1) _ demo_grading demo_honest [folded a(2)] demo_kept [folded a(2,3)] le,
        of "\<lambda>_. Inr (demo_source, demo_pilot_task)" PILOT_ID "[''m'']" 1] a(6-9) by auto
qed


section \<open>A run with evidence\<close>

text \<open>An attempt that stopped before its first turn, as a run directory holds it.\<close>

definition demo_zero_grade :: jobj where
  "demo_zero_grade =
     [(''pilot_id'', PStr PILOT_ID), (''attempt'', PInt 1), (''status'', PStr ''INCOMPLETE''), (''turns_completed'', PInt 0),
      (''no_edit_before_approval'', PBool True), (''evidence_revision_observed'', PBool False), (''release_ready'', PBool False),
      (''final_report'', PDict [(''accurate'', PBool False)]), (''stop_reason'', PStr ''incomplete_turns''),
      (''public'', PDict [(''passed'', PInt 1), (''total'', PInt 2), (''timed_out'', PBool False)]),
      (''hidden'', PDict [(''passed'', PInt 0), (''total'', PInt 0), (''timed_out'', PBool True)]),
      (''turns'', PList []), (''final_changed_files'', PList [PStr ''app.py''])]"

definition demo_pack :: string where
  "demo_pack = ''sha256:'' @ replicate 64 (CHR ''a'')"

definition demo_run_file :: "string list \<Rightarrow> evidence_entry" where
  "demo_run_file p = (if last p = ''changes.patch'' then Bytes ''--- a/app.py'' else Bytes (last p))"

definition demo_parse :: "string \<Rightarrow> pyval res" where
  "demo_parse s =
     (if s = ''config.json'' then Inr (PDict [(''models'', PList [PDict [(''key'', PStr ''m'')]])])
      else if s = ''pilot_summary.json''
      then Inr (PDict [(''schema_version'', PInt 2), (''fingerprint_scope'', PStr ''scenario''), (''pilot_id'', PStr PILOT_ID), (''pack'', PStr demo_pack),
                       (''canonical_score'', PBool False), (''attempts'', PList [PDict [(''model'', PStr ''m''), (''grade'', PDict demo_zero_grade)]])])
      else Inr (PDict demo_zero_grade))"

definition demo_pilot_env :: pilot_env where
  "demo_pilot_env =
     \<lparr>pe_assets = (\<lambda>_. Inr (demo_source, demo_pilot_task)), pe_contract = (\<lambda>_ _. Inr (jget demo_pilot_task ''grading'', ''installed-assets'')),
      pe_search = (=), pe_decode = (\<lambda>s. s), pe_parse = demo_parse, pe_identity = (\<lambda>_. ''id''), pe_text = (\<lambda>v. str_of v)\<rparr>"

lemma demo_collected_pilot:
  "map_sum id (map pt_key) (collect_pilot_attempts demo_pilot_env [(''run'', \<lparr>ev_file = demo_run_file, ev_inside = (\<lambda>_. True)\<rparr>)]) = Inr [''m'']"
  by code_simp


end
