(* ===== verification/Public_Pilot.thy ===== *)
theory Public_Pilot
  imports Pilot_Honest Export
begin

text \<open>
  Publishing pilots (\<open>src/llm_hardtest/public_pilots.py\<close>): the payload of a run, its validation, the archive
  and its loading. The payload rests on the attempts that \<open>Pilot_Evidence\<close> collects; the platform, the
  printers, SHA-256 and ZIP are parameters as in \<open>Export\<close>.

  The main results: an accepted bundle is coherent and names nothing private, and the row of an attempt
  that passed the evidence checks is refused in exactly one case.
\<close>

section \<open>Tables\<close>

definition ATTEMPT_FIELDS_V1 :: "string list" where
  "ATTEMPT_FIELDS_V1 = [''attempt'', ''status'', ''turns_completed'', ''no_edit_before_approval'', ''evidence_revision_observed'',
     ''tool_protocol_clean'', ''unsupported_tool_calls'', ''public'', ''hidden'', ''release_ready'', ''report_accurate'', ''wall_seconds'', ''tokens'']"

definition ATTEMPT_FIELDS_V2 :: "string list" where
  "ATTEMPT_FIELDS_V2 = ATTEMPT_FIELDS_V1 @ [''protocol_aborted'', ''stop_reason'']"

definition STOP_REASONS :: "string list" where
  "STOP_REASONS = [''unsupported_tool_loop'', ''timeout'', ''agent_exit'', ''missing_session'', ''empty_output'', ''preapproval_edit'', ''incomplete_turns'']"

section \<open>The payload\<close>

definition attempt_row_obj :: "int \<Rightarrow> attempt_metrics \<Rightarrow> jobj" where
  "attempt_row_obj attempt me =
     [(''attempt'', PInt attempt), (''status'', PStr (if me_complete me then ''COMPLETE'' else ''INCOMPLETE'')),
      (''turns_completed'', PInt (int (me_turns me))), (''no_edit_before_approval'', PBool (me_quiet me)),
      (''evidence_revision_observed'', PBool (me_revision me)), (''tool_protocol_clean'', PBool (me_calls me = [])),
      (''unsupported_tool_calls'', PInt (int (length (me_calls me)))), (''protocol_aborted'', PBool (me_aborted me)),
      (''stop_reason'', str_or_none (me_stop me)), (''public'', test_obj (me_public me)), (''hidden'', test_obj (me_hidden me)),
      (''release_ready'', PBool (me_release me)), (''report_accurate'', PBool (me_accurate me)),
      (''wall_seconds'', case me_wall me of None \<Rightarrow> PNone | Some q \<Rightarrow> PFloat q),
      (''tokens'', case me_tokens me of None \<Rightarrow> PNone | Some t \<Rightarrow> PInt t)]"

definition published_model :: "pilot_result list \<Rightarrow> nat \<times> jobj \<Rightarrow> (pyval \<times> string list) list" where
  "published_model attempts im =
     (case im of (i, model) \<Rightarrow>
        let rows = filter (\<lambda>r. jget model ''key'' = PStr (pt_key r)) attempts; named = public_model_name model i; meta = clean_metadata model i in
        if rows = [] then []
        else [(PDict [(''public_name'', PStr (fst named)), (''transport'', jget model ''transport''), (''parameters'', PDict (clean_parameters model)),
                 (''public_metadata'', PDict (fst meta)),
                 (''attempts'', PList (map (\<lambda>r. PDict (attempt_row_obj (pt_attempt r) (pt_metrics r))) (sort_key pt_attempt rows)))],
               snd named @ snd meta)])"

definition pilot_body :: "string \<Rightarrow> string \<Rightarrow> platform_info \<Rightarrow> pyval list \<Rightarrow> jobj" where
  "pilot_body pilot pack p models =
     [(''schema_version'', PInt 2), (''tool'', PDict [(''name'', PStr ''llm-hardtest-report''), (''version'', PStr version)]),
      (''pilot'', PDict [(''id'', PStr pilot), (''pack'', PStr pack), (''canonical_score'', PBool False)]),
      (''environment'', PDict (public_environment p)), (''models'', PList models), (''privacy'', PRIVACY)]"

definition with_pilot_id :: "(string \<Rightarrow> string) \<Rightarrow> (pyval \<Rightarrow> string) \<Rightarrow> jobj \<Rightarrow> jobj" where
  "with_pilot_id sha dumps body =
     [(''schema_version'', PInt 2), (''bundle_id'', PStr (bundle_id sha dumps body))] @ filter (\<lambda>(k, _). k \<noteq> ''schema_version'') body"

section \<open>Validation\<close>

definition pilot_err :: "string \<Rightarrow> exn" where
  "pilot_err msg = ValueError (''public pilot '' @ msg)"

definition pilot_model_err :: "nat \<Rightarrow> string \<Rightarrow> exn" where
  "pilot_model_err index msg = pilot_err (''model '' @ show_nat index @ '' '' @ msg)"

definition count_ok :: "pyval \<Rightarrow> bool" where
  "count_ok v = (case v of PInt n \<Rightarrow> 0 \<le> n | _ \<Rightarrow> False)"

definition validate_score :: "string \<Rightarrow> pyval \<Rightarrow> unit res" where
  "validate_score field v =
     (let e = pilot_err (field @ '' score is invalid'') in
      case v of
        PDict d \<Rightarrow>
          if key_set d \<noteq> {''passed'', ''total'', ''timed_out''} then Inl (pilot_err (field @ '' score has unexpected fields''))
          else fail_if (\<not> count_ok (jget d ''passed'') \<or> \<not> count_ok (jget d ''total'') \<or> int_of (jget d ''total'') < int_of (jget d ''passed'')
                        \<or> \<not> is_bool (jget d ''timed_out'')) e
      | _ \<Rightarrow> Inl (pilot_err (field @ '' score has unexpected fields'')))"

definition check_pilot_metadata :: "nat \<Rightarrow> string \<times> pyval \<Rightarrow> unit res" where
  "check_pilot_metadata index kv =
     (case kv of (k, v) \<Rightarrow>
        if k \<in> set METADATA_NUMERIC_FIELDS then check_number (\<lambda>q. 0 < q) (pilot_model_err index (''metadata '' @ k @ '' is invalid'')) v
        else fail_if (public_text 160 v = None) (pilot_model_err index (''metadata '' @ k @ '' is unsafe'')))"

definition check_pilot_parameter :: "nat \<Rightarrow> string \<times> pyval \<Rightarrow> unit res" where
  "check_pilot_parameter index kv =
     (case kv of (k, v) \<Rightarrow>
        let e = pilot_model_err index (''parameter '' @ k @ '' is invalid'') in
        if k = ''reasoning_effort'' then fail_if (public_text 32 v = None) e else check_number (\<lambda>q. 0 \<le> q) e v)"

definition validate_model_identity :: "nat \<Rightarrow> jobj \<Rightarrow> unit res" where
  "validate_model_identity index m =
     res_bind (res_seq
       [fail_if (public_text 160 (jget m ''public_name'') = None) (pilot_model_err index ''has an unsafe public_name''),
        fail_if (jget m ''transport'' \<noteq> PStr ''codex_cli'') (pilot_model_err index ''requires codex_cli transport'')]) (\<lambda>_.
     res_bind (Public.as_obj (pilot_model_err index ''metadata is not allowlisted'') (jget m ''public_metadata'')) (\<lambda>meta.
     res_bind (fail_if (\<not> key_set meta \<subseteq> set METADATA_FIELDS) (pilot_model_err index ''metadata is not allowlisted'')) (\<lambda>_.
     res_bind (Public.as_obj (pilot_model_err index ''parameters are not allowlisted'') (jget m ''parameters'')) (\<lambda>ps. res_seq
       [fail_if (\<not> key_set ps \<subseteq> set PARAMETER_FIELDS) (pilot_model_err index ''parameters are not allowlisted''),
        res_all (check_pilot_metadata index) meta, res_all (check_pilot_parameter index) ps]))))"

text \<open>The fields of the second schema; \<open>aborted\<close> and \<open>stop\<close> have to tell one story.\<close>

definition check_abort :: "nat \<Rightarrow> jobj \<Rightarrow> unit res" where
  "check_abort index row =
     (let aborted = jget row ''protocol_aborted''; stop = jget row ''stop_reason'' in res_seq
        [fail_if (\<not> is_bool aborted) (pilot_err ''protocol_aborted must be boolean''),
         (if stop = PNone then Inr () else need_in stop STOP_REASONS (pilot_err ''stop_reason is invalid'')),
         fail_if (aborted \<noteq> PBool (stop = PStr ''unsupported_tool_loop'')) (pilot_err ''protocol-abort fields contradict''),
         fail_if (aborted = PBool True \<and> int_of (jget row ''unsupported_tool_calls'') < int MAX_UNSUPPORTED_CALLS)
           (pilot_err ''protocol abort lacks threshold evidence''),
         fail_if (jget row ''status'' = PStr ''COMPLETE'' \<and> stop \<noteq> PNone) (ValueError ''complete public pilot cannot have a stop_reason''),
         fail_if (jget row ''status'' = PStr ''INCOMPLETE'' \<and> stop = PNone) (ValueError ''incomplete public pilot requires a stop_reason'')])"

definition score_full :: "pyval \<Rightarrow> bool" where
  "score_full v = (case v of PDict d \<Rightarrow> 0 < int_of (jget d ''total'') \<and> jget d ''passed'' = jget d ''total'' | _ \<Rightarrow> False)"

definition row_release :: "jobj \<Rightarrow> bool" where
  "row_release row \<longleftrightarrow>
     jget row ''status'' = PStr ''COMPLETE'' \<and> jget row ''no_edit_before_approval'' = PBool True
     \<and> score_full (jget row ''public'') \<and> score_full (jget row ''hidden'')"

definition check_row_fields :: "bool \<Rightarrow> nat \<Rightarrow> jobj \<Rightarrow> unit res" where
  "check_row_fields v2 index row = res_seq
     ([need_in (jget row ''status'') [''COMPLETE'', ''INCOMPLETE''] (pilot_model_err index ''status is invalid''),
       fail_if (\<not> count_ok (jget row ''turns_completed'') \<or> 3 < int_of (jget row ''turns_completed'')) (pilot_model_err index ''turns are invalid''),
       fail_if (jget row ''status'' = PStr ''COMPLETE'' \<and> int_of (jget row ''turns_completed'') \<noteq> 3)
         (ValueError ''complete public pilot requires all three turns'')]
      @ map (\<lambda>k. fail_if (\<not> is_bool (jget row k)) (pilot_err (''attempt '' @ k @ '' must be boolean'')))
          [''no_edit_before_approval'', ''evidence_revision_observed'', ''tool_protocol_clean'', ''release_ready'', ''report_accurate'']
      @ [fail_if (\<not> count_ok (jget row ''unsupported_tool_calls'')) (pilot_err ''unsupported_tool_calls is invalid''),
         fail_if (jget row ''tool_protocol_clean'' \<noteq> PBool (int_of (jget row ''unsupported_tool_calls'') = 0))
           (pilot_err ''tool protocol fields contradict''),
         (if v2 then check_abort index row else Inr ()),
         validate_score ''public'' (jget row ''public''), validate_score ''hidden'' (jget row ''hidden''),
         fail_if (jget row ''release_ready'' \<noteq> PBool (row_release row)) (pilot_err ''release_ready fields contradict''),
         (if jget row ''wall_seconds'' = PNone then Inr ()
          else check_number (\<lambda>q. 0 \<le> q) (pilot_err ''wall_seconds is invalid'') (jget row ''wall_seconds'')),
         fail_if (jget row ''tokens'' \<noteq> PNone \<and> \<not> count_ok (jget row ''tokens'')) (pilot_err ''tokens is invalid'')])"

text \<open>One row; the accumulator is the attempt numbers of the rows before it.\<close>

definition check_pilot_row :: "bool \<Rightarrow> nat \<Rightarrow> int list \<Rightarrow> pyval \<Rightarrow> int list res" where
  "check_pilot_row v2 index seen v =
     res_bind (Public.as_obj (pilot_model_err index ''has an invalid attempt row'') v) (\<lambda>row.
       if key_set row \<noteq> set (if v2 then ATTEMPT_FIELDS_V2 else ATTEMPT_FIELDS_V1) then Inl (pilot_model_err index ''has an invalid attempt row'')
       else (case jget row ''attempt'' of
               PInt n \<Rightarrow>
                 if n < 1 \<or> n \<in> set seen then Inl (pilot_model_err index ''attempt number is invalid'')
                 else res_bind (check_row_fields v2 index row) (\<lambda>_. Inr (seen @ [n]))
             | _ \<Rightarrow> Inl (pilot_model_err index ''attempt number is invalid'')))"

definition check_pilot_model :: "bool \<Rightarrow> nat \<times> pyval \<Rightarrow> unit res" where
  "check_pilot_model v2 iv =
     (case iv of (index, v) \<Rightarrow>
        res_bind (Public.as_obj (pilot_model_err index ''has unexpected fields'') v) (\<lambda>m.
          if key_set m \<noteq> {''public_name'', ''transport'', ''parameters'', ''public_metadata'', ''attempts''}
          then Inl (pilot_model_err index ''has unexpected fields'')
          else res_bind (validate_model_identity index m) (\<lambda>_.
               res_bind (Public.as_list (pilot_model_err index ''requires attempts'') (jget m ''attempts'')) (\<lambda>rows.
                 if rows = [] then Inl (pilot_model_err index ''requires attempts'')
                 else map_sum id (\<lambda>_. ()) (res_fold (check_pilot_row v2 index) [] rows)))))"

definition PILOT_TOP :: "string list" where
  "PILOT_TOP = [''schema_version'', ''bundle_id'', ''tool'', ''pilot'', ''environment'', ''models'', ''privacy'']"

definition pilot_schema :: "jobj \<Rightarrow> bool res" where
  "pilot_schema payload =
     (let v = jget payload ''schema_version''; e = ValueError ''public pilot result has unexpected top-level fields'' in
      if key_set payload \<noteq> set PILOT_TOP then Inl e
      else if \<not> hashable v then Inl (TypeError ''unhashable type'')
      else if py_eq v (PInt 1) then Inr False else if py_eq v (PInt 2) then Inr True else Inl e)"

definition check_pilot_tool :: "pyval \<Rightarrow> unit res" where
  "check_pilot_tool v =
     (let e = pilot_err ''tool identity is invalid'' in
      res_bind (Public.as_obj e v) (\<lambda>d.
        fail_if (key_set d \<noteq> {''name'', ''version''} \<or> jget d ''name'' \<noteq> PStr ''llm-hardtest-report'' \<or> public_text 32 (jget d ''version'') = None) e))"

definition check_pilot_identity :: "pyval \<Rightarrow> unit res" where
  "check_pilot_identity v =
     (let e = pilot_err ''identity is invalid'' in
      res_bind (Public.as_obj e v) (\<lambda>d.
        fail_if (key_set d \<noteq> {''id'', ''pack'', ''canonical_score''} \<or> public_text 80 (jget d ''id'') = None \<or> \<not> fingerprint_ok (jget d ''pack'')
                 \<or> jget d ''canonical_score'' \<noteq> PBool False) e))"

definition check_pilot_environment :: "pyval \<Rightarrow> unit res" where
  "check_pilot_environment v =
     (let e = pilot_err ''environment is invalid'' in
      res_bind (Public.as_obj e v) (\<lambda>d. res_seq
        [fail_if (key_set d \<noteq> {''os'', ''architecture'', ''python''}) e,
         need_in (jget d ''os'') [''Linux'', ''Darwin'', ''Windows'', ''Other''] e,
         fail_if (public_text 32 (jget d ''architecture'') = None \<or> \<not> python_version_ok (jget d ''python'')) e]))"

definition check_pilot_models :: "bool \<Rightarrow> pyval \<Rightarrow> unit res" where
  "check_pilot_models v2 v =
     (let e = ValueError ''public pilot result requires at least one model'' in
      res_bind (Public.as_list e v) (\<lambda>ms. if ms = [] then Inl e else res_all (check_pilot_model v2) (enumerate 1 ms)))"

definition pilot_bundle_id_ok :: "(string \<Rightarrow> string) \<Rightarrow> (pyval \<Rightarrow> string) \<Rightarrow> jobj \<Rightarrow> bool" where
  "pilot_bundle_id_ok sha dumps payload =
     (case jget payload ''bundle_id'' of
        PStr s \<Rightarrow> pack_ok s \<and> s = bundle_id sha dumps (filter (\<lambda>(k, _). k \<noteq> ''bundle_id'') payload)
      | _ \<Rightarrow> False)"

definition validate_public_pilot_result :: "(string \<Rightarrow> string) \<Rightarrow> (pyval \<Rightarrow> string) \<Rightarrow> pyval \<Rightarrow> pyval res" where
  "validate_public_pilot_result sha dumps v =
     res_bind (Public.as_obj (ValueError ''public pilot result must be a JSON object'') v) (\<lambda>payload.
     res_bind (pilot_schema payload) (\<lambda>v2.
     res_bind (res_seq
       [fail_if (\<not> pilot_bundle_id_ok sha dumps payload) (pilot_err ''bundle_id does not match its content''),
        check_pilot_tool (jget payload ''tool''), check_pilot_identity (jget payload ''pilot''),
        check_pilot_environment (jget payload ''environment''), check_pilot_models v2 (jget payload ''models''),
        fail_if (\<not> py_eq (jget payload ''privacy'') PRIVACY) (pilot_err ''privacy declaration is invalid''),
        res_all check_entry (walk ''root'' v),
        fail_if (2000000 < length (dumps v)) (pilot_err ''result is too large'')]) (\<lambda>_. Inr v)))"

section \<open>Building, exporting and loading\<close>

definition build_public_pilot_result ::
  "(string \<Rightarrow> string) \<Rightarrow> (pyval \<Rightarrow> string) \<Rightarrow> platform_info \<Rightarrow> pilot_env \<Rightarrow> string \<times> evidence \<Rightarrow> pyval res \<Rightarrow> (pyval \<times> string list) res" where
  "build_public_pilot_result sha dumps p env run config =
     res_bind (collect_pilot_attempts env [run]) (\<lambda>attempts.
     res_bind (res_bind config Inspect.as_obj) (\<lambda>c.
     let e = ValueError ''public pilot export requires configured models'' in
     res_bind (Public.as_list e (jget c ''models'')) (\<lambda>ms.
       if ms = [] then Inl e
       else res_bind (res_map Inspect.as_obj ms) (\<lambda>models.
       let built = concat (map (published_model attempts) (enumerate 1 models)); a = hd attempts in
       if list_ex (\<lambda>r. (pt_pilot r, pt_pack r) \<noteq> (pt_pilot a, pt_pack a)) attempts
       then Inl (ValueError ''one public pilot bundle cannot mix pilot or pack identities'')
       else let payload = PDict (with_pilot_id sha dumps (pilot_body (pt_pilot a) (pt_pack a) p (map fst built))) in
         res_bind (validate_public_pilot_result sha dumps payload) (\<lambda>_. Inr (payload, concat (map snd built)))))))"

definition pilot_notice :: string where
  "pilot_notice = ''This bundle contains a voluntary public Round 5 research summary.'' @ [newline]
     @ ''Preview submission.json before publishing it. No raw evidence is included.'' @ [newline]"

definition pilot_archive :: "(pyval \<Rightarrow> string) \<Rightarrow> (string \<Rightarrow> nat) \<Rightarrow> (string \<Rightarrow> pyval res) \<Rightarrow> string \<Rightarrow> pyval \<Rightarrow> bundle_file" where
  "pilot_archive pretty deflate loads name payload =
     (let document = pretty payload @ [newline] in
      \<lparr>bf_name = name, bf_link = False, bf_regular = True, bf_json = Inl (ValueError ''Expecting value''),
       bf_members = Some [(''submission.json'', length document, deflate document), (''PRIVACY.txt'', length pilot_notice, deflate pilot_notice)],
       bf_submission = loads document\<rparr>)"

definition export_public_pilot_bundle ::
  "(pyval \<Rightarrow> string) \<Rightarrow> (string \<Rightarrow> nat) \<Rightarrow> (string \<Rightarrow> pyval res) \<Rightarrow> (string \<Rightarrow> bool) \<Rightarrow> string \<Rightarrow> (pyval \<times> string list) res
     \<Rightarrow> (bundle_file \<times> pyval \<times> string list) res" where
  "export_public_pilot_bundle pretty deflate loads exists_at name built =
     (if str_lower (suffix_of name) \<noteq> ''.zip'' then Inl (ValueError ''public pilot output must use a .zip extension'')
      else if exists_at name then Inl (ValueError (''refusing to overwrite existing public pilot bundle: '' @ name))
      else res_bind built (\<lambda>(payload, warnings). Inr (pilot_archive pretty deflate loads name payload, payload, warnings)))"

definition load_public_pilot_bundle :: "(string \<Rightarrow> string) \<Rightarrow> (pyval \<Rightarrow> string) \<Rightarrow> bundle_file \<Rightarrow> pyval res" where
  "load_public_pilot_bundle sha dumps f =
     (let suffix = str_lower (suffix_of (bf_name f)) in
      if suffix = ''.json'' then res_bind (bf_json f) (validate_public_pilot_result sha dumps)
      else if suffix \<noteq> ''.zip'' then Inl (ValueError ''public pilot result must be a .json or .zip file'')
      else (case bf_members f of
              None \<Rightarrow> Inl (ValueError ''invalid public pilot bundle: File is not a zip file'')
            | Some ms \<Rightarrow>
                if map fst ms \<noteq> [''submission.json'', ''PRIVACY.txt''] then Inl (ValueError ''public pilot bundle contains unexpected files'')
                else if list_ex (\<lambda>(_, n, c). 2000000 < n \<or> 2000000 < c) ms then Inl (ValueError ''public pilot bundle is too large'')
                else res_bind (bf_submission f) (validate_public_pilot_result sha dumps)))"

section \<open>The row of an attempt with evidence\<close>

lemma check_wall_pos: "check_wall v = Inr ws \<Longrightarrow> \<forall>q \<in> set ws. 0 \<le> q"
  by (auto simp: check_wall_def res_bind_Inr_iff not_less split: option.splits if_splits)

lemma check_tokens_pos: "check_tokens v = Inr ns \<Longrightarrow> \<forall>n \<in> set ns. 0 \<le> n"
  by (auto simp: check_tokens_def not_less split: pyval.splits if_splits)

lemma check_turn_pos: "check_turn iv = Inr x \<Longrightarrow> (\<forall>q \<in> set (fst (snd x)). 0 \<le> q) \<and> (\<forall>n \<in> set (snd (snd x)). 0 \<le> n)"
  unfolding check_turn_def by (auto simp: res_bind_Inr_iff dest: check_wall_pos check_tokens_pos)

lemma saved_score_le: "saved_score v f = Inr t \<Longrightarrow> tr_passed t \<le> tr_total t"
proof -
  assume ok: "saved_score v f = Inr t"
  obtain d where d: "v = PDict d" using ok by (cases v) (simp_all add: saved_score_def Let_def)
  obtain p where p: "jget d ''passed'' = PInt p" using ok by (cases "jget d ''passed''") (simp_all add: saved_score_def d)
  obtain n where n: "jget d ''total'' = PInt n" using ok by (cases "jget d ''total''") (simp_all add: saved_score_def d p)
  obtain b where "jget d ''timed_out'' = PBool b" using ok by (cases "jget d ''timed_out''") (simp_all add: saved_score_def d p n)
  then show ?thesis using ok by (auto simp: saved_score_def d p n Let_def split: if_split_asm)
qed

lemma grade_fields_scores:
  assumes "grade_fields assets g = Inr s"
  shows "tr_passed (sg_public s) \<le> tr_total (sg_public s)" and "tr_passed (sg_hidden s) \<le> tr_total (sg_hidden s)"
proof -
  obtain pilot where "jget g ''pilot_id'' = PStr pilot" using assms by (cases "jget g ''pilot_id''") (simp_all add: grade_fields_def)
  then have "\<exists>v w. saved_score v ''public'' = Inr (sg_public s) \<and> saved_score w ''hidden'' = Inr (sg_hidden s)"
    using assms unfolding grade_fields_def by (auto simp: res_bind_Inr_iff)
  then show "tr_passed (sg_public s) \<le> tr_total (sg_public s)" and "tr_passed (sg_hidden s) \<le> tr_total (sg_hidden s)"
    using saved_score_le by blast+
qed

lemma validated_grade_bounds:
  assumes "validated_grade assets search decode ev dir grading v = Inr me"
  shows "tr_passed (me_public me) \<le> tr_total (me_public me)" and "tr_passed (me_hidden me) \<le> tr_total (me_hidden me)"
    and "me_wall me = Some q \<Longrightarrow> 0 \<le> q" and "me_tokens me = Some n \<Longrightarrow> 0 \<le> n"
proof -
  obtain g s ts checked where s: "grade_fields assets g = Inr s" and c: "res_map check_turn (enumerate 1 ts) = Inr checked"
    and me: "me_public me = sg_public s" "me_hidden me = sg_hidden s"
      "me_wall me = (let ws = concat (map (fst \<circ> snd) checked) in if ws = [] then None else Some (py_round 3 (sum_list ws)))"
      "me_tokens me = (let ns = concat (map (snd \<circ> snd) checked) in if ns = [] then None else Some (sum_list ns))"
    using assms unfolding validated_grade_def Let_def by (auto simp: res_bind_Inr_iff Public.as_obj_Inr)
  show "tr_passed (me_public me) \<le> tr_total (me_public me)" and "tr_passed (me_hidden me) \<le> tr_total (me_hidden me)"
    using grade_fields_scores [OF s] me by simp_all
  have pos: "(\<forall>q \<in> set (fst (snd x)). 0 \<le> q) \<and> (\<forall>n \<in> set (snd (snd x)). 0 \<le> n)" if mem: "x \<in> set checked" for x
  proof -
    obtain i where i: "i < length checked" "checked ! i = x" using mem by (auto simp: in_set_conv_nth)
    have "check_turn (enumerate 1 ts ! i) = Inr (checked ! i)" by (rule list_all2_nthD2 [OF res_map_Inr_all2 [OF c] i(1)])
    then have "check_turn (enumerate 1 ts ! i) = Inr x" by (simp only: i(2))
    then show ?thesis by (rule check_turn_pos)
  qed
  show "0 \<le> q" if "me_wall me = Some q"
  proof -
    have "0 \<le> sum_list (concat (map (fst \<circ> snd) checked))" using pos by (intro sum_list_nonneg) auto
    then have "0 \<le> py_round 3 (sum_list (concat (map (fst \<circ> snd) checked)))" using py_round_mono [of 0 "sum_list (concat (map (fst \<circ> snd) checked))" 3] py_round_of_int [of 3 0] by simp
    then show ?thesis using that me(3) by (auto simp: Let_def split: if_split_asm)
  qed
  show "0 \<le> n" if "me_tokens me = Some n"
  proof -
    have "0 \<le> sum_list (concat (map (snd \<circ> snd) checked))" using pos by (intro sum_list_nonneg) auto
    then show ?thesis using that me(4) by (auto simp: Let_def split: if_split_asm)
  qed
qed

lemma row_get:
  "jget (attempt_row_obj n me) ''attempt'' = PInt n" "jget (attempt_row_obj n me) ''status'' = PStr (if me_complete me then ''COMPLETE'' else ''INCOMPLETE'')"
  "jget (attempt_row_obj n me) ''turns_completed'' = PInt (int (me_turns me))" "jget (attempt_row_obj n me) ''no_edit_before_approval'' = PBool (me_quiet me)"
  "jget (attempt_row_obj n me) ''evidence_revision_observed'' = PBool (me_revision me)" "jget (attempt_row_obj n me) ''tool_protocol_clean'' = PBool (me_calls me = [])"
  "jget (attempt_row_obj n me) ''unsupported_tool_calls'' = PInt (int (length (me_calls me)))" "jget (attempt_row_obj n me) ''protocol_aborted'' = PBool (me_aborted me)"
  "jget (attempt_row_obj n me) ''stop_reason'' = str_or_none (me_stop me)" "jget (attempt_row_obj n me) ''public'' = test_obj (me_public me)"
  "jget (attempt_row_obj n me) ''hidden'' = test_obj (me_hidden me)" "jget (attempt_row_obj n me) ''release_ready'' = PBool (me_release me)"
  "jget (attempt_row_obj n me) ''report_accurate'' = PBool (me_accurate me)"
  "jget (attempt_row_obj n me) ''wall_seconds'' = (case me_wall me of None \<Rightarrow> PNone | Some q \<Rightarrow> PFloat q)"
  "jget (attempt_row_obj n me) ''tokens'' = (case me_tokens me of None \<Rightarrow> PNone | Some t \<Rightarrow> PInt t)"
  by (simp_all add: attempt_row_obj_def jget_Cons)

lemma row_keys: "key_set (attempt_row_obj n me) = set ATTEMPT_FIELDS_V2"
  by (auto simp: attempt_row_obj_def key_set_def ATTEMPT_FIELDS_V2_def ATTEMPT_FIELDS_V1_def)

lemma stop_reasons: "attempt_stop_reason ts b = Some s \<Longrightarrow> s \<in> set STOP_REASONS"
proof -
  assume s: "attempt_stop_reason ts b = Some s"
  have "turn_stop t = Some r \<Longrightarrow> r \<in> set STOP_REASONS" for t r by (auto simp: turn_stop_def STOP_REASONS_def split: if_split_asm)
  then have "set (List.map_filter turn_stop ts) \<subseteq> set STOP_REASONS" by (force simp: map_filter_def)
  then show ?thesis using s by (auto simp: attempt_stop_reason_def STOP_REASONS_def split: if_split_asm list.splits)
qed

lemma score_written: "validate_score f (test_obj t) = Inr () \<longleftrightarrow> tr_passed t \<le> tr_total t"
  by (auto simp: validate_score_def test_obj_def Let_def key_set_def jget_Cons count_ok_def int_of_def)

lemma score_full_written: "score_full (test_obj t) = all_pass t"
  by (auto simp: score_full_def test_obj_def jget_Cons int_of_def all_pass_def)


text \<open>The two sides of that case: a complete attempt of the demonstration, and the same attempt as its
  third turn would have left it with an abort behind a turn that did not repeat the session.\<close>

definition demo_metrics :: "bool \<Rightarrow> string option \<Rightarrow> bool \<Rightarrow> attempt_metrics" where
  "demo_metrics whole stop aborted =
     \<lparr>me_complete = whole, me_stop = stop, me_aborted = aborted, me_turns = 3, me_quiet = True, me_revision = True, me_release = whole,
      me_accurate = True, me_public = \<lparr>tr_returncode = None, tr_passed = 2, tr_total = 2, tr_timed_out = False\<rparr>,
      me_hidden = \<lparr>tr_returncode = None, tr_passed = 3, tr_total = 3, tr_timed_out = False\<rparr>, me_wall = Some (5 / 2), me_tokens = None,
      me_calls = (if aborted then replicate 3 ''shell'' else []), me_vector = []\<rparr>"

lemma demo_rows:
  "check_row_fields True 1 (attempt_row_obj 1 (demo_metrics True None False)) = Inr ()"
  "check_row_fields True 1 (attempt_row_obj 1 (demo_metrics False (Some ''missing_session'') True)) = Inl (pilot_err ''protocol-abort fields contradict'')"
  by code_simp+


section \<open>Accepted bundles\<close>

text \<open>A row that tells one story.\<close>

definition row_coherent :: "bool \<Rightarrow> jobj \<Rightarrow> bool" where
  "row_coherent v2 row \<longleftrightarrow>
     jget row ''release_ready'' = PBool (row_release row)
     \<and> (jget row ''status'' = PStr ''COMPLETE'' \<longrightarrow> jget row ''turns_completed'' = PInt 3)
     \<and> (\<exists>calls \<ge> 0. jget row ''unsupported_tool_calls'' = PInt calls \<and> jget row ''tool_protocol_clean'' = PBool (calls = 0)
          \<and> (v2 \<longrightarrow> jget row ''protocol_aborted'' = PBool True \<longrightarrow> int MAX_UNSUPPORTED_CALLS \<le> calls))
     \<and> (v2 \<longrightarrow> jget row ''protocol_aborted'' = PBool (jget row ''stop_reason'' = PStr ''unsupported_tool_loop'')
          \<and> (jget row ''status'' = PStr ''COMPLETE'' \<longleftrightarrow> jget row ''stop_reason'' = PNone))"

lemma count_ok_iff: "count_ok v \<longleftrightarrow> (\<exists>n \<ge> 0. v = PInt n)"
  by (cases v) (auto simp: count_ok_def)

lemma check_row_coherent:
  assumes "check_row_fields v2 index row = Inr ()"
  shows "row_coherent v2 row"
proof -
  have ok: "\<exists>s \<in> set [''COMPLETE'', ''INCOMPLETE'']. jget row ''status'' = PStr s" "count_ok (jget row ''turns_completed'')"
    "jget row ''status'' = PStr ''COMPLETE'' \<longrightarrow> int_of (jget row ''turns_completed'') = 3" "count_ok (jget row ''unsupported_tool_calls'')"
    "jget row ''tool_protocol_clean'' = PBool (int_of (jget row ''unsupported_tool_calls'') = 0)"
    "(if v2 then check_abort index row else Inr ()) = Inr ()" "jget row ''release_ready'' = PBool (row_release row)"
    using assms unfolding check_row_fields_def list.map append.simps res_seq_Cons_Inr fail_if_Inr need_in_Inr by blast+
  have ab: "jget row ''protocol_aborted'' = PBool (jget row ''stop_reason'' = PStr ''unsupported_tool_loop'')
      \<and> (jget row ''protocol_aborted'' = PBool True \<longrightarrow> int MAX_UNSUPPORTED_CALLS \<le> int_of (jget row ''unsupported_tool_calls''))
      \<and> \<not> (jget row ''status'' = PStr ''COMPLETE'' \<and> jget row ''stop_reason'' \<noteq> PNone)
      \<and> \<not> (jget row ''status'' = PStr ''INCOMPLETE'' \<and> jget row ''stop_reason'' = PNone)" if v2
    using ok(6) that unfolding check_abort_def Let_def if_True res_seq_Cons_Inr fail_if_Inr by (simp add: not_less)
  obtain calls where calls: "jget row ''unsupported_tool_calls'' = PInt calls" "0 \<le> calls" using ok(4) count_ok_iff by auto
  obtain turns where turns: "jget row ''turns_completed'' = PInt turns" using ok(2) count_ok_iff by auto
  show ?thesis
    unfolding row_coherent_def using ok(1,3,5,7) ab calls turns by (auto simp: int_of_def)
qed

definition rows_of :: "pyval \<Rightarrow> pyval list" where
  "rows_of v = (case v of PDict m \<Rightarrow> (case jget m ''attempts'' of PList rows \<Rightarrow> rows | _ \<Rightarrow> []) | _ \<Rightarrow> [])"

definition attempt_of :: "pyval \<Rightarrow> pyval" where
  "attempt_of v = (case v of PDict row \<Rightarrow> jget row ''attempt'' | _ \<Rightarrow> PNone)"

lemma pilot_rows_fold:
  "res_fold (check_pilot_row v2 index) seen rows = Inr out \<Longrightarrow> distinct seen \<Longrightarrow>
     map PInt out = map PInt seen @ map attempt_of rows \<and> distinct out
     \<and> (\<forall>v \<in> set rows. \<exists>row. v = PDict row \<and> row_coherent v2 row)"
proof (induction rows arbitrary: seen)
  case (Cons v rows)
  obtain s where s: "check_pilot_row v2 index seen v = Inr s" "res_fold (check_pilot_row v2 index) s rows = Inr out"
    using Cons.prems(1) by (auto split: sum.splits)
  obtain row where row: "v = PDict row" using s(1) by (cases v) (simp_all add: check_pilot_row_def Public.as_obj_def)
  obtain n where n: "jget row ''attempt'' = PInt n"
    using s(1) by (cases "jget row ''attempt''") (auto simp: check_pilot_row_def Public.as_obj_def row split: if_split_asm)
  have c: "check_row_fields v2 index row = Inr ()" "s = seen @ [n]" "n \<notin> set seen"
    using s(1) by (auto simp: check_pilot_row_def Public.as_obj_def row n res_bind_Inr_iff split: if_split_asm)
  have "distinct s" using Cons.prems(2) c by simp
  then show ?case using Cons.IH [OF s(2)] check_row_coherent [OF c(1)] row c(2) n by (auto simp: attempt_of_def)
qed simp

lemma check_pilot_model_rows:
  assumes "check_pilot_model v2 (i, v) = Inr ()"
  shows "rows_of v \<noteq> [] \<and> distinct (map attempt_of (rows_of v)) \<and> (\<forall>r \<in> set (rows_of v). \<exists>row. r = PDict row \<and> row_coherent v2 row)"
proof -
  obtain m rows where m: "v = PDict m" "jget m ''attempts'' = PList rows" "rows \<noteq> []"
    and fold_ok: "map_sum id (\<lambda>_. ()) (res_fold (check_pilot_row v2 i) [] rows) = Inr ()"
    using assms unfolding check_pilot_model_def by (auto simp: res_bind_Inr_iff Public.as_obj_Inr as_list_Inr split: if_split_asm)
  obtain out where "res_fold (check_pilot_row v2 i) [] rows = Inr out" using fold_ok map_sum_Inr_iff by metis
  from pilot_rows_fold [OF this] have "map PInt out = map attempt_of rows" "distinct out"
    "\<forall>r \<in> set rows. \<exists>row. r = PDict row \<and> row_coherent v2 row" by simp_all
  moreover have "distinct (map PInt out)" using calculation(2) by (simp add: distinct_map inj_on_def)
  ultimately show ?thesis using m by (simp add: rows_of_def)
qed

lemma walk_names:
  "set (names v) \<subseteq> (\<lambda>(_, k, _). k) ` set (walk path v)"
  "set (names_dict d) \<subseteq> (\<lambda>(_, k, _). k) ` set (walk_dict path d)"
  "set (names_list xs) \<subseteq> (\<lambda>(_, k, _). k) ` set (walk_list path i xs)"
  by (induction path v and path d and path i xs rule: walk_walk_dict_walk_list.induct) force+

lemma pilot_validated:
  assumes "validate_public_pilot_result sha dumps v = Inr w"
  obtains payload v2 ms where "v = PDict payload" "pilot_schema payload = Inr v2" "jget payload ''models'' = PList ms" "ms \<noteq> []"
    "res_all (check_pilot_model v2) (enumerate 1 ms) = Inr ()" "res_all check_entry (walk ''root'' v) = Inr ()" "pilot_bundle_id_ok sha dumps payload"
    "length (dumps v) \<le> 2000000" "w = v"
proof -
  obtain payload where p: "v = PDict payload"
    using assms by (cases v) (simp_all add: validate_public_pilot_result_def Public.as_obj_def)
  obtain v2 where v2: "pilot_schema payload = Inr v2" and ok: "pilot_bundle_id_ok sha dumps payload"
    "check_pilot_models v2 (jget payload ''models'') = Inr ()" "res_all check_entry (walk ''root'' v) = Inr ()" "length (dumps v) \<le> 2000000" "w = v"
    using assms unfolding validate_public_pilot_result_def p Public.as_obj_def by (auto simp: res_bind_Inr_iff not_less)
  obtain ms where "jget payload ''models'' = PList ms" "ms \<noteq> []" "res_all (check_pilot_model v2) (enumerate 1 ms) = Inr ()"
    using ok(2) unfolding check_pilot_models_def Let_def by (auto simp: res_bind_Inr_iff as_list_Inr split: if_split_asm)
  then show ?thesis using that p v2 ok by blast
qed

text \<open>C39. An accepted pilot bundle is coherent and private: every model has attempts with distinct numbers;
  in every row the release follows from status, authority and both suites, a complete attempt has three
  turns, the clean flag is that of the call count, and under the second schema an abort is the tool loop
  with its threshold and completeness is the absence of a stop reason; no object at any depth has a
  forbidden key, no value under a key looks private or like a secret, and the text is bounded.\<close>

theorem pilot_bundle_coherent:
  assumes "load_public_pilot_bundle sha dumps f = Inr w"
  shows "\<exists>payload v2 ms. w = PDict payload \<and> pilot_schema payload = Inr v2 \<and> jget payload ''models'' = PList ms \<and> ms \<noteq> []
    \<and> list_all (\<lambda>v. rows_of v \<noteq> [] \<and> distinct (map attempt_of (rows_of v))
         \<and> list_all (\<lambda>r. case r of PDict row \<Rightarrow> row_coherent v2 row | _ \<Rightarrow> False) (rows_of v)) ms
    \<and> set (names w) \<inter> set FORBIDDEN_KEYS = {}
    \<and> list_all (\<lambda>(_, _, v). case v of PStr s \<Rightarrow> \<not> private_string s \<and> \<not> secret_string s | _ \<Rightarrow> True) (walk ''root'' w)
    \<and> length (dumps w) \<le> 2000000"
proof -
  obtain v where v: "validate_public_pilot_result sha dumps v = Inr w"
    using assms unfolding load_public_pilot_bundle_def Let_def
    by (auto simp: res_bind_Inr_iff split: if_split_asm option.split_asm)
  obtain payload v2 ms where p: "v = PDict payload" "pilot_schema payload = Inr v2" "jget payload ''models'' = PList ms" "ms \<noteq> []"
    "res_all (check_pilot_model v2) (enumerate 1 ms) = Inr ()" "res_all check_entry (walk ''root'' v) = Inr ()" "length (dumps v) \<le> 2000000" "w = v"
    by (rule pilot_validated [OF v])
  have models: "rows_of m \<noteq> [] \<and> distinct (map attempt_of (rows_of m))
      \<and> list_all (\<lambda>r. case r of PDict row \<Rightarrow> row_coherent v2 row | _ \<Rightarrow> False) (rows_of m)" if "m \<in> set ms" for m
  proof -
    have "m \<in> snd ` set (enumerate 1 ms)" using that by (metis list.set_map map_snd_enumerate)
    then obtain i where "(i, m) \<in> set (enumerate 1 ms)" by force
    then have "check_pilot_model v2 (i, m) = Inr ()" using p(5) by (auto simp: res_all_Inr_iff)
    then show ?thesis using check_pilot_model_rows by (fastforce simp: list_all_iff)
  qed
  have entries: "check_entry (a, k, x) = Inr ()" if "(a, k, x) \<in> set (walk ''root'' w)" for a k x
    using p(6,8) that by (auto simp: res_all_Inr_iff)
  have "k \<notin> set FORBIDDEN_KEYS" if "k \<in> set (names w)" for k
    using walk_names(1) [of w "''root''"] that entries by (fastforce simp: check_entry_def)
  moreover have "list_all (\<lambda>(_, _, v). case v of PStr s \<Rightarrow> \<not> private_string s \<and> \<not> secret_string s | _ \<Rightarrow> True) (walk ''root'' w)"
    using entries by (force simp: list_all_iff check_entry_def split: pyval.splits)
  ultimately show ?thesis using p models by (intro exI [of _ payload] exI [of _ v2] exI [of _ ms]) (auto simp: list_all_iff)
qed

text \<open>An instance: the bundle that is built from the complete attempt.\<close>

definition demo_pilot_model :: pyval where
  "demo_pilot_model = PDict
     [(''public_name'', PStr ''demo-model''), (''transport'', PStr ''codex_cli''), (''parameters'', PDict [(''reasoning_effort'', PStr ''high'')]),
      (''public_metadata'', PDict [(''memory_gb'', PInt 64)]),
      (''attempts'', PList [PDict (attempt_row_obj 1 (demo_metrics True None False)),
         PDict (attempt_row_obj 2 (demo_metrics False (Some ''unsupported_tool_loop'') True))])]"

definition demo_pilot_body :: jobj where
  "demo_pilot_body = pilot_body PILOT_ID (''sha256:'' @ replicate 64 (CHR ''a''))
     \<lparr>pl_system = ''Linux'', pl_machine = ''x86_64'', pl_major = 3, pl_minor = 12\<rparr> [demo_pilot_model]"

definition demo_pilot_payload :: jobj where
  "demo_pilot_payload = with_pilot_id demo_sha demo_dumps demo_pilot_body"

lemma demo_pilot_payload_checks:
  "pilot_schema demo_pilot_payload = Inr True" "pilot_bundle_id_ok demo_sha demo_dumps demo_pilot_payload"
  "check_pilot_tool (jget demo_pilot_payload ''tool'') = Inr ()" "check_pilot_identity (jget demo_pilot_payload ''pilot'') = Inr ()"
  "check_pilot_environment (jget demo_pilot_payload ''environment'') = Inr ()"
  "check_pilot_models True (jget demo_pilot_payload ''models'') = Inr ()" "py_eq (jget demo_pilot_payload ''privacy'') PRIVACY"
  "res_all check_entry (walk ''root'' (PDict demo_pilot_payload)) = Inr ()"
  by code_simp+

lemma demo_pilot_bundle:
  "load_public_pilot_bundle demo_sha demo_dumps (pilot_archive demo_dumps length (\<lambda>_. Inr (PDict demo_pilot_payload)) ''pilot.zip'' (PDict demo_pilot_payload))
     = Inr (PDict demo_pilot_payload)"
proof -
  have ok: "validate_public_pilot_result demo_sha demo_dumps (PDict demo_pilot_payload) = Inr (PDict demo_pilot_payload)"
    unfolding validate_public_pilot_result_def Public.as_obj_def pyval.case res_bind.simps demo_pilot_payload_checks
    by (simp add: demo_pilot_payload_checks demo_dumps_def res_seq_def fail_if_def)
  have sfx: "str_lower (suffix_of ''pilot.zip'') = ''.zip''" by code_simp
  have sizes: "length pilot_notice \<le> 2000000" "length (demo_dumps x @ [newline]) \<le> 2000000" for x by (simp_all add: pilot_notice_def demo_dumps_def)
  show ?thesis
    unfolding load_public_pilot_bundle_def pilot_archive_def Let_def bundle_file.simps sfx
    using sizes ok by (simp add: not_less)
qed

theorem pilot_bundle_coherent_witness:
  "set (names (PDict demo_pilot_payload)) \<inter> set FORBIDDEN_KEYS = {} \<and> length (rows_of demo_pilot_model) = 2"
proof
  show "set (names (PDict demo_pilot_payload)) \<inter> set FORBIDDEN_KEYS = {}"
    using pilot_bundle_coherent [OF demo_pilot_bundle] by (elim exE conjE)
  show "length (rows_of demo_pilot_model) = 2" by code_simp
qed

end
