(* ===== verification/Collection.thy ===== *)
theory Collection
  imports Community Report
begin

text \<open>
  Planning the collection of bundles (\<open>src/llm_hardtest/collection_plan.py\<close>), and the two pages that
  describe configurations (\<open>render_recommendation\<close> of \<open>community_results.py\<close> and
  \<open>render_collection_plan\<close>). \<open>strf\<close> is \<open>str()\<close>, \<open>jdumps\<close> is \<open>json.dumps\<close> with sorted keys; the middle dot
  outside the modelled characters is \<open>mid_dot\<close>.

  The main result ties the plan to the recommender: what the plan calls ready the recommender can take,
  and with the minimum target the two agree.
\<close>

section \<open>The plan\<close>

record plan_row =
  cp_row :: agg_row
  cp_observed :: "(string \<times> int) list"
  cp_deficits :: "(string \<times> int) list"
  cp_accuracy :: nat
  cp_accuracy_deficit :: int
  cp_additional :: int
  cp_ready :: bool

record collection_plan =
  cl_round :: pyval
  cl_pack :: "string option"
  cl_available :: "string list"
  cl_constraints :: jobj
  cl_objectives :: "string list"
  cl_target :: int
  cl_status :: string
  cl_matched :: nat
  cl_ready :: nat
  cl_additional :: int
  cl_rows :: "plan_row list"

definition objective_count :: "agg_row \<Rightarrow> string \<Rightarrow> nat" where
  "objective_count row ob =
     (if ob = ''accuracy'' then ar_observed row else if ob = ''completion'' then ar_completion_observed row
      else if ob = ''latency'' then ar_wall_observed row else ar_tokens_observed row)"

definition check_target :: "pyval \<Rightarrow> int res" where
  "check_target v =
     (case v of
        PInt t \<Rightarrow> if int MIN_BASELINE_SUBMISSIONS \<le> t \<and> t \<le> 1000 then Inr t
                  else Inl (ValueError ''target bundles must be an integer from 5 to 1000'')
      | _ \<Rightarrow> Inl (ValueError ''target bundles must be an integer from 5 to 1000''))"

definition plan_row_of :: "int \<Rightarrow> string list \<Rightarrow> agg_row \<Rightarrow> plan_row" where
  "plan_row_of target objectives row =
     (let deficits = map (\<lambda>ob. (ob, max 0 (target - int (objective_count row ob)))) objectives;
          accuracy = max 0 (int MIN_BASELINE_SUBMISSIONS - int (ar_observed row));
          additional = fold max (map snd deficits) accuracy in
      \<lparr>cp_row = row, cp_observed = map (\<lambda>ob. (ob, int (objective_count row ob))) objectives, cp_deficits = deficits,
       cp_accuracy = ar_observed row, cp_accuracy_deficit = accuracy, cp_additional = additional, cp_ready = (additional = 0)\<rparr>)"

definition by_name :: "agg_row \<Rightarrow> string \<times> string" where
  "by_name r = (str_lower (ar_model r), ar_configuration r)"

definition empty_plan :: "pyval \<Rightarrow> recommendation \<Rightarrow> jobj \<Rightarrow> string list \<Rightarrow> int \<Rightarrow> string \<Rightarrow> collection_plan" where
  "empty_plan n query constraints objectives target status =
     \<lparr>cl_round = n, cl_pack = rc_pack query, cl_available = rc_available query, cl_constraints = constraints, cl_objectives = objectives,
      cl_target = target, cl_status = status, cl_matched = 0, cl_ready = 0, cl_additional = 0, cl_rows = []\<rparr>"

definition planned_rows :: "int \<Rightarrow> string list \<Rightarrow> agg_row list \<Rightarrow> plan_row list" where
  "planned_rows target objectives rows = map (plan_row_of target objectives) (sort_key by_name rows)"

definition full_plan :: "pyval \<Rightarrow> recommendation \<Rightarrow> jobj \<Rightarrow> string list \<Rightarrow> int \<Rightarrow> plan_row list \<Rightarrow> collection_plan" where
  "full_plan n query constraints objectives target planned =
     (let ready = length (filter cp_ready planned) in
      (empty_plan n query constraints objectives target (if ready = length planned then ''TARGET_MET'' else ''COLLECTION_NEEDED''))
        \<lparr>cl_matched := length planned, cl_ready := ready, cl_additional := sum_list (map cp_additional planned),
         cl_rows := sort_key (\<lambda>r. (- cp_additional r, by_name (cp_row r))) planned\<rparr>)"

definition build_collection_plan ::
  "agg_row list \<Rightarrow> pyval \<Rightarrow> pyval \<Rightarrow> pyval \<Rightarrow> pyval \<Rightarrow> pyval \<Rightarrow> collection_plan res" where
  "build_collection_plan aggregate_rows round_number pack constraints objectives target_bundles =
     res_bind (check_target target_bundles) (\<lambda>target.
     res_bind (recommend_rows aggregate_rows round_number pack constraints objectives PNone) (\<lambda>query.
     res_bind (check_round round_number) (\<lambda>n.
     res_bind (check_objectives objectives) (\<lambda>obs.
     let cs = constraints_of constraints in
     if rc_status query = ''PACK_REQUIRED'' then Inr (empty_plan round_number query cs obs target ''PACK_REQUIRED'')
     else case rc_pack query of
       None \<Rightarrow> Inr (empty_plan round_number query cs obs target ''NO_OBSERVATIONS'')
     | Some p \<Rightarrow>
         if p \<notin> set (rc_available query) then Inr (empty_plan round_number query cs obs target ''NO_OBSERVATIONS'')
         else let here = filter (\<lambda>r. ar_round r = n \<and> ar_pack r = p) aggregate_rows in
           res_bind (res_map (\<lambda>row. matches_constraints row cs) here) (\<lambda>oks.
             let rows = map fst (filter snd (zip here oks)) in
             Inr (if rows = [] then empty_plan round_number query cs obs target ''NO_MATCH''
                  else full_plan round_number query cs obs target (planned_rows target obs rows)))))))"

definition plan_submissions ::
  "(string \<Rightarrow> string) \<Rightarrow> (pyval \<Rightarrow> string) \<Rightarrow> (rat \<Rightarrow> rat) \<Rightarrow> jobj list \<Rightarrow> pyval \<Rightarrow> pyval \<Rightarrow> pyval \<Rightarrow> pyval \<Rightarrow> pyval \<Rightarrow> collection_plan res" where
  "plan_submissions sha dumps sq submissions round_number pack constraints objectives target_bundles =
     res_bind (aggregate_submissions sha dumps sq submissions) (\<lambda>rows.
       build_collection_plan rows round_number pack constraints objectives target_bundles)"

section \<open>The pages\<close>

definition mid_dot :: string where
  "mid_dot = [CHR 0xB7]"

definition md_cell :: "string \<Rightarrow> string" where
  "md_cell s = str_replace_ch newline '' '' (str_replace_ch (CHR ''|'') [bslash, CHR ''|''] s)"

definition percent_text :: "rat option \<Rightarrow> string" where
  "percent_text v = (case v of None \<Rightarrow> ''n/a'' | Some q \<Rightarrow> fmt1 (100 * q) @ ''%'')"

definition METADATA_LABELS :: "(string \<times> string) list" where
  "METADATA_LABELS = [(''model_revision'', ''revision''), (''quantization'', ''quant''), (''model_format'', ''format''),
     (''parameter_count_b'', ''parameters B''), (''server'', ''server''), (''server_version'', ''server version''),
     (''accelerator'', ''accelerator''), (''accelerator_count'', ''accelerators''), (''memory_gb'', ''memory GB''), (''system_memory_gb'', ''system GB'')]"

definition PARAMETER_LABELS :: "(string \<times> string) list" where
  "PARAMETER_LABELS = [(''reasoning_effort'', ''reasoning''), (''context_window'', ''context''), (''max_tokens'', ''max tokens''),
     (''temperature'', ''temperature''), (''top_p'', ''top p''), (''top_k'', ''top k''), (''min_p'', ''min p'')]"

definition labelled :: "(pyval \<Rightarrow> string) \<Rightarrow> jobj \<Rightarrow> (string \<times> string) list \<Rightarrow> string list" where
  "labelled strf d labels = map (\<lambda>(k, label). label @ ''='' @ jstr strf (jget d k)) (filter (\<lambda>(k, _). dict_has d k) labels)"

definition configuration_summary :: "(pyval \<Rightarrow> string) \<Rightarrow> agg_row \<Rightarrow> string res" where
  "configuration_summary strf row =
     (let i = ar_identity row in
      res_bind (obj_of (id_serving i)) (\<lambda>serving.
      res_bind (res_map text_of (filter truthy [jget serving ''os'', jget serving ''architecture''])) (\<lambda>coordinates.
      res_bind (res_map (dict_item (id_environment i)) [''os'', ''architecture'', ''python'']) (\<lambda>env.
      res_bind (res_bind (jitem serving ''scope'') text_of) (\<lambda>scope.
      res_bind (obj_of (id_metadata i)) (\<lambda>meta.
      res_bind (obj_of (id_parameters i)) (\<lambda>params.
      res_bind (text_of (id_transport i)) (\<lambda>transport.
        let place = str_join ''/'' coordinates in
        Inr (str_join ''; ''
          ([''runner='' @ jstr strf (env ! 0) @ ''/'' @ jstr strf (env ! 1) @ ''/py'' @ jstr strf (env ! 2),
            ''serving='' @ scope @ (if place = [] then [] else ''/'' @ place), transport]
           @ labelled strf meta METADATA_LABELS @ labelled strf params PARAMETER_LABELS))))))))))"

definition rat_or_na :: "(pyval \<Rightarrow> string) \<Rightarrow> rat option \<Rightarrow> string" where
  "rat_or_na strf v = (case v of None \<Rightarrow> ''n/a'' | Some q \<Rightarrow> jstr strf (PFloat q))"

definition page_head :: "(pyval \<Rightarrow> string) \<Rightarrow> string \<Rightarrow> string \<Rightarrow> string \<Rightarrow> pyval \<Rightarrow> string option \<Rightarrow> string list \<Rightarrow> string list" where
  "page_head strf title status reason n pack objectives =
     [''# '' @ title, [], ''Status: **'' @ status @ ''**'', [], reason, [],
      ''Round: **'' @ jstr strf n @ ''** '' @ mid_dot @ '' pack: '' @ (case pack of Some p \<Rightarrow> if p = [] then ''not selected'' else code p | None \<Rightarrow> ''not selected''),
      [], ''Objectives: '' @ str_join '', '' objectives, []]"

definition constraint_lines :: "(jobj \<Rightarrow> string) \<Rightarrow> jobj \<Rightarrow> string list" where
  "constraint_lines jdumps cs = (if cs = [] then [] else [''Constraints: '' @ code (jdumps cs), []])"

definition pack_lines :: "string \<Rightarrow> string list \<Rightarrow> string list" where
  "pack_lines status packs = (if status = ''PACK_REQUIRED'' then [''Available packs:'', []] @ map (\<lambda>p. ''- '' @ code p) packs @ [[]] else [])"

definition candidate_line :: "(pyval \<Rightarrow> string) \<Rightarrow> candidate \<Rightarrow> string res" where
  "candidate_line strf c =
     (let row = ca_row c; m = ca_metrics c in
      res_bind (configuration_summary strf row) (\<lambda>setup. Inr (row_of
        [md_cell (ar_model row), code (ar_configuration row), md_cell setup, show_nat (ar_observed row),
         percent_text (mt_accuracy_low m) @ '' / '' @ percent_text (mt_accuracy m),
         percent_text (mt_completion_low m) @ '' / '' @ percent_text (mt_completion m),
         rat_or_na strf (mt_latency m) @ '' (n='' @ show_nat (mt_latency_bundles m) @ '')'',
         rat_or_na strf (mt_throughput m) @ '' (n='' @ show_nat (mt_throughput_bundles m) @ '')''])))"

definition RECOMMENDATION_NOTES :: "string list" where
  "RECOMMENDATION_NOTES =
     [[], ''## Interpretation'', [],
      ''Candidates are filtered from validated voluntary submissions for one exact pack.'',
      ''Accuracy and completion objectives use conservative bundle-cluster interval'',
      ''lower bounds. Latency and throughput require five observed bundles and summarize'',
      ''the distribution of each bundle's mean item measurement. A declared'',
      ''hardware capacity is an observation filter, not proof that the model requires or'',
      ''will fit that capacity. Missing metadata never satisfies a requested constraint.'',
      ''No candidate is a prediction for an untested model, runtime, or environment.'', []]"

definition recommendation_reason :: "recommendation \<Rightarrow> string" where
  "recommendation_reason r =
     (if rc_status r = ''PACK_REQUIRED'' then ''multiple pack fingerprints exist; select one exact pack''
      else if rc_status r = ''NO_MATCH'' then ''no exact public configuration matches every constraint''
      else if rc_status r = ''SINGLE_ELIGIBLE_CONFIGURATION'' then ''one eligible observed configuration exists; no comparison is possible''
      else if rc_status r = ''DESCRIPTIVE_CANDIDATES''
      then ''non-dominated observed configurations; this is not a prediction for untested hardware or settings''
      else if rc_matched r = 0 then ''no observations match the requested round and pack''
      else ''matching configurations do not meet the independent-bundle, objective, and conservative accuracy gates'')"

definition render_recommendation :: "(pyval \<Rightarrow> string) \<Rightarrow> (jobj \<Rightarrow> string) \<Rightarrow> pyval \<Rightarrow> jobj \<Rightarrow> string list \<Rightarrow> recommendation \<Rightarrow> string res" where
  "render_recommendation strf jdumps n constraints objectives r =
     res_bind (res_map (candidate_line strf) (rc_candidates r)) (\<lambda>ls. Inr (str_join [newline]
       (page_head strf ''Descriptive Serving Candidates'' (rc_status r) (recommendation_reason r) n (rc_pack r) objectives
        @ [''Matched configurations: **'' @ show_nat (rc_matched r) @ ''** '' @ mid_dot @ '' eligible: **'' @ show_nat (rc_eligible r) @ ''** '' @ mid_dot
             @ '' Pareto candidates: **'' @ show_nat (length (rc_candidates r)) @ ''**'', []]
        @ constraint_lines jdumps constraints
        @ (if ls = [] then []
           else [row_of [''Model'', ''Config'', ''Observed setup'', ''Bundles'', ''Accuracy lower / observed'', ''Completion lower / observed'',
                   ''Bundle-mean item latency p90'', ''Bundle-mean completion tok/s p50''], ''|---|---|---|---:|---:|---:|---:|---:|''] @ ls)
        @ RECOMMENDATION_NOTES @ pack_lines (rc_status r) (rc_available r))))"

definition plan_reason :: "string \<Rightarrow> string" where
  "plan_reason status =
     (if status = ''PACK_REQUIRED'' then ''multiple pack fingerprints exist; select one exact pack''
      else if status = ''NO_OBSERVATIONS'' then ''no observations exist for the requested round and pack''
      else if status = ''NO_MATCH'' then ''no exact public configuration matches every constraint''
      else if status = ''TARGET_MET'' then ''every matching configuration meets the target for every selected objective''
      else ''collect complete independent bundles for the listed exact configurations'')"

text \<open>\<open>json.dumps(d, sort_keys=True)\<close> of a dict of counts.\<close>

definition count_text :: "(string \<times> int) list \<Rightarrow> string" where
  "count_text d = json_print (json_sort (PDict (map (\<lambda>(k, n). (k, PInt n)) d)))"

definition plan_line :: "(pyval \<Rightarrow> string) \<Rightarrow> plan_row \<Rightarrow> string res" where
  "plan_line strf r =
     (let row = cp_row r in
      res_bind (configuration_summary strf row) (\<lambda>setup. Inr (row_of
        [md_cell (ar_model row), code (ar_configuration row), str_replace_ch (CHR ''|'') [bslash, CHR ''|''] setup,
         code (count_text (cp_observed r)), code (count_text (cp_deficits r)),
         show_nat (cp_accuracy r) @ ''/'' @ show_nat MIN_BASELINE_SUBMISSIONS @ '' (deficit '' @ show_int (cp_accuracy_deficit r) @ '')'',
         show_int (cp_additional r)])))"

definition PLAN_NOTES :: "string list" where
  "PLAN_NOTES =
     [[], ''## Interpretation'', [],
      ''The total is a lower bound: it assumes each new independent bundle reports'',
      ''every selected objective for exactly one listed configuration. Partial bundles'',
      ''may reduce only some deficits. Repeated runs inside one bundle do not increase'',
      ''the count. Every plan also enforces the recommender's five-scored-bundle'',
      ''accuracy prerequisite, even when accuracy is not a selected target objective.'',
      ''This plan exposes no contributor or bundle IDs,'',
      ''does not schedule submissions, and does not predict untested configurations.'', []]"

definition render_collection_plan :: "(pyval \<Rightarrow> string) \<Rightarrow> (jobj \<Rightarrow> string) \<Rightarrow> collection_plan \<Rightarrow> string res" where
  "render_collection_plan strf jdumps p =
     res_bind (res_map (plan_line strf) (cl_rows p)) (\<lambda>ls. Inr (str_join [newline]
       (page_head strf ''Independent Bundle Collection Plan'' (cl_status p) (plan_reason (cl_status p)) (cl_round p) (cl_pack p) (cl_objectives p)
        @ [''Target: **'' @ show_int (cl_target p) @ ''** independent bundles per configuration and selected objective'', [],
           ''Matched: **'' @ show_nat (cl_matched p) @ ''** '' @ mid_dot @ '' ready: **'' @ show_nat (cl_ready p) @ ''** '' @ mid_dot
             @ '' needing collection: **'' @ show_int (int (cl_matched p) - int (cl_ready p)) @ ''** '' @ mid_dot
             @ '' minimum additional complete bundles: **'' @ show_int (cl_additional p) @ ''**'', []]
        @ constraint_lines jdumps (cl_constraints p)
        @ (if ls = [] then []
           else [row_of [''Model'', ''Config'', ''Observed setup'', ''Observed by objective'', ''Deficit by objective'', ''Accuracy prerequisite'',
                   ''Additional complete bundles''], ''|---|---|---|---|---|---|---:|''] @ ls)
        @ PLAN_NOTES @ pack_lines (cl_status p) (cl_available p))))"

section \<open>The plan and the recommender\<close>

text \<open>The rows of aggregation: an interval or a percentile is there exactly when enough bundles are.\<close>

definition row_full :: "agg_row \<Rightarrow> bool" where
  "row_full r \<longleftrightarrow> (ar_pass r \<noteq> None \<longleftrightarrow> MIN_BASELINE_SUBMISSIONS \<le> ar_observed r)
     \<and> (ar_completion r \<noteq> None \<longleftrightarrow> MIN_BASELINE_SUBMISSIONS \<le> ar_completion_observed r)
     \<and> (ar_wall_p90 r \<noteq> None \<longleftrightarrow> ar_wall_observed r \<noteq> 0) \<and> (ar_tokens_p50 r \<noteq> None \<longleftrightarrow> ar_tokens_observed r \<noteq> 0)"

lemma interval_present: "cluster_interval sq xs = None \<longleftrightarrow> \<not> MIN_BASELINE_SUBMISSIONS \<le> length xs"
  by (simp add: cluster_interval_def Let_def not_le)

lemma percentile_present: "percentile xs p = None \<longleftrightarrow> length xs = 0"
  by (simp add: percentile_def)

lemma agg_row_full: "agg_row_of sq confs kg = Inr r \<Longrightarrow> row_full r"
  unfolding agg_row_of_def
  by (clarsimp split: prod.splits option.splits) (simp add: row_full_def interval_present percentile_present del: not_None_eq)

lemma aggregate_full:
  assumes "aggregate_submissions sha dumps sq submissions = Inr rows"
  shows "list_all row_full rows"
proof -
  have rows: "list_all row_full rows" if "res_map (agg_row_of sq confs) kgs = Inr rows" for confs kgs rows
    using that agg_row_full by (induction kgs arbitrary: rows) (auto split: sum.splits)
  show ?thesis using assms rows unfolding aggregate_submissions_def by (auto simp: res_bind_Inr_iff)
qed

lemma objective_present:
  "row_full row \<Longrightarrow> ob \<in> set OBJECTIVES
    \<Longrightarrow> objective_value \<lparr>ca_row = row, ca_metrics = candidate_metrics row\<rparr> ob \<noteq> None \<longleftrightarrow> MIN_BASELINE_SUBMISSIONS \<le> objective_count row ob"
  by (auto simp: OBJECTIVES_def row_full_def objective_value_def objective_count_def candidate_metrics_def Let_def MIN_BASELINE_SUBMISSIONS_def)

lemma check_objectives_known:
  assumes "check_objectives v = Inr obs"
  shows "set obs \<subseteq> set OBJECTIVES"
proof -
  define g where "g = (\<lambda>vs. if \<not> list_all hashable vs then Inl (TypeError ''unhashable type'')
      else if py_distinct vs \<and> list_all (\<lambda>x. x \<in> set (map PStr OBJECTIVES)) vs then res_map text_of vs
      else Inl (ValueError ''recommendation objectives must be unique known values''))"
  have "res_bind (if truthy v then py_iter v else Inr [PStr ''accuracy'']) g = Inr obs"
    using assms unfolding check_objectives_def Let_def g_def by (cases v) (simp_all only: pyval.case sum.distinct)
  then obtain vs where "g vs = Inr obs" by (metis res_bind_Inr_iff)
  then have vs: "list_all (\<lambda>x. x \<in> set (map PStr OBJECTIVES)) vs" "res_map text_of vs = Inr obs"
    unfolding g_def by (simp_all split: if_split_asm)
  have "list_all (\<lambda>x. x \<in> PStr ` W) vs \<Longrightarrow> res_map text_of vs = Inr obs \<Longrightarrow> set obs \<subseteq> W" for W vs obs
    by (induction vs arbitrary: obs) (auto simp: text_of_def split: sum.splits)
  then show ?thesis using vs unfolding set_map by blast
qed

text \<open>\<open>k\<close> more bundles that report everything satisfy the target and the accuracy prerequisite.\<close>

definition enough :: "int \<Rightarrow> string list \<Rightarrow> int \<Rightarrow> agg_row \<Rightarrow> bool" where
  "enough target objectives k row \<longleftrightarrow>
     int MIN_BASELINE_SUBMISSIONS \<le> int (ar_observed row) + k \<and> list_all (\<lambda>ob. target \<le> int (objective_count row ob) + k) objectives"

lemma fold_max_le: "fold max xs (a :: int) \<le> k \<longleftrightarrow> a \<le> k \<and> (\<forall>x \<in> set xs. x \<le> k)"
  by (induction xs arbitrary: a) auto

lemma additional_least: "0 \<le> k \<Longrightarrow> cp_additional (plan_row_of t obs row) \<le> k \<longleftrightarrow> enough t obs k row"
  by (auto simp: plan_row_of_def Let_def enough_def fold_max_le list_all_iff o_def algebra_simps)

lemma additional_nonneg: "0 \<le> cp_additional (plan_row_of t obs row)"
proof -
  have "0 \<le> fold max xs a" if "0 \<le> a" for xs and a :: int using that fold_max_le [of xs a "fold max xs a"] by linarith
  then show ?thesis unfolding plan_row_of_def Let_def plan_row.select_convs by simp
qed

lemma ready_enough: "cp_ready (plan_row_of t obs row) \<longleftrightarrow> enough t obs 0 row"
proof -
  have "cp_ready (plan_row_of t obs row) \<longleftrightarrow> cp_additional (plan_row_of t obs row) = 0" by (simp add: plan_row_of_def Let_def)
  then show ?thesis using additional_least [of 0 t obs row] additional_nonneg [of t obs row] by auto
qed

lemma gate_enough:
  assumes "row_full row" and "set obs \<subseteq> set OBJECTIVES"
  shows "eligible_of (gate_row obs None row) \<noteq> None \<longleftrightarrow> enough (int MIN_BASELINE_SUBMISSIONS) obs 0 row"
proof -
  let ?c = "\<lparr>ca_row = row, ca_metrics = candidate_metrics row\<rparr>"
  have "list_ex (\<lambda>ob. objective_value ?c ob = None) obs \<longleftrightarrow> \<not> list_all (\<lambda>ob. MIN_BASELINE_SUBMISSIONS \<le> objective_count row ob) obs"
    unfolding list_ex_iff list_all_iff using objective_present [OF assms(1)] assms(2) by blast
  moreover have "ar_pass row = None \<longleftrightarrow> \<not> MIN_BASELINE_SUBMISSIONS \<le> ar_observed row" using assms(1) by (auto simp: row_full_def)
  ultimately show ?thesis by (simp add: gate_row_def Let_def enough_def)
qed

lemma eligible_count:
  assumes "list_all row_full rows" and "set obs \<subseteq> set OBJECTIVES"
  shows "length (eligible_rows obs None rows) = length (filter (enough (int MIN_BASELINE_SUBMISSIONS) obs 0) rows)"
  using assms(1)
proof (induction rows)
  case (Cons row rows)
  show ?case using Cons gate_enough [of row obs] assms(2)
    by (cases "eligible_of (gate_row obs None row)") (auto simp: eligible_rows_def List.map_filter_simps)
qed (simp add: eligible_rows_def List.map_filter_simps)


lemma shortlist_matches:
  assumes "shortlist cs obs q p av xs = Inr r"
  obtains oks where "res_map (\<lambda>row. matches_constraints row cs) xs = Inr oks"
  using assms unfolding shortlist_def by (auto simp: res_bind_Inr_iff)

definition coherent_plan :: "recommendation \<Rightarrow> collection_plan \<Rightarrow> bool" where
  "coherent_plan r p \<longleftrightarrow>
     cl_pack p = rc_pack r \<and> cl_available p = rc_available r
     \<and> (cl_status p = ''PACK_REQUIRED'' \<longleftrightarrow> rc_status r = ''PACK_REQUIRED'')
     \<and> cl_matched p = rc_matched r \<and> length (cl_rows p) = rc_matched r \<and> cl_ready p \<le> rc_eligible r
     \<and> (cl_target p = int MIN_BASELINE_SUBMISSIONS \<longrightarrow> cl_ready p = rc_eligible r)
     \<and> (cl_status p = ''TARGET_MET'' \<longleftrightarrow> cl_ready p = cl_matched p \<and> cl_matched p \<noteq> 0)
     \<and> cl_additional p = (\<Sum>x\<leftarrow>cl_rows p. cp_additional x)"

lemma full_plan_coherent:
  assumes rows: "list_all row_full rows" and obs: "set obs \<subseteq> set OBJECTIVES" and ne: "rows \<noteq> []"
    and t: "int MIN_BASELINE_SUBMISSIONS \<le> t" and st: "rc_status r \<noteq> ''PACK_REQUIRED''"
    and r: "rc_matched r = length rows" "rc_eligible r = length (eligible_rows obs None rows)"
  shows "coherent_plan r (full_plan n r cs obs t (planned_rows t obs rows))"
proof -
  have ready: "length (filter cp_ready (planned_rows t obs rows)) = length (filter (enough t obs 0) rows)"
  proof -
    have "mset (planned_rows t obs rows) = mset (map (plan_row_of t obs) rows)" by (simp add: planned_rows_def)
    then have "length (filter cp_ready (planned_rows t obs rows)) = length (filter cp_ready (map (plan_row_of t obs) rows))"
      by (metis mset_filter size_mset)
    then show ?thesis by (simp add: filter_map ready_enough o_def)
  qed
  have elig: "rc_eligible r = length (filter (enough (int MIN_BASELINE_SUBMISSIONS) obs 0) rows)"
    using eligible_count [OF rows obs] r(2) by simp
  have "enough (int MIN_BASELINE_SUBMISSIONS) obs 0 row" if "enough t obs 0 row" for row
    using that t by (auto simp: enough_def list_all_iff)
  then have le: "length (filter (enough t obs 0) rows) \<le> rc_eligible r"
    unfolding elig by (induction rows) auto
  have "mset (cl_rows (full_plan n r cs obs t (planned_rows t obs rows))) = mset (planned_rows t obs rows)"
    by (simp add: full_plan_def empty_plan_def Let_def)
  then have "(\<Sum>x\<leftarrow>cl_rows (full_plan n r cs obs t (planned_rows t obs rows)). cp_additional x) = (\<Sum>x\<leftarrow>planned_rows t obs rows. cp_additional x)"
    by (metis mset_map sum_mset_sum_list)
  then show ?thesis using ready elig le ne r(1) st
    by (auto simp: coherent_plan_def full_plan_def empty_plan_def Let_def planned_rows_def)
qed

lemma build_plan_coherent:
  assumes b: "build_collection_plan rows n pack cs objectives target = Inr p" and rows: "list_all row_full rows"
  shows "\<exists>r. recommend_rows rows n pack cs objectives PNone = Inr r \<and> coherent_plan r p
    \<and> (\<forall>x \<in> set (cl_rows p). \<exists>row \<in> set rows. x = plan_row_of (cl_target p) (cl_objectives p) row)"
proof -
  obtain t r k obs where c: "check_target target = Inr t" "recommend_rows rows n pack cs objectives PNone = Inr r"
    "check_round n = Inr k" "check_objectives objectives = Inr obs"
    using b unfolding build_collection_plan_def by (auto simp: res_bind_Inr_iff)
  have t: "int MIN_BASELINE_SUBMISSIONS \<le> t" using c(1) by (auto simp: check_target_def split: pyval.splits if_split_asm)
  note obs = check_objectives_known [OF c(4)]
  from c(2) show ?thesis
  proof (cases rule: recommend_rows_cases)
    case (1 k' obs' q)
    have e: "k' = k" "obs' = obs" "q = None" using 1(1-3) c(3,4) by (simp_all add: check_floor_def)
    from 1(4) show ?thesis
    proof
      assume no: "no_pack r \<and> (\<exists>sel av st. r = nothing_found sel av st)"
      then have "p = empty_plan n r (constraints_of cs) obs t (if rc_status r = ''PACK_REQUIRED'' then ''PACK_REQUIRED'' else ''NO_OBSERVATIONS'')"
        using b unfolding build_collection_plan_def c res_bind.simps Let_def no_pack_def by (auto split: option.splits if_split_asm)
      then show ?thesis using no c(2) by (auto simp: coherent_plan_def empty_plan_def nothing_found_def)
    next
      define P where "P = the (rc_pack r)"
      let ?cs = "constraints_of cs"
      assume "\<not> no_pack r \<and> shortlist ?cs obs' q (the (rc_pack r)) (rc_available r) (pack_rows k' (the (rc_pack r)) rows) = Inr r"
      then have av: "rc_pack r = Some P" "P \<in> set (rc_available r)" "rc_status r \<noteq> ''PACK_REQUIRED''"
        and sl: "shortlist ?cs obs None P (rc_available r) (pack_rows k P rows) = Inr r" unfolding e P_def by (auto simp: no_pack_def)
      obtain oks where oks: "res_map (\<lambda>row. matches_constraints row ?cs) (pack_rows k P rows) = Inr oks" by (rule shortlist_matches [OF sl])
      define ms where "ms = matched_rows ?cs (pack_rows k P rows)"
      have here: "filter (\<lambda>r'. ar_round r' = k \<and> ar_pack r' = P) rows = pack_rows k P rows"
        by (simp add: pack_rows_def conj_commute)
      have p: "p = (if ms = [] then empty_plan n r ?cs obs t ''NO_MATCH'' else full_plan n r ?cs obs t (planned_rows t obs ms))"
        using b av unfolding build_collection_plan_def c res_bind.simps Let_def av(1) option.case here oks res_map_matched [OF oks] ms_def by simp
      have sub: "set ms \<subseteq> set rows" by (auto simp: ms_def matched_rows_def pack_rows_def)
      have full: "list_all row_full ms" using rows sub by (auto simp: list_all_iff)
      note f = shortlist_facts(1,3) [OF sl, folded ms_def]
      show ?thesis
      proof (cases "ms = []")
        case True
        then show ?thesis using f av(3) c(2) by (auto simp: p coherent_plan_def empty_plan_def eligible_rows_def List.map_filter_simps)
      next
        case False
        then show ?thesis using full_plan_coherent [OF full obs False t av(3) f] sub c(2)
          by (auto simp: p full_plan_def empty_plan_def Let_def planned_rows_def)
      qed
    qed
  qed
qed


text \<open>Five bundles report one model, one of them also another.\<close>

definition demo_plan_model :: "string \<Rightarrow> int \<Rightarrow> pyval" where
  "demo_plan_model nm passed = PDict
     [(''public_name'', PStr nm), (''transport'', PStr ''openai_compat''), (''parameters'', PDict []), (''public_metadata'', PDict []),
      (''rounds'', PDict [(''1'', PDict [(''passed'', PInt passed), (''total'', PInt 4)])])]"

definition demo_plan_bundle :: "pyval list \<Rightarrow> jobj" where
  "demo_plan_bundle ms =
     [(''environment'', PDict [(''os'', PStr ''Linux'')]), (''benchmark'', PDict [(''packs'', PDict [(''1'', PStr ''p'')])]), (''models'', PList ms)]"

definition demo_plan_bundles :: "jobj list" where
  "demo_plan_bundles = demo_plan_bundle [demo_plan_model ''aaaaaaaaaa'' 2, demo_plan_model ''bbbbbbbbbb'' 3]
     # replicate 4 (demo_plan_bundle [demo_plan_model ''aaaaaaaaaa'' 3])"

definition demo_plan_dumps :: "pyval \<Rightarrow> string" where
  "demo_plan_dumps v = (case v of PDict d \<Rightarrow> (case jget d ''public_name'' of PStr s \<Rightarrow> s | _ \<Rightarrow> []) | _ \<Rightarrow> [])"

lemma demo_planned:
  "case plan_submissions id demo_plan_dumps (\<lambda>_. 0) demo_plan_bundles (PInt 1) PNone PNone PNone (PInt 5) of
     Inl _ \<Rightarrow> False
   | Inr p \<Rightarrow> cl_status p = ''COLLECTION_NEEDED'' \<and> cl_matched p = 2 \<and> cl_ready p = 1 \<and> cl_target p = 5
       \<and> map (\<lambda>x. (ar_model (cp_row x), cp_additional x)) (cl_rows p) = [(''bbbbbbbbbb'', 4), (''aaaaaaaaaa'', 0)]"
  by code_simp


end
