(* ===== verification/Spec2Isabelle.thy ===== *)
theory Spec2Isabelle
  imports Replay Report Packs Taskhub_Spec Intake Paired Export Public_Pilot Collection
begin

text \<open>
  A verification library for the LLM hard-test harness: the Python package \<open>src/llm_hardtest\<close>, the
  graders and runners below \<open>rounds/round4\<close> and the repositories that its tasks hand to a model.

  \<^bold>\<open>The program.\<close> A campaign is a JSON configuration of models, rounds and repetitions.
  \<open>orchestrator.py\<close> validates it, plans its units and runs every model, round and attempt; a finished
  attempt is a \<open>result.json\<close>, a finished round 4 a \<open>run.json\<close>, and a resumed campaign skips what is
  saved and clean. Rounds 1 to 3 ask questions and grade the replies (\<open>round12.py\<close>, \<open>round3.py\<close>);
  round 4 hands a repository to a coding agent (\<open>round4.py\<close>, \<open>v4_runner.py\<close>) and grades what it left
  behind (\<open>v4_grade.py\<close>) with hidden tests whose verdict arrives in a sealed record
  (\<open>v4_hidden_report.py\<close>). \<open>results.py\<close> counts verdicts, \<open>progress.py\<close> shows them, \<open>inspection.py\<close>,
  \<open>replay.py\<close> and \<open>report.py\<close> read a run directory back, \<open>packs.py\<close> fingerprints the benchmark data.

  \<^bold>\<open>The theories.\<close>
  \<^item> \<open>Py_Prelude\<close>, \<open>Py_Regex\<close>, \<open>Py_Json\<close>: the part of Python that the code uses. Results are
    \<open>exn + 'a\<close> (\<open>res_bind\<close>, \<open>res_map\<close>, \<open>res_fold\<close> stop at the first exception), JSON values are \<open>pyval\<close>,
    dictionaries are ordered association lists, floats are rationals, strings are lists of 8-bit
    characters; \<open>re\<close> is a backtracking matcher, \<open>json\<close> a printer and a parser with their round trip.
  \<^item> \<open>Results\<close>: \<open>results.py\<close> and the text helpers of \<open>common.py\<close>; the locale \<open>status_rows\<close> is the contract
    between a grader that writes rows and the counter.
  \<^item> \<open>Round123\<close>: \<open>round12.py\<close>, \<open>round3.py\<close>. The lemmas tie the rows of a payload to its totals.
  \<^item> \<open>Config\<close>: \<open>validate_config\<close> check by check, the URL parser, the plan. \<open>Campaign\<close>: the dashboard,
    \<open>_execute\<close> and \<open>run\<close> on an explicit store. The locales \<open>round_runner\<close> and \<open>campaign_runners\<close> say what
    a runner promises (the events it sends and the payload it saves agree); \<open>std\<close> discharges them
    for rounds 1 to 3, \<open>v4\<close> for round 4.
  \<^item> \<open>Grade_Meta\<close>, \<open>Grade_Seal\<close>, \<open>Grade_Diff\<close>, \<open>Grade_Score\<close>: \<open>v4_grade.py\<close> and \<open>v4_hidden_report.py\<close>: the task
    table, the sealed record and its verification, the diff, the report block, the risk scan, the
    axes, the flags and the aggregation.
  \<^item> \<open>Runner\<close>: \<open>v4_runner.py\<close> and \<open>round4.py\<close>: copying the repository, agent command lines, transcripts,
    prompts, attempts with retries and turns, the main loop, regrading.
  \<^item> \<open>Inspect\<close>, \<open>Replay\<close>, \<open>Report\<close>: the readers of a run directory. \<open>Packs\<close>: pack manifests.
  \<^item> \<open>Community\<close>: the aggregation and the recommendation of \<open>community_results.py\<close>; \<open>Collection\<close>: the plan
    of \<open>collection_plan.py\<close> that rests on it, and their pages. \<open>Public\<close>,
    \<open>Intake\<close>: the validation of public bundles in \<open>public_results.py\<close> and their loading. \<open>Public_Sort\<close>,
    \<open>Export\<close>: validation does not depend on the order of keys; how a run directory becomes a bundle
    and an archive. \<open>Paired\<close>:
    \<open>paired_comparison.py\<close> with the sampler and the percentile of \<open>calibration.py\<close>.
  \<^item> \<open>Round5\<close>, \<open>Round5_Pilot\<close>: \<open>round5.py\<close> and \<open>protocol.py\<close>: the contract, fingerprint and registry of a
    scenario, the three turns of an attempt and its grade; the resumable run over models and attempts.
  \<^item> \<open>Pilot_Evidence\<close>, \<open>Pilot_Honest\<close>: the first part of \<open>pilot_analysis.py\<close>, which checks saved grades
    against their files, and its agreement with what \<open>round5.py\<close> writes. \<open>Public_Pilot\<close>: \<open>public_pilots.py\<close>.
  \<^item> \<open>Taskhub\<close>, \<open>Taskhub_Run\<close>, \<open>Taskhub_Live\<close>, \<open>Taskhub_Spec\<close>: the concurrent repository of task q27 as
    threads that interleave at their locks, its accounting invariant, its progress measure, and its
    refinement of the life of a job.

  \<^bold>\<open>What the lemmas show.\<close> Validation: an accepted configuration has safe distinct keys, a non-empty
  plan and a closed endpoint under isolation. Execution: a campaign leaves exactly its planned files,
  the dashboard adds up, a resume of a clean run calls nobody (this theory, \<open>Campaign\<close>, \<open>Runner\<close>).
  Grading: a hidden score rests on exactly one authentic record, a pass on an untampered full run, the
  scores stay in their bounds, and what looks binary or excluded is still scanned. Reading back:
  report and inspection agree with the counted rows, and a replay asks for exactly what is unresolved.
  Packs: an accepted pack is well formed, and what its fingerprint does and does not fix. Publication:
  an accepted bundle holds nothing private, an exported run publishes what its files hold and loads
  again, a loaded directory aggregates, every bundle has one vote,
  a shortlist is a Pareto front, a collection plan asks for exactly what the recommender lacks, a directional comparison rests on Holm-controlled evidence. Pilots: the
  writable turn and a release are earned, evidence is never overwritten, a finished pilot resumes to itself, a collected attempt is what its
  files say, the reader accepts what the writer wrote, and which of it can be published. The hub: no
  job is lost or run twice, it comes to rest, and where its stale entries come from.

  \<^bold>\<open>Bounds and fuel.\<close> The matcher and the JSON reader take the length of their input as fuel, which
  each consumed character or nesting level repays. \<open>find_report\<close> looks at most once per match.
  \<open>fresh_retry\<close> tries \<open>Suc (2 * n)\<close> suffixes for \<open>n\<close> files, enough because each file blocks at most two
  (\<open>fresh_retry_total\<close>). The loop that looks for Holm's resolution stops before \<open>40 * family + 1\<close>. The weight of a hub bounds every run of its threads (\<open>hub_comes_to_rest\<close>).

  \<^bold>\<open>Parameters.\<close> What the code calls but does not define is an argument: the model backends, the agent
  and test subprocesses, the clock, random nonces, SHA-256, \<open>difflib\<close>, the tokenizer, \<open>Path.glob\<close>,
  \<open>str()\<close> of floats and containers, square roots, ZIP files, the host platform.

  \<^bold>\<open>Not modelled.\<close> The HTTP backends and agent adapters (\<open>backends.py\<close>, \<open>round4_agents.py\<close>,
  \<open>isolation.py\<close>: sockets and processes), the command line (\<open>cli.py\<close>), the index pages of
  \<open>community_results.py\<close> and the page of \<open>paired_comparison.py\<close>, \<open>community_database.py\<close>, the rest of
  \<open>github_submit.py\<close>, \<open>serving_catalog.py\<close>, \<open>panel_config.py\<close>,
  \<open>prediction_readiness.py\<close>, the statistics (the rest of \<open>calibration.py\<close> and \<open>pilot_analysis.py\<close>), the other task repositories and the
  hidden tests of the tasks: later work. Threads that only redraw the screen, file modes, symbolic
  links and characters above 8 bits are left out where the code has them.
\<close>

section \<open>Campaigns end to end\<close>

text \<open>C1. A campaign leaves behind exactly what its configuration asks for: when a validated campaign
  runs to its end with the real runners, starting from any well-formed run directory, every planned
  attempt and round 4 run is on disk, no other file was touched, the dashboard still adds up, and it
  has advanced by exactly the number of items that the saved files call planned, whether they were
  run or found done.\<close>

theorem campaign_accounts:
  assumes "validate_config strf ip_ok bank runtime (PDict config) = Inr ()"
    and "execute bank (std_runner b backend) (round4_run env) False config st = (st', None)"
    and "store_ok st" and "dash_inv (c_dash st)"
  shows "(\<forall>sl \<in> set (slots_of config). \<exists>d. look st' sl = Some d \<and> slot_ok sl d)
    \<and> (\<forall>sl. sl \<notin> set (slots_of config) \<longrightarrow> look st' sl = look st sl)
    \<and> dash_inv (c_dash st')
    \<and> d_completed (c_dash st') = d_completed (c_dash st) + (\<Sum>sl \<in> set (slots_of config). slot_units sl (the (look st' sl)))"
proof -
  note d = v4.execute_accounts [OF assms(1-3)]
  have ok: "store_ok st'" using d(2) assms(3) by (simp add: step_frame_def)
  have "\<forall>sl \<in> set (slots_of config). \<exists>x. look st' sl = Some x \<and> slot_ok sl x"
    using d(1) ok unfolding step_done_def store_ok_def by blast
  moreover have "d_completed (c_dash st') = d_completed (c_dash st) + units_on (set (slots_of config)) st'"
    using d(1) by (simp add: step_done_def)
  ultimately show ?thesis using d(2) assms(4) unfolding step_frame_def units_on_def by simp
qed

text \<open>C2. Resuming is idempotent: once a campaign has run to its end and none of its files reports an
  infrastructure error or an incomplete item, running it again returns without an exception, calls
  no runner (the result is the same for any runner), changes no file, and counts every item once.\<close>

theorem campaign_resume_idempotent:
  assumes "validate_config strf ip_ok bank runtime (PDict config) = Inr ()"
    and "execute bank (std_runner b backend) (round4_run env) False config st = (st', None)"
    and "store_ok st" and "\<forall>sl \<in> set (slots_of config). slot_clean sl (the (look st' sl))"
    and "\<forall>n \<in> {1, 2, 3}. \<exists>u. round_units bank n = Inr u"
  shows "\<exists>d'. execute bank runner run4 dry config (st'\<lparr>c_dash := d\<rparr>) = (st'\<lparr>c_dash := d'\<rparr>, None)
    \<and> d_completed d' - d_completed d = d_completed (c_dash st') - d_completed (c_dash st)"
proof -
  note a = v4.execute_accounts [OF assms(1-3)]
  have "saved_clean (st'\<lparr>c_dash := d\<rparr>) sl" if "sl \<in> set (slots_of config)" for sl
  proof -
    have "look st' sl \<noteq> None" using a(1) that by (simp add: step_done_def del: split_paired_All)
    then obtain x where x: "look st' sl = Some x" by (cases "look st' sl") simp_all
    moreover have "store_ok st'" using a(2) assms(3) by (simp add: step_frame_def)
    moreover have "slot_clean sl x" using bspec [OF assms(4) that] x by simp
    ultimately show ?thesis unfolding saved_clean_def store_ok_def by (simp del: split_paired_All)
  qed
  then have c: "\<forall>sl \<in> set (slots_of config). saved_clean (st'\<lparr>c_dash := d\<rparr>) sl" by blast
  have "units_on (set (slots_of config)) (st'\<lparr>c_dash := d\<rparr>) = units_on (set (slots_of config)) st'"
    by (simp add: units_on_def)
  moreover obtain d' where "execute bank runner run4 dry config (st'\<lparr>c_dash := d\<rparr>) = (st'\<lparr>c_dash := d\<rparr>\<lparr>c_dash := d'\<rparr>, None)"
    "d_completed d' = d_completed (c_dash (st'\<lparr>c_dash := d\<rparr>)) + units_on (set (slots_of config)) (st'\<lparr>c_dash := d\<rparr>)"
    using execute_resumes [OF assms(1) c assms(5)] by blast
  ultimately show ?thesis using a(1) by (intro exI [of _ d']) (simp add: step_done_def)
qed

definition demo_bank_data :: bank_data where
  "demo_bank_data = \<lparr>b_questions = (\<lambda>_. []), b_round3 = [], b_instruction = [], b_files = (\<lambda>_. [])\<rparr>"

definition demo_backend :: backend where
  "demo_backend = (\<lambda>_ _ _. (\<lambda>_ _. Inl (OtherError ''offline''), \<lambda>_. 0))"

definition demo_result :: jobj where
  "demo_result = [(''planned'', PInt 1), (''incomplete'', PInt 0), (''infrastructure_errors'', PInt 0)]"

definition demo_run4 :: jobj where
  "demo_run4 = [(''tasks'', PList [PStr ''q27_race'']), (''attempts'', PInt 2), (''errors'', PList [])]"

definition demo_dash :: dashboard where
  "demo_dash = \<lparr>d_campaign = ''trial'', d_total = 4, d_run_dir = ''runs'', d_enabled = False, d_completed = 0, d_passed = 0,
     d_failed = 0, d_review = 0, d_incomplete = 0, d_invalid = 0, d_skipped = 0, d_current = [], d_latest = [], d_stream = []\<rparr>"

definition demo_campaign :: campaign where
  "demo_campaign =
     \<lparr>c_results = [((''m1'', 1, 1), demo_result), ((''m1'', 1, 2), demo_result)], c_runs = [(''m1'', demo_run4)],
      c_dash = demo_dash\<rparr>"

lemma demo_slots: "slots_of demo_config = [(''m1'', 1, 1), (''m1'', 1, 2), (''m1'', 4, 0)]"
proof -
  have "plan_of demo_config = Inr (2, [1, 4], [demo_model])"
  proof -
    have "jitem demo_config ''repetitions'' = Inr (PInt 2)" "jitem demo_config ''rounds'' = Inr (PList [PInt 1, PInt 4])"
      by code_simp+
    then show ?thesis by (simp add: plan_of_def need_def py_iter_def py_int_def demo_checks)
  qed
  moreover have "slug (key_text demo_model) = ''m1''" by code_simp
  ultimately show ?thesis
    by (simp add: slots_of_def campaign_slots_def model_slots_def Let_def demo_rounds upt_rec numeral_2_eq_2)
qed

lemma demo_looks:
  "look demo_campaign (''m1'', 1, 1) = Some demo_result" "look demo_campaign (''m1'', 1, 2) = Some demo_result"
  "look demo_campaign (''m1'', 4, 0) = Some demo_run4"
  by (simp_all add: look_def demo_campaign_def)

lemma demo_fields:
  "jget demo_result ''planned'' = PInt 1" "clean_result demo_result"
  "jget demo_run4 ''attempts'' = PInt 2" "jget demo_run4 ''tasks'' = PList [PStr ''q27_race'']" "\<not> truthy (jget demo_run4 ''errors'')"
  by (simp_all add: demo_result_def demo_run4_def jget_def dict_get_def clean_result_def)

lemma demo_store_ok: "store_ok demo_campaign"
proof -
  have "slot_ok sl d" if "look demo_campaign sl = Some d" for sl d
  proof -
    obtain k n a where sl: "sl = (k, n, a)" by (cases sl)
    show ?thesis using that demo_fields
      by (cases "n = 4") (auto simp: sl look_def demo_campaign_def slot_ok_def split: if_splits)
  qed
  then show ?thesis by (simp add: store_ok_def)
qed

lemma demo_saved: "\<forall>sl \<in> set (slots_of demo_config). saved_clean demo_campaign sl"
  using demo_looks demo_fields by (auto simp: demo_slots saved_clean_def slot_ok_def slot_clean_def)

lemma demo_units: "\<forall>n \<in> {1, 2, 3}. \<exists>u. round_units demo_bank n = Inr u"
  using demo_bank_ids by (force simp: round_units_def)

lemma demo_executes:
  obtains d where "execute demo_bank (std_runner b backend) (round4_run env) False demo_config demo_campaign
      = (demo_campaign\<lparr>c_dash := d\<rparr>, None)"
  using execute_resumes [OF demo_valid demo_saved demo_units] by blast

lemma demo_dash_inv: "dash_inv (c_dash demo_campaign)"
  by (simp add: dash_inv_def demo_campaign_def demo_dash_def)

theorem campaign_accounts_witness:
  "\<exists>st'. execute demo_bank (std_runner demo_bank_data demo_backend) (round4_run demo_env4) False demo_config demo_campaign = (st', None)
     \<and> d_completed (c_dash st') = 4"
proof -
  obtain d where e: "execute demo_bank (std_runner demo_bank_data demo_backend) (round4_run demo_env4) False demo_config demo_campaign
      = (demo_campaign\<lparr>c_dash := d\<rparr>, None)" by (rule demo_executes)
  have "d_completed (c_dash demo_campaign) = 0" by (simp add: demo_campaign_def demo_dash_def)
  then show ?thesis
    using campaign_accounts [OF demo_valid e demo_store_ok demo_dash_inv] e
    by (simp add: demo_slots demo_looks demo_fields slot_units_def)
qed

theorem campaign_resume_idempotent_witness:
  "\<exists>st' d'. execute demo_bank (std_runner demo_bank_data demo_backend) (round4_run demo_env4) False demo_config demo_campaign = (st', None)
     \<and> execute demo_bank (\<lambda>_ _ _ _. ([], Inl (OtherError ''called''))) (\<lambda>_ _ _. ([], None, Inl (OtherError ''called''))) False
         demo_config (st'\<lparr>c_dash := demo_dash\<rparr>) = (st'\<lparr>c_dash := d'\<rparr>, None)"
proof -
  obtain d where e: "execute demo_bank (std_runner demo_bank_data demo_backend) (round4_run demo_env4) False demo_config demo_campaign
      = (demo_campaign\<lparr>c_dash := d\<rparr>, None)" by (rule demo_executes)
  have c: "\<forall>sl \<in> set (slots_of demo_config). slot_clean sl (the (look (demo_campaign\<lparr>c_dash := d\<rparr>) sl))"
    using demo_saved by (auto simp: saved_clean_def)
  show ?thesis using campaign_resume_idempotent [OF demo_valid e demo_store_ok c demo_units] e by blast
qed

end
